(* ===== verification/Py_Prelude.thy ===== *)
theory Py_Prelude
  imports Complex_Main "HOL-Library.AList" "HOL-Library.Sublist"
begin

text \<open>
  Shared vocabulary of the development: the fragment of Python that the repository's Python
  sources use.

  \<^item> A Python \<open>str\<close> is a HOL \<open>string\<close>, the list of the bytes of its UTF-8 encoding. The
    operations the sources use (splitting at ASCII separators, \<open>in\<close>, \<open>startswith\<close>,
    \<open>replace\<close>, \<open>join\<close>, \<open>encode\<close>) act on these bytes exactly as on the code points;
    \<open>lower\<close> and \<open>strip\<close> are those of ASCII text.
  \<^item> A \<open>dict\<close> is an association list with distinct keys in insertion order; \<open>d[k] = v\<close> is
    the library's \<^const>\<open>AList.update\<close>, which overwrites in place or appends, as Python does.
  \<^item> An exception is a class together with its text; a function that can raise returns the sum
    \<open>exn + 'a\<close>, and code with side effects is a function from a world to an outcome and the
    next world (type \<open>io\<close> below).
  \<^item> A value that comes from JSON is a \<open>pyval\<close>.
\<close>

named_theorems io_simps \<open>unfolding of the exception and world combinators\<close>
named_theorems str_simps \<open>evaluation of the string operations\<close>

section \<open>Exceptions\<close>

text \<open>The exception classes the sources raise, catch or let through.\<close>

datatype exn_class =
    Exception | ValueError | KeyError | IndexError | TypeError | AttributeError | AssertionError
  | RuntimeError | NotImplementedError | OSError | TimeoutError | FileNotFoundError
  | JSONDecodeError | UnicodeDecodeError | BinasciiError | RequestException | HTTPError
  | APIError | DockerNotFound | ImageNotFound | QueueEmpty | OverflowError | PatternError | Skipped
  | ArgumentError | SystemExit

datatype exn = Exn (cls_of: exn_class) (text_of: string)

text \<open>The class and its base classes, nearest first (\<open>object\<close> and \<open>BaseException\<close> are
  left out). \<open>Skipped\<close> is \<open>pytest.skip\<close>, which derives from \<open>BaseException\<close> only, as \<open>SystemExit\<close> does;
  \<open>ArgumentError\<close> is the one of \<open>ctypes\<close> and \<open>PatternError\<close> is \<open>re.error\<close>.\<close>

primrec exn_mro :: "exn_class \<Rightarrow> exn_class list" where
  "exn_mro Exception = [Exception]"
| "exn_mro ValueError = [ValueError, Exception]"
| "exn_mro KeyError = [KeyError, Exception]"
| "exn_mro IndexError = [IndexError, Exception]"
| "exn_mro TypeError = [TypeError, Exception]"
| "exn_mro AttributeError = [AttributeError, Exception]"
| "exn_mro AssertionError = [AssertionError, Exception]"
| "exn_mro RuntimeError = [RuntimeError, Exception]"
| "exn_mro NotImplementedError = [NotImplementedError, RuntimeError, Exception]"
| "exn_mro OSError = [OSError, Exception]"
| "exn_mro TimeoutError = [TimeoutError, OSError, Exception]"
| "exn_mro FileNotFoundError = [FileNotFoundError, OSError, Exception]"
| "exn_mro JSONDecodeError = [JSONDecodeError, ValueError, Exception]"
| "exn_mro UnicodeDecodeError = [UnicodeDecodeError, ValueError, Exception]"
| "exn_mro BinasciiError = [BinasciiError, ValueError, Exception]"
| "exn_mro RequestException = [RequestException, OSError, Exception]"
| "exn_mro HTTPError = [HTTPError, RequestException, OSError, Exception]"
| "exn_mro APIError = [APIError, HTTPError, RequestException, OSError, Exception]"
| "exn_mro DockerNotFound = [DockerNotFound, APIError, HTTPError, RequestException, OSError, Exception]"
| "exn_mro ImageNotFound =
     [ImageNotFound, DockerNotFound, APIError, HTTPError, RequestException, OSError, Exception]"
| "exn_mro QueueEmpty = [QueueEmpty, Exception]"
| "exn_mro OverflowError = [OverflowError, Exception]"
| "exn_mro PatternError = [PatternError, Exception]"
| "exn_mro Skipped = [Skipped]"
| "exn_mro ArgumentError = [ArgumentError, Exception]"
| "exn_mro SystemExit = [SystemExit]"

text \<open>\<open>isinstance(e, c)\<close>, the test an \<open>except c\<close> clause makes.\<close>

definition isa :: "exn \<Rightarrow> exn_class \<Rightarrow> bool" where
  "isa e c \<longleftrightarrow> c \<in> set (exn_mro (cls_of e))"

type_synonym 'a res = "exn + 'a"

fun res_bind :: "'a res \<Rightarrow> ('a \<Rightarrow> 'b res) \<Rightarrow> 'b res" where
  "res_bind (Inl e) f = Inl e"
| "res_bind (Inr a) f = f a"

text \<open>\<open>assert c, m\<close>\<close>

definition py_assert :: "bool \<Rightarrow> string \<Rightarrow> unit res" where
  "py_assert c m = (if c then Inr () else Inl (Exn AssertionError m))"

section \<open>Strings\<close>

definition is_space :: "char \<Rightarrow> bool" where
  "is_space c = (let n = of_char c :: nat in 9 \<le> n \<and> n \<le> 13 \<or> 28 \<le> n \<and> n \<le> 32)"

definition is_digit :: "char \<Rightarrow> bool" where
  "is_digit c = (let n = of_char c :: nat in 48 \<le> n \<and> n \<le> 57)"

definition is_alpha :: "char \<Rightarrow> bool" where
  "is_alpha c = (let n = of_char c :: nat in 65 \<le> n \<and> n \<le> 90 \<or> 97 \<le> n \<and> n \<le> 122)"

definition lower_char :: "char \<Rightarrow> char" where
  "lower_char c = (let n = of_char c :: nat in if 65 \<le> n \<and> n \<le> 90 then char_of (n + 32) else c)"

definition upper_char :: "char \<Rightarrow> char" where
  "upper_char c = (let n = of_char c :: nat in if 97 \<le> n \<and> n \<le> 122 then char_of (n - 32) else c)"

definition lower :: "string \<Rightarrow> string" where
  "lower s = map lower_char s"

definition upper :: "string \<Rightarrow> string" where
  "upper s = map upper_char s"

definition lstrip :: "string \<Rightarrow> string" where
  "lstrip s = dropWhile is_space s"

definition rstrip :: "string \<Rightarrow> string" where
  "rstrip s = rev (dropWhile is_space (rev s))"

definition strip :: "string \<Rightarrow> string" where
  "strip s = rstrip (lstrip s)"

text \<open>\<open>s.rstrip(c)\<close> for a single character \<open>c\<close>.\<close>

definition rstrip_char :: "char \<Rightarrow> string \<Rightarrow> string" where
  "rstrip_char c s = rev (dropWhile (\<lambda>x. x = c) (rev s))"

fun startswith :: "string \<Rightarrow> string \<Rightarrow> bool" where
  "startswith s [] = True"
| "startswith [] (p # ps) = False"
| "startswith (c # cs) (p # ps) = (c = p \<and> startswith cs ps)"

definition endswith :: "string \<Rightarrow> string \<Rightarrow> bool" where
  "endswith s p = startswith (rev s) (rev p)"

text \<open>\<open>sub in s\<close>\<close>

fun str_in :: "string \<Rightarrow> string \<Rightarrow> bool" where
  "str_in sub [] = (sub = [])"
| "str_in sub (c # cs) = (startswith (c # cs) sub \<or> str_in sub cs)"

text \<open>\<open>s.find(sub)\<close>: the first index, or \<open>None\<close> for \<open>-1\<close>.\<close>

fun str_find :: "string \<Rightarrow> string \<Rightarrow> nat option" where
  "str_find [] sub = (if sub = [] then Some 0 else None)"
| "str_find (c # cs) sub =
     (if startswith (c # cs) sub then Some 0 else map_option Suc (str_find cs sub))"

text \<open>\<open>s.split(sep)\<close> for a separator of one character.\<close>

fun split_char :: "char \<Rightarrow> string \<Rightarrow> string list" where
  "split_char d [] = [[]]"
| "split_char d (c # cs) =
     (if c = d then [] # split_char d cs
      else (case split_char d cs of [] \<Rightarrow> [[c]] | w # ws \<Rightarrow> (c # w) # ws))"

text \<open>\<open>s.split(sep)\<close> for any nonempty separator: \<open>cur\<close> is the piece being read, reversed.\<close>

function split_str_from :: "string \<Rightarrow> string \<Rightarrow> string \<Rightarrow> string list" where
  "split_str_from sep cur s =
     (if sep \<noteq> [] \<and> startswith s sep then rev cur # split_str_from sep [] (drop (length sep) s)
      else (case s of [] \<Rightarrow> [rev cur] | c # cs \<Rightarrow> split_str_from sep (c # cur) cs))"
  by pat_completeness auto
termination
proof (relation "measure (\<lambda>(sep, cur, s). length s)", goal_cases)
  case 1
  show ?case by simp
next
  case (2 sep cur s)
  then show ?case by (cases s; cases sep) auto
next
  case (3 sep cur s c cs)
  then show ?case by simp
qed

definition split_str :: "string \<Rightarrow> string \<Rightarrow> string list" where
  "split_str sep s = split_str_from sep [] s"

text \<open>\<open>s.split()\<close>: maximal runs of non-space characters.\<close>

fun split_ws_from :: "string \<Rightarrow> string \<Rightarrow> string list" where
  "split_ws_from cur [] = (if cur = [] then [] else [rev cur])"
| "split_ws_from cur (c # cs) =
     (if is_space c then (if cur = [] then split_ws_from [] cs else rev cur # split_ws_from [] cs)
      else split_ws_from (c # cur) cs)"

definition split_ws :: "string \<Rightarrow> string list" where
  "split_ws s = split_ws_from [] s"

text \<open>\<open>s.split(d, 1)\<close>: at most one cut.\<close>

fun split_once :: "char \<Rightarrow> string \<Rightarrow> string list" where
  "split_once d [] = [[]]"
| "split_once d (c # cs) =
     (if c = d then [[], cs]
      else (case split_once d cs of [] \<Rightarrow> [[c]] | w # ws \<Rightarrow> (c # w) # ws))"

fun join :: "string \<Rightarrow> string list \<Rightarrow> string" where
  "join sep [] = []"
| "join sep [x] = x"
| "join sep (x # y # ys) = x @ sep @ join sep (y # ys)"

text \<open>\<open>s.replace(a, b)\<close> for single characters \<open>a\<close> and \<open>b\<close>.\<close>

definition replace_char :: "char \<Rightarrow> char \<Rightarrow> string \<Rightarrow> string" where
  "replace_char a b s = map (\<lambda>c. if c = a then b else c) s"

text \<open>\<open>s.replace(old, new)\<close> for a nonempty \<open>old\<close>.\<close>

definition replace_str :: "string \<Rightarrow> string \<Rightarrow> string \<Rightarrow> string" where
  "replace_str old new s = join new (split_str old s)"

text \<open>\<open>str(n)\<close> for integers.\<close>

definition digit_char :: "nat \<Rightarrow> char" where
  "digit_char d = char_of (48 + d)"

fun str_nat :: "nat \<Rightarrow> string" where
  "str_nat n = (if n < 10 then [digit_char n] else str_nat (n div 10) @ [digit_char (n mod 10)])"

declare str_nat.simps [simp del]

definition str_int :: "int \<Rightarrow> string" where
  "str_int i = (if i < 0 then CHR ''-'' # str_nat (nat (- i)) else str_nat (nat i))"

text \<open>The characters of a text, which is kept as UTF-8: a byte and those that continue it; and the number of a
  character.\<close>

fun chars_of :: "string \<Rightarrow> string list" where
  "chars_of [] = []"
| "chars_of (c # cs) =
     (case chars_of cs of
        (d # p) # ps \<Rightarrow> if of_char d div 64 = (2 :: nat) then (c # d # p) # ps else [c] # (d # p) # ps
      | ps \<Rightarrow> [c] # ps)"

definition byte :: "char \<Rightarrow> nat" where
  "byte c = of_char c"

definition code_point :: "string \<Rightarrow> nat" where
  "code_point p =
     (case map byte p of
        [a] \<Rightarrow> a
      | [a, b] \<Rightarrow> (a - 192) * 64 + (b - 128)
      | [a, b, c] \<Rightarrow> (a - 224) * 4096 + (b - 128) * 64 + (c - 128)
      | [a, b, c, d] \<Rightarrow> (a - 240) * 262144 + (b - 128) * 4096 + (c - 128) * 64 + (d - 128)
      | _ \<Rightarrow> 65533)"

text \<open>\<open>int(s)\<close>: surrounding space, an optional sign, decimal digits. Outside ASCII the decimal digits of Unicode count
  as the ASCII ones and spaces as space, every other character being replaced by a question mark; single underscores
  may stand between digits, and a text of more than 4300 digits is refused. The digits are in blocks of ten that start
  at the code points of \<open>digit_zeros\<close> (Unicode 15, which Python 3.12 has).\<close>

definition digit_zeros :: "int list" where
  "digit_zeros =
     [48, 1632, 1776, 1984, 2406, 2534, 2662, 2790, 2918, 3046, 3174, 3302, 3430, 3558, 3664, 3792, 3872,
      4160, 4240, 6112, 6160, 6470, 6608, 6784, 6800, 6992, 7088, 7232, 7248, 42528, 43216, 43264, 43472,
      43504, 43600, 44016, 65296, 66720, 68912, 69734, 69872, 69942, 70096, 70384, 70736, 70864, 71248,
      71360, 71472, 71904, 72016, 72784, 73040, 73120, 73552, 92768, 92864, 93008, 120782, 120792, 120802,
      120812, 120822, 123200, 123632, 124144, 125264, 130032]"

definition wide_spaces :: "int list" where
  "wide_spaces = [133, 160, 5760] @ [8192..8202] @ [8232, 8233, 8239, 8287, 12288]"

fun decimal_char :: "string \<Rightarrow> char" where
  "decimal_char [c] = c"
| "decimal_char p =
     (let n = int (code_point p) in
      if n \<in> set wide_spaces then CHR '' ''
      else case List.find (\<lambda>z. z \<le> n \<and> n < z + 10) digit_zeros of
             Some z \<Rightarrow> digit_char (nat (n - z))
           | None \<Rightarrow> CHR ''?'')"

definition decimal_ascii :: "string \<Rightarrow> string" where
  "decimal_ascii s = map decimal_char (chars_of s)"

definition int_space :: "char \<Rightarrow> bool" where
  "int_space c = (let n = of_char c :: nat in 9 \<le> n \<and> n \<le> 13 \<or> n = 32)"

definition int_strip :: "string \<Rightarrow> string" where
  "int_strip s = rev (dropWhile int_space (rev (dropWhile int_space s)))"

fun digits_val :: "nat \<Rightarrow> string \<Rightarrow> nat" where
  "digits_val acc [] = acc"
| "digits_val acc (c # cs) = digits_val (10 * acc + (of_char c - 48)) cs"

definition parse_nat :: "string \<Rightarrow> nat option" where
  "parse_nat s = (if s \<noteq> [] \<and> list_all is_digit s then Some (digits_val 0 s) else None)"

definition parse_groups :: "string \<Rightarrow> nat option" where
  "parse_groups s =
     (let gs = split_char (CHR ''_'') s in
      if [] \<in> set gs \<or> 4300 < int (length (concat gs)) then None else parse_nat (concat gs))"

definition parse_int :: "string \<Rightarrow> int option" where
  "parse_int s =
     (case int_strip (decimal_ascii s) of
        [] \<Rightarrow> None
      | c # cs \<Rightarrow>
          if c = CHR ''-'' then map_option (\<lambda>n. - int n) (parse_groups cs)
          else if c = CHR ''+'' then map_option int (parse_groups cs)
          else map_option int (parse_groups (c # cs)))"

text \<open>Reading a text file: \<open>\r\n\<close> and \<open>\r\<close> become \<open>\n\<close> (universal newlines), and iterating over it gives the
  lines with their newlines.\<close>

definition newline :: char where
  "newline = char_of (10 :: nat)"

fun newlines_from :: "bool \<Rightarrow> string \<Rightarrow> string" where
  "newlines_from after_cr [] = []"
| "newlines_from after_cr (c # cs) =
     (if c = char_of (13 :: nat) then newline # newlines_from True cs
      else if c = newline \<and> after_cr then newlines_from False cs
      else c # newlines_from False cs)"

definition universal_newlines :: "string \<Rightarrow> string" where
  "universal_newlines s = newlines_from False s"

fun split_lines :: "string \<Rightarrow> string list" where
  "split_lines [] = []"
| "split_lines (c # cs) =
     (if c = newline then [c] # split_lines cs
      else (case split_lines cs of [] \<Rightarrow> [[c]] | l # ls \<Rightarrow> (c # l) # ls))"

definition file_lines :: "string \<Rightarrow> string list" where
  "file_lines text = split_lines (universal_newlines text)"

text \<open>\<open>s.splitlines()\<close> on ASCII text: the line ends are newline, carriage return, the two
  together, vertical tab, form feed and the file, group and record separators.\<close>

definition is_line_end :: "char \<Rightarrow> bool" where
  "is_line_end c = (let n = of_char c :: nat in 10 \<le> n \<and> n \<le> 13 \<or> 28 \<le> n \<and> n \<le> 30)"

fun splitlines_from :: "string \<Rightarrow> string \<Rightarrow> string list" where
  "splitlines_from cur [] = (if cur = [] then [] else [rev cur])"
| "splitlines_from cur [c] = (if is_line_end c then [rev cur] else [rev (c # cur)])"
| "splitlines_from cur (c # d # ds) =
     (if is_line_end c then
        (if of_char c = (13 :: nat) \<and> of_char d = (10 :: nat) then rev cur # splitlines_from [] ds
         else rev cur # splitlines_from [] (d # ds))
      else splitlines_from (c # cur) (d # ds))"

definition splitlines :: "string \<Rightarrow> string list" where
  "splitlines s = splitlines_from [] s"

text \<open>\<open>repr(s)\<close>: double quotes only when the text has an apostrophe and no double quote.\<close>

definition quote_mark :: char where "quote_mark = char_of (34 :: nat)"
definition apostrophe :: char where "apostrophe = char_of (39 :: nat)"
definition backslash :: char where "backslash = char_of (92 :: nat)"

definition repr_char :: "char \<Rightarrow> char \<Rightarrow> string" where
  "repr_char delim c =
     (let n = of_char c :: nat in
      if c = delim \<or> c = backslash then [backslash, c]
      else if n = 10 then [backslash, CHR ''n''] else if n = 13 then [backslash, CHR ''r'']
      else if n = 9 then [backslash, CHR ''t'']
      else if n < 32 \<or> n = 127 then
        [backslash, CHR ''x'', (if n div 16 = 0 then CHR ''0'' else if n div 16 = 1 then CHR ''1'' else CHR ''7''),
         (if n mod 16 < 10 then char_of (48 + n mod 16) else char_of (87 + n mod 16))]
      else [c])"

definition repr_str :: "string \<Rightarrow> string" where
  "repr_str s =
     (let d = (if apostrophe \<in> set s \<and> quote_mark \<notin> set s then quote_mark else apostrophe)
      in d # concat (map (repr_char d) s) @ [d])"

section \<open>Lists\<close>

text \<open>Python indexing \<open>xs[i]\<close>, negative indices counting from the end.\<close>

definition py_nth :: "'a list \<Rightarrow> int \<Rightarrow> 'a res" where
  "py_nth xs i =
     (if i < - int (length xs) \<or> int (length xs) \<le> i
      then Inl (Exn IndexError ''list index out of range'')
      else Inr (xs ! (if i < 0 then length xs - nat (- i) else nat i)))"

text \<open>The first element that satisfies a predicate (\<open>next((x for x in xs if p(x)), None)\<close>).\<close>

definition first_match :: "('a \<Rightarrow> bool) \<Rightarrow> 'a list \<Rightarrow> 'a option" where
  "first_match p xs = List.find p xs"

text \<open>A \<open>for\<close> loop whose body may raise.\<close>

fun res_each :: "('a \<Rightarrow> unit res) \<Rightarrow> 'a list \<Rightarrow> unit res" where
  "res_each f [] = Inr ()"
| "res_each f (x # xs) = (case f x of Inl e \<Rightarrow> Inl e | Inr _ \<Rightarrow> res_each f xs)"

section \<open>Dictionaries\<close>

type_synonym ('k, 'v) dict = "('k \<times> 'v) list"

text \<open>\<open>d.update(e)\<close>\<close>

definition dict_update :: "('k, 'v) dict \<Rightarrow> ('k, 'v) dict \<Rightarrow> ('k, 'v) dict" where
  "dict_update d e = foldl (\<lambda>acc (k, v). AList.update k v acc) d e"

text \<open>\<open>d.setdefault(k, v)\<close>\<close>

definition dict_setdefault :: "'k \<Rightarrow> 'v \<Rightarrow> ('k, 'v) dict \<Rightarrow> ('k, 'v) dict" where
  "dict_setdefault k v d = (if map_of d k = None then AList.update k v d else d)"

text \<open>\<open>d.pop(k, v)\<close>\<close>

definition dict_pop :: "'k \<Rightarrow> 'v \<Rightarrow> ('k, 'v) dict \<Rightarrow> 'v \<times> ('k, 'v) dict" where
  "dict_pop k v d = ((case map_of d k of None \<Rightarrow> v | Some x \<Rightarrow> x), AList.delete k d)"

abbreviation has_key :: "('k, 'v) dict \<Rightarrow> 'k \<Rightarrow> bool" where
  "has_key d k \<equiv> map_of d k \<noteq> None"

section \<open>JSON values\<close>

text \<open>A float is the exact value of its decimal text.\<close>

datatype pyval =
    PNone
  | PBool bool
  | PInt int
  | PFloat rat
  | PStr string
  | PList "pyval list"
  | PDict "(string \<times> pyval) list"

text \<open>Truthiness: \<open>bool(v)\<close>.\<close>

fun truthy :: "pyval \<Rightarrow> bool" where
  "truthy PNone = False"
| "truthy (PBool b) = b"
| "truthy (PInt i) = (i \<noteq> 0)"
| "truthy (PFloat r) = (r \<noteq> 0)"
| "truthy (PStr s) = (s \<noteq> [])"
| "truthy (PList xs) = (xs \<noteq> [])"
| "truthy (PDict d) = (d \<noteq> [])"

text \<open>\<open>v.get(k)\<close>: only a dict has the method.\<close>

fun py_get :: "string \<Rightarrow> pyval \<Rightarrow> pyval res" where
  "py_get k (PDict d) = Inr (case map_of d k of None \<Rightarrow> PNone | Some v \<Rightarrow> v)"
| "py_get k _ = Inl (Exn AttributeError ''object has no attribute get'')"

text \<open>\<open>v.get(k, d)\<close>\<close>

fun py_get_or :: "string \<Rightarrow> pyval \<Rightarrow> pyval \<Rightarrow> pyval res" where
  "py_get_or k d (PDict kvs) = Inr (case map_of kvs k of None \<Rightarrow> d | Some v \<Rightarrow> v)"
| "py_get_or k d _ = Inl (Exn AttributeError ''object has no attribute get'')"

text \<open>\<open>int(v)\<close>, a float being cut off towards zero.\<close>

fun py_int :: "pyval \<Rightarrow> int res" where
  "py_int (PInt i) = Inr i"
| "py_int (PBool b) = Inr (if b then 1 else 0)"
| "py_int (PFloat r) = Inr (if r < 0 then - \<lfloor>- r\<rfloor> else \<lfloor>r\<rfloor>)"
| "py_int (PStr s) =
     (case parse_int s of Some i \<Rightarrow> Inr i | None \<Rightarrow> Inl (Exn ValueError (''invalid literal for int() with base 10: '' @ repr_str s)))"
| "py_int _ = Inl (Exn TypeError ''int() argument must be a string, a bytes-like object or a real number'')"

text \<open>\<open>v[k]\<close> for a string key.\<close>

fun py_key :: "string \<Rightarrow> pyval \<Rightarrow> pyval res" where
  "py_key k (PDict d) = (case map_of d k of None \<Rightarrow> Inl (Exn KeyError k) | Some v \<Rightarrow> Inr v)"
| "py_key k (PList _) = Inl (Exn TypeError ''list indices must be integers or slices, not str'')"
| "py_key k (PStr _) = Inl (Exn TypeError ''string indices must be integers, not str'')"
| "py_key k _ = Inl (Exn TypeError ''object is not subscriptable'')"

text \<open>Python's \<open>==\<close> on values: \<open>True == 1\<close> and \<open>1 == 1.0\<close>; dicts compare as maps.\<close>

fun num_of :: "pyval \<Rightarrow> rat option" where
  "num_of (PBool b) = Some (if b then 1 else 0)"
| "num_of (PInt i) = Some (of_int i)"
| "num_of (PFloat r) = Some r"
| "num_of _ = None"

section \<open>Effects\<close>

text \<open>A computation over a world \<open>'w\<close>: an outcome and the world it leaves.\<close>

type_synonym ('w, 'a) io = "'w \<Rightarrow> 'a res \<times> 'w"

definition io_return :: "'a \<Rightarrow> ('w, 'a) io" where
  "io_return a w = (Inr a, w)"

definition io_raise :: "exn \<Rightarrow> ('w, 'a) io" where
  "io_raise e w = (Inl e, w)"

definition io_bind :: "('w, 'a) io \<Rightarrow> ('a \<Rightarrow> ('w, 'b) io) \<Rightarrow> ('w, 'b) io" where
  "io_bind m f w = (case m w of (Inl e, w') \<Rightarrow> (Inl e, w') | (Inr a, w') \<Rightarrow> f a w')"

text \<open>\<open>try: m  except ...: h\<close>; the handler decides by the exception and may re-raise.\<close>

definition io_try :: "('w, 'a) io \<Rightarrow> (exn \<Rightarrow> ('w, 'a) io) \<Rightarrow> ('w, 'a) io" where
  "io_try m h w = (case m w of (Inl e, w') \<Rightarrow> h e w' | (Inr a, w') \<Rightarrow> (Inr a, w'))"

text \<open>A pure step that may raise.\<close>

definition io_lift :: "'a res \<Rightarrow> ('w, 'a) io" where
  "io_lift r w = (r, w)"

text \<open>\<open>for x in xs: f(x)\<close>\<close>

fun io_each :: "('a \<Rightarrow> ('w, unit) io) \<Rightarrow> 'a list \<Rightarrow> ('w, unit) io" where
  "io_each f [] w = (Inr (), w)"
| "io_each f (x # xs) w = (case f x w of (Inl e, w') \<Rightarrow> (Inl e, w') | (Inr _, w') \<Rightarrow> io_each f xs w')"

lemmas io_defs [io_simps] =
  io_return_def io_raise_def io_bind_def io_try_def io_lift_def

section \<open>Lemmas\<close>

subsection \<open>Exceptions and results\<close>

lemma res_bind_Inr_iff [io_simps]:
  "res_bind r f = Inr b \<longleftrightarrow> (\<exists>a. r = Inr a \<and> f a = Inr b)"
  by (cases r) auto

lemma py_assert_Inr [simp]: "py_assert c m = Inr u \<longleftrightarrow> c"
  by (simp add: py_assert_def)

lemma res_each_Inr: "res_each f xs = Inr u \<longleftrightarrow> (\<forall>x \<in> set xs. f x = Inr ())"
  by (induction xs) (auto split: sum.splits)

lemma io_bind_assoc: "io_bind (io_bind m f) g = io_bind m (\<lambda>a. io_bind (f a) g)"
  by (rule ext) (auto simp: io_bind_def split: prod.splits sum.splits)

lemma io_bind_return [simp]: "io_bind (io_return a) f = f a"
  by (rule ext) (simp add: io_bind_def io_return_def)

lemma io_each_append:
  "io_each f (xs @ ys) w =
     (case io_each f xs w of (Inl e, w') \<Rightarrow> (Inl e, w') | (Inr _, w') \<Rightarrow> io_each f ys w')"
  by (induction xs arbitrary: w) (auto split: prod.splits sum.splits)

subsection \<open>Strings\<close>

lemma startswith_prefix: "startswith s p \<longleftrightarrow> prefix p s"
  by (induction s p rule: startswith.induct) auto

lemma startswith_append [simp]: "startswith (p @ s) p"
  by (simp add: startswith_prefix)

lemma startswith_iff: "startswith s p \<longleftrightarrow> (\<exists>t. s = p @ t)"
  by (auto simp: startswith_prefix prefix_def)

lemma str_in_sublist: "str_in sub s \<longleftrightarrow> (\<exists>a b. s = a @ sub @ b)"
proof (induction s)
  case Nil
  show ?case by simp
next
  case (Cons c cs)
  show ?case
  proof
    assume "str_in sub (c # cs)"
    then consider "startswith (c # cs) sub" | "str_in sub cs"
      by auto
    then show "\<exists>a b. c # cs = a @ sub @ b"
    proof cases
      case 1
      then show ?thesis by (metis append_Nil startswith_iff)
    next
      case 2
      then show ?thesis using Cons.IH by (metis append_Cons)
    qed
  next
    assume "\<exists>a b. c # cs = a @ sub @ b"
    then obtain a b where ab: "c # cs = a @ sub @ b" by blast
    then show "str_in sub (c # cs)"
    proof (cases a)
      case Nil
      with ab have "startswith (c # cs) sub" by (metis append_Nil startswith_append)
      then show ?thesis by simp
    next
      case (Cons x a')
      with ab Cons.IH show ?thesis by auto
    qed
  qed
qed

lemma split_char_nonempty [simp]: "split_char d s \<noteq> []"
  by (induction s) (auto split: list.splits)

lemma split_char_no_sep: "d \<notin> set s \<Longrightarrow> split_char d s = [s]"
  by (induction s) auto

lemma join_split_char: "join [d] (split_char d s) = s"
proof (induction s)
  case Nil
  show ?case by simp
next
  case (Cons c cs)
  obtain w ws where w: "split_char d cs = w # ws"
    by (metis neq_Nil_conv split_char_nonempty)
  with Cons.IH show ?case by (cases ws) auto
qed

lemma split_char_pieces: "p \<in> set (split_char d s) \<Longrightarrow> d \<notin> set p"
  by (induction s arbitrary: p) (auto split: list.splits if_splits)

lemma split_char_append_sep:
  "d \<notin> set a \<Longrightarrow> split_char d (a @ d # b) = a # split_char d b"
  by (induction a) (auto split: list.splits)

lemma split_char_join:
  assumes "xs \<noteq> []" and "\<And>x. x \<in> set xs \<Longrightarrow> d \<notin> set x"
  shows "split_char d (join [d] xs) = xs"
  using assms
  by (induction "[d]" xs rule: join.induct) (simp_all add: split_char_no_sep split_char_append_sep)

lemma last_split_char_append:
  "d \<notin> set b \<Longrightarrow> last (split_char d (a @ d # b)) = b"
proof (induction a)
  case Nil
  then show ?case by (simp add: split_char_no_sep)
next
  case (Cons c a)
  obtain w ws where w: "split_char d (a @ d # b) = w # ws"
    by (metis neq_Nil_conv split_char_nonempty)
  moreover have "ws \<noteq> []"
  proof
    assume "ws = []"
    with w join_split_char [of d "a @ d # b"] have "w = a @ d # b" by simp
    moreover have "d \<notin> set w" using w split_char_pieces [of w d "a @ d # b"] by simp
    ultimately show False by simp
  qed
  ultimately show ?case using Cons by simp
qed

lemma split_once_append: "d \<notin> set a \<Longrightarrow> split_once d (a @ d # b) = [a, b]"
  by (induction a) auto

lemma split_once_no_sep: "d \<notin> set a \<Longrightarrow> split_once d a = [a]"
  by (induction a) auto

lemma concat_chars_of: "concat (chars_of s) = s"
  by (induction s) (auto split: list.splits)

lemma newlines_from_no_cr: "char_of (13 :: nat) \<notin> set (newlines_from b s)"
proof -
  have "newline \<noteq> char_of (13 :: nat)" by code_simp
  then show ?thesis by (induction b s rule: newlines_from.induct) auto
qed

lemma universal_newlines_id: "char_of (13 :: nat) \<notin> set s \<Longrightarrow> universal_newlines s = s"
  unfolding universal_newlines_def by (induction s) auto

lemma universal_newlines_idem: "universal_newlines (universal_newlines s) = universal_newlines s"
  by (rule universal_newlines_id) (simp add: universal_newlines_def newlines_from_no_cr)

lemma split_lines_line: "newline \<notin> set l \<Longrightarrow> split_lines (l @ newline # s) = (l @ [newline]) # split_lines s"
  by (induction l) auto

lemma split_lines_concat: "list_all (\<lambda>l. newline \<notin> set l) ls \<Longrightarrow>
    split_lines (concat (map (\<lambda>l. l @ [newline]) ls)) = map (\<lambda>l. l @ [newline]) ls"
  by (induction ls) (auto simp: split_lines_line)

lemma concat_split_lines: "concat (split_lines s) = s"
  by (induction s) (auto split: list.splits)

subsection \<open>Words\<close>

definition word_ok :: "string \<Rightarrow> bool" where
  "word_ok w \<longleftrightarrow> w \<noteq> [] \<and> list_all (Not \<circ> is_space) w"

lemma split_ws_from_words:
  "list_all (Not \<circ> is_space) cur \<Longrightarrow>
   list_all (\<lambda>w. w \<noteq> [] \<and> list_all (Not \<circ> is_space) w) (split_ws_from cur s)"
  by (induction cur s rule: split_ws_from.induct) (simp_all add: list_all_rev)

lemma split_ws_word: "t \<in> set (split_ws s) \<Longrightarrow> word_ok t"
  using split_ws_from_words [of "[]" s] by (auto simp: split_ws_def list_all_iff word_ok_def)

lemma split_ws_from_word: "list_all (Not \<circ> is_space) w \<Longrightarrow> split_ws_from cur (w @ s) = split_ws_from (rev w @ cur) s"
  by (induction w arbitrary: cur) auto

lemma split_ws_first: "word_ok w \<Longrightarrow> split_ws (w @ '' '' @ s) = w # split_ws s"
  by (simp add: split_ws_def word_ok_def split_ws_from_word is_space_def)

lemma split_ws_last: "word_ok w \<Longrightarrow> split_ws w = [w]"
  using split_ws_from_word [of w "[]" "[]"] by (simp add: split_ws_def word_ok_def)

lemma word_ok_append: "word_ok w \<Longrightarrow> word_ok v \<Longrightarrow> word_ok (w @ v)"
  by (simp add: word_ok_def)

lemma split_ws_join: "list_all word_ok ws \<Longrightarrow> split_ws (join '' '' ws) = ws"
proof (induction "'' ''" ws rule: join.induct)
  case 1
  show ?case by (simp add: split_ws_def)
next
  case (2 x)
  then show ?case by (simp add: split_ws_last)
next
  case (3 x y ys)
  then show ?case using split_ws_first [of x "join '' '' (y # ys)"] by simp
qed

subsection \<open>Decimal numbers\<close>

lemma digit_char_val: "d < 10 \<Longrightarrow> (of_char (digit_char d) :: nat) = 48 + d"
  by (simp add: digit_char_def)

lemma is_digit_digit_char: "d < 10 \<Longrightarrow> is_digit (digit_char d)"
  by (simp add: is_digit_def digit_char_val)

lemma str_nat_digits: "list_all is_digit (str_nat n)"
proof (induction n rule: str_nat.induct)
  case (1 n)
  then show ?case
    by (subst str_nat.simps) (auto simp: is_digit_digit_char)
qed

lemma str_nat_nonempty [simp]: "str_nat n \<noteq> []"
  by (subst str_nat.simps) simp

lemma digits_val_append: "digits_val acc (s @ t) = digits_val (digits_val acc s) t"
  by (induction s arbitrary: acc) auto

lemma digits_val_str_nat: "digits_val 0 (str_nat n) = n"
proof (induction n rule: str_nat.induct)
  case (1 n)
  then show ?case
    by (subst str_nat.simps) (auto simp: digits_val_append digit_char_val)
qed

lemma parse_nat_str_nat [simp]: "parse_nat (str_nat n) = Some n"
  by (simp add: parse_nat_def str_nat_digits digits_val_str_nat)

lemma str_nat_inj: "str_nat m = str_nat n \<Longrightarrow> m = n"
  by (metis option.inject parse_nat_str_nat)

subsection \<open>Dictionaries\<close>

lemma dict_update_Nil [simp]: "dict_update d [] = d"
  by (simp add: dict_update_def)

lemma dict_update_Cons [simp]: "dict_update d ((k, v) # e) = dict_update (AList.update k v d) e"
  by (simp add: dict_update_def)

lemma dict_update_distinct: "distinct (map fst d) \<Longrightarrow> distinct (map fst (dict_update d e))"
  by (induction e arbitrary: d) (auto simp: distinct_update split: prod.splits)

lemma map_of_dict_update:
  "distinct (map fst e) \<Longrightarrow> map_of (dict_update d e) k = (case map_of e k of None \<Rightarrow> map_of d k | Some v \<Rightarrow> Some v)"
proof (induction e arbitrary: d)
  case Nil
  show ?case by simp
next
  case (Cons p e)
  obtain k' v' where p: "p = (k', v')" by fastforce
  from Cons.prems p have "map_of e k' = None" and "distinct (map fst e)"
    by (auto simp: map_of_eq_None_iff image_iff)
  with Cons.IH p show ?case by (auto simp: update_conv' split: option.splits)
qed

lemma map_of_setdefault:
  "map_of (dict_setdefault k v d) k' =
     (if k' = k \<and> map_of d k = None then Some v else map_of d k')"
  by (auto simp: dict_setdefault_def update_conv')

lemma dict_setdefault_distinct: "distinct (map fst d) \<Longrightarrow> distinct (map fst (dict_setdefault k v d))"
  by (simp add: dict_setdefault_def distinct_update)

lemma snd_dict_pop [simp]: "snd (dict_pop k v d) = AList.delete k d"
  by (simp add: dict_pop_def)

end
