(* ===== verification/Py_Codec.thy ===== *)
theory Py_Codec
  imports Py_Prelude
begin

text \<open>
  The encoders of the standard library that the sources call: \<open>base64.b64encode\<close>,
  \<open>b64decode\<close> and \<open>urlsafe_b64decode\<close>, \<open>urllib.parse.quote\<close>, \<open>bytes.hex\<close>,
  \<open>int.to_bytes\<close> and \<open>int.from_bytes\<close>. The locales \<open>codec\<close> and \<open>path_codec\<close>
  state what the clients rely on (decoding undoes encoding; the output stays inside an
  alphabet, so encoded parts can be joined by a separator and taken apart again), and each
  encoder is an instance.
\<close>

section \<open>Definitions\<close>

subsection \<open>base64\<close>

text \<open>The alphabet, by value.\<close>

definition b64_char :: "nat \<Rightarrow> char" where
  "b64_char n =
     (if n < 26 then char_of (65 + n) else if n < 52 then char_of (71 + n)
      else if n < 62 then char_of (n - 4) else if n = 62 then CHR ''+'' else CHR ''/'')"

definition b64_val :: "char \<Rightarrow> nat option" where
  "b64_val c =
     (let n = of_char c in
      if 65 \<le> n \<and> n \<le> 90 then Some (n - 65) else if 97 \<le> n \<and> n \<le> 122 then Some (n - 71)
      else if 48 \<le> n \<and> n \<le> 57 then Some (n + 4)
      else if c = CHR ''+'' then Some 62 else if c = CHR ''/'' then Some 63 else None)"

fun b64encode :: "string \<Rightarrow> string" where
  "b64encode [] = []"
| "b64encode [a] =
     (let x = of_char a in [b64_char (x div 4), b64_char (x mod 4 * 16), CHR ''='', CHR ''=''])"
| "b64encode [a, b] =
     (let x = of_char a; y = of_char b in
      [b64_char (x div 4), b64_char (x mod 4 * 16 + y div 16), b64_char (y mod 16 * 4), CHR ''=''])"
| "b64encode (a # b # c # rest) =
     (let x = of_char a; y = of_char b; z = of_char c in
      b64_char (x div 4) # b64_char (x mod 4 * 16 + y div 16) #
      b64_char (y mod 16 * 4 + z div 64) # b64_char (z mod 64) # b64encode rest)"

text \<open>\<open>binascii.a2b_base64\<close> in its lenient mode: characters outside the alphabet are skipped,
  \<open>q\<close> is the position in the group of four, \<open>left\<close> the bits carried over, \<open>pads\<close> the
  padding characters seen in a row.\<close>

fun a2b_base64 :: "nat \<Rightarrow> nat \<Rightarrow> nat \<Rightarrow> string \<Rightarrow> string res" where
  "a2b_base64 q left pads [] =
     (if q = 0 then Inr []
      else if q = 1 then Inl (Exn BinasciiError ''Invalid base64-encoded string'')
      else Inl (Exn BinasciiError ''Incorrect padding''))"
| "a2b_base64 q left pads (c # cs) =
     (if c = CHR ''='' then
        (if 2 \<le> q \<and> 4 \<le> q + Suc pads then Inr []
         else a2b_base64 q left (if 2 \<le> q then Suc pads else pads) cs)
      else (case b64_val c of
          None \<Rightarrow> a2b_base64 q left pads cs
        | Some v \<Rightarrow>
            if q = 0 then a2b_base64 1 v 0 cs
            else if q = 1 then
              map_sum id ((#) (char_of (left * 4 + v div 16))) (a2b_base64 2 (v mod 16) 0 cs)
            else if q = 2 then
              map_sum id ((#) (char_of (left * 16 + v div 4))) (a2b_base64 3 (v mod 4) 0 cs)
            else map_sum id ((#) (char_of (left * 64 + v))) (a2b_base64 0 0 0 cs)))"

definition b64decode :: "string \<Rightarrow> string res" where
  "b64decode s = a2b_base64 0 0 0 s"

definition urlsafe_b64decode :: "string \<Rightarrow> string res" where
  "urlsafe_b64decode s = b64decode (replace_char (CHR ''_'') (CHR ''/'') (replace_char (CHR ''-'') (CHR ''+'') s))"

subsection \<open>Percent encoding\<close>

definition hex_upper :: "nat \<Rightarrow> char" where
  "hex_upper n = (if n < 10 then char_of (48 + n) else char_of (55 + n))"

definition hex_lower :: "nat \<Rightarrow> char" where
  "hex_lower n = (if n < 10 then char_of (48 + n) else char_of (87 + n))"

definition hex_val :: "char \<Rightarrow> nat option" where
  "hex_val c =
     (let n = of_char c in
      if 48 \<le> n \<and> n \<le> 57 then Some (n - 48) else if 65 \<le> n \<and> n \<le> 70 then Some (n - 55)
      else if 97 \<le> n \<and> n \<le> 102 then Some (n - 87) else None)"

text \<open>The characters \<open>quote\<close> never escapes.\<close>

definition always_safe :: "char \<Rightarrow> bool" where
  "always_safe c \<longleftrightarrow> is_alpha c \<or> is_digit c \<or> c \<in> set ''_.-~''"

definition quote_char :: "string \<Rightarrow> char \<Rightarrow> string" where
  "quote_char safe c =
     (if always_safe c \<or> c \<in> set safe then [c]
      else [CHR ''%'', hex_upper (of_char c div 16), hex_upper (of_char c mod 16)])"

text \<open>\<open>quote(s, safe=...)\<close>\<close>

definition quote :: "string \<Rightarrow> string \<Rightarrow> string" where
  "quote safe s = concat (map (quote_char safe) s)"

text \<open>\<open>quote(s)\<close>, whose default safe set is the slash.\<close>

abbreviation quote_default :: "string \<Rightarrow> string" where
  "quote_default \<equiv> quote ''/''"

text \<open>What the receiving server applies to a path segment or a query value.\<close>

fun unquote :: "string \<Rightarrow> string" where
  "unquote [] = []"
| "unquote [c] = [c]"
| "unquote [c, d] = c # unquote [d]"
| "unquote (c # h # l # cs) =
     (if c = CHR ''%'' then
        (case (hex_val h, hex_val l) of
           (Some a, Some b) \<Rightarrow> char_of (16 * a + b) # unquote cs
         | _ \<Rightarrow> c # unquote (h # l # cs))
      else c # unquote (h # l # cs))"

subsection \<open>Hexadecimal and big-endian integers\<close>

definition hex :: "string \<Rightarrow> string" where
  "hex bs = concat (map (\<lambda>c. [hex_lower (of_char c div 16), hex_lower (of_char c mod 16)]) bs)"

fun unhex :: "string \<Rightarrow> string res" where
  "unhex [] = Inr []"
| "unhex [c] = Inl (Exn ValueError ''non-hexadecimal number found'')"
| "unhex (h # l # cs) =
     (case (hex_val h, hex_val l) of
        (Some a, Some b) \<Rightarrow> map_sum id ((#) (char_of (16 * a + b))) (unhex cs)
      | _ \<Rightarrow> Inl (Exn ValueError ''non-hexadecimal number found''))"

text \<open>The low \<open>k\<close> base-256 digits of \<open>n\<close>, most significant first.\<close>

fun be_bytes :: "nat \<Rightarrow> nat \<Rightarrow> string" where
  "be_bytes 0 n = []"
| "be_bytes (Suc k) n = be_bytes k (n div 256) @ [char_of (n mod 256)]"

text \<open>\<open>i.to_bytes(k, byteorder="big")\<close>\<close>

definition to_bytes :: "nat \<Rightarrow> int \<Rightarrow> string res" where
  "to_bytes k i =
     (if i < 0 then Inl (Exn OverflowError ''cannot convert negative int to unsigned'')
      else if 256 ^ k \<le> i then Inl (Exn OverflowError ''int too big to convert'')
      else Inr (be_bytes k (nat i)))"

text \<open>\<open>int.from_bytes(b, "big")\<close>\<close>

definition from_bytes :: "string \<Rightarrow> nat" where
  "from_bytes bs = foldl (\<lambda>acc c. 256 * acc + of_char c) 0 bs"

section \<open>Interfaces\<close>

locale codec =
  fixes enc :: "'a \<Rightarrow> string" and dec :: "string \<Rightarrow> 'a res"
  assumes dec_enc: "dec (enc x) = Inr x"
begin

lemma enc_inj: "enc x = enc y \<Longrightarrow> x = y"
  by (metis Inr_inject dec_enc)

lemma enc_eq_iff: "enc x = enc y \<longleftrightarrow> x = y"
  using enc_inj by blast

end

text \<open>A codec whose output avoids the characters that separate encoded parts.\<close>

locale path_codec = codec +
  fixes ok :: "char \<Rightarrow> bool"
  assumes enc_ok: "c \<in> set (enc x) \<Longrightarrow> ok c"
begin

lemma enc_no_sep: "\<not> ok d \<Longrightarrow> d \<notin> set (enc x)"
  using enc_ok by blast

lemma split_joined:
  assumes "\<not> ok d" and "xs \<noteq> []"
  shows "split_char d (join [d] (map enc xs)) = map enc xs"
  using assms by (intro split_char_join) (auto dest: enc_ok)

lemma joined_inj:
  assumes "\<not> ok d" and "xs \<noteq> []" and "ys \<noteq> []" and "join [d] (map enc xs) = join [d] (map enc ys)"
  shows "xs = ys"
proof -
  have "map enc xs = map enc ys"
    using assms split_joined by metis
  then show ?thesis by (metis inj_def enc_inj inj_map_eq_map)
qed

end

section \<open>Lemmas\<close>

subsection \<open>base64\<close>

lemma of_char_less [simp]: "(of_char c :: nat) < 256"
  by (rule nat_of_char_less_256)

lemma char_of_of_char_nat [simp]: "char_of (of_char c :: nat) = c"
  by simp

lemma of_char_high: "(of_char c :: nat) div 16 < 16" "(of_char c :: nat) div 16 mod 16 = of_char c div 16"
proof -
  show "(of_char c :: nat) div 16 < 16" by (simp add: div_less_iff_less_mult)
  then show "(of_char c :: nat) div 16 mod 16 = of_char c div 16" by (rule mod_less)
qed

lemma b64_val_char: "n < 64 \<Longrightarrow> b64_val (b64_char n) = Some n"
  by (auto simp: b64_val_def b64_char_def Let_def)

lemma b64_char_not_pad: "n < 64 \<Longrightarrow> b64_char n \<noteq> CHR ''=''"
proof
  assume "n < 64" and "b64_char n = CHR ''=''"
  then have "b64_val CHR ''='' = Some n" using b64_val_char by metis
  then show False by (simp add: b64_val_def Let_def)
qed

lemma a2b_step:
  assumes "v < 64"
  shows "a2b_base64 0 left pads (b64_char v # cs) = a2b_base64 (Suc 0) v 0 cs"
    and "a2b_base64 (Suc 0) left pads (b64_char v # cs) =
      map_sum id ((#) (char_of (left * 4 + v div 16))) (a2b_base64 2 (v mod 16) 0 cs)"
    and "a2b_base64 2 left pads (b64_char v # cs) =
      map_sum id ((#) (char_of (left * 16 + v div 4))) (a2b_base64 3 (v mod 4) 0 cs)"
    and "a2b_base64 3 left pads (b64_char v # cs) =
      map_sum id ((#) (char_of (left * 64 + v))) (a2b_base64 0 0 0 cs)"
  using assms by (simp_all add: b64_val_char b64_char_not_pad)

lemma b64_ranges:
  fixes x y z :: nat
  assumes "x < 256" and "y < 256" and "z < 256"
  shows "x div 4 < 64" and "x mod 4 * 16 < 64" and "x mod 4 * 16 + y div 16 < 64"
    and "y mod 16 * 4 < 64" and "y mod 16 * 4 + z div 64 < 64" and "z mod 64 < 64"
proof -
  have "x mod 4 \<le> 3" and "y mod 16 \<le> 15" and "y div 16 < 16" and "z div 64 < 4"
    using assms by (simp_all add: div_less_iff_less_mult)
  then show "x mod 4 * 16 < 64" and "x mod 4 * 16 + y div 16 < 64"
    and "y mod 16 * 4 < 64" and "y mod 16 * 4 + z div 64 < 64"
    by linarith+
  show "x div 4 < 64" and "z mod 64 < 64"
    using assms by (simp_all add: div_less_iff_less_mult)
qed

lemma b64_recombine:
  fixes x y z :: nat
  assumes "x < 256" and "y < 256" and "z < 256"
  shows "x div 4 * 4 + x mod 4 * 16 div 16 = x"
    and "x div 4 * 4 + (x mod 4 * 16 + y div 16) div 16 = x"
    and "(x mod 4 * 16 + y div 16) mod 16 * 16 + y mod 16 * 4 div 4 = y"
    and "(x mod 4 * 16 + y div 16) mod 16 * 16 + (y mod 16 * 4 + z div 64) div 4 = y"
    and "(y mod 16 * 4 + z div 64) mod 4 * 64 + z mod 64 = z"
proof -
  have y: "y div 16 < 16" and z: "z div 64 < 4"
    using assms by (simp_all add: div_less_iff_less_mult)
  show "x div 4 * 4 + x mod 4 * 16 div 16 = x"
    by simp
  show "x div 4 * 4 + (x mod 4 * 16 + y div 16) div 16 = x"
    using y by simp
  show "(x mod 4 * 16 + y div 16) mod 16 * 16 + y mod 16 * 4 div 4 = y"
    using y by simp
  show "(x mod 4 * 16 + y div 16) mod 16 * 16 + (y mod 16 * 4 + z div 64) div 4 = y"
    using y z by simp
  show "(y mod 16 * 4 + z div 64) mod 4 * 64 + z mod 64 = z"
    using z by simp
qed

lemma a2b_encode: "a2b_base64 0 left pads (b64encode s) = Inr s"
proof (induction s arbitrary: left pads rule: b64encode.induct)
  case 1
  show ?case by simp
next
  case (2 a)
  have "a2b_base64 2 k 0 ''=='' = Inr []" for k by simp
  then show ?case
    using b64_ranges [of "of_char a" 0 0] b64_recombine(1) [of "of_char a" 0 0]
    by (simp add: Let_def a2b_step del: a2b_base64.simps)
next
  case (3 a b)
  have "a2b_base64 3 k 0 ''='' = Inr []" for k by simp
  then show ?case
    using b64_ranges [of "of_char a" "of_char b" 0] b64_recombine(2,3) [of "of_char a" "of_char b" 0]
    by (simp add: Let_def a2b_step del: a2b_base64.simps)
next
  case (4 a b c rest)
  show ?case
    using "4.IH" b64_ranges [of "of_char a" "of_char b" "of_char c"]
      b64_recombine(2,4,5) [of "of_char a" "of_char b" "of_char c"]
    by (simp add: Let_def a2b_step of_char_high(2) del: a2b_base64.simps)
qed

lemma b64decode_b64encode [simp]: "b64decode (b64encode s) = Inr s"
  by (simp add: b64decode_def a2b_encode)

lemma length_b64encode: "length (b64encode s) = 4 * ((length s + 2) div 3)"
proof (induction s rule: b64encode.induct)
  case (4 a b c rest)
  then have "length (b64encode rest) = 4 * ((length rest + 2) div 3)" by simp
  then show ?case by (simp add: Let_def) presburger
qed (simp_all add: Let_def)

interpretation b64: codec b64encode b64decode
  by unfold_locales simp

subsection \<open>Percent encoding\<close>

lemma hex_val_upper: "n < 16 \<Longrightarrow> hex_val (hex_upper n) = Some n"
  by (auto simp: hex_val_def hex_upper_def Let_def)

lemma hex_val_lower: "n < 16 \<Longrightarrow> hex_val (hex_lower n) = Some n"
  by (auto simp: hex_val_def hex_lower_def Let_def)

lemma nibbles: "(n::nat) < 256 \<Longrightarrow> n div 16 < 16 \<and> n mod 16 < 16 \<and> 16 * (n div 16) + n mod 16 = n"
  by presburger

lemma unquote_plain: "c \<noteq> CHR ''%'' \<Longrightarrow> unquote (c # cs) = c # unquote cs"
  by (cases cs rule: unquote.cases) auto

lemma unquote_quote_char:
  assumes "CHR ''%'' \<notin> set safe"
  shows "unquote (quote_char safe c @ rest) = c # unquote rest"
proof (cases "always_safe c \<or> c \<in> set safe")
  case True
  then have "c \<noteq> CHR ''%''"
    using assms by (auto simp: always_safe_def is_alpha_def is_digit_def)
  with True show ?thesis by (simp add: quote_char_def unquote_plain)
next
  case False
  then show ?thesis
    using nibbles [of "of_char c"] by (simp add: quote_char_def hex_val_upper)
qed

lemma unquote_quote:
  assumes "CHR ''%'' \<notin> set safe"
  shows "unquote (quote safe s) = s"
  by (induction s) (simp_all add: quote_def unquote_quote_char [OF assms])

definition quote_alphabet :: "string \<Rightarrow> char \<Rightarrow> bool" where
  "quote_alphabet safe c \<longleftrightarrow> always_safe c \<or> c \<in> set safe \<or> c = CHR ''%''"

lemma hex_upper_safe: "n < 16 \<Longrightarrow> always_safe (hex_upper n)"
  by (auto simp: always_safe_def is_alpha_def is_digit_def hex_upper_def Let_def)

lemma quote_char_alphabet: "x \<in> set (quote_char safe c) \<Longrightarrow> quote_alphabet safe x"
  using nibbles [of "of_char c"]
  by (auto simp: quote_char_def quote_alphabet_def hex_upper_safe split: if_splits)

lemma quote_chars: "x \<in> set (quote safe s) \<Longrightarrow> quote_alphabet safe x"
  by (auto simp: quote_def dest: quote_char_alphabet)

interpretation segment: path_codec "quote []" "\<lambda>s. Inr (unquote s)" "quote_alphabet []"
  by unfold_locales (simp_all add: unquote_quote quote_chars)

lemma reserved_not_quoted:
  "\<not> quote_alphabet [] CHR ''/''" "\<not> quote_alphabet [] CHR ''?''" "\<not> quote_alphabet [] CHR ''&''"
  "\<not> quote_alphabet [] CHR ''=''" "\<not> quote_alphabet [] CHR '',''"
  by (simp_all add: quote_alphabet_def always_safe_def is_alpha_def is_digit_def)

subsection \<open>Hexadecimal and big-endian integers\<close>

lemma unhex_hex: "unhex (hex bs) = Inr bs"
proof (induction bs)
  case Nil
  show ?case by (simp add: hex_def)
next
  case (Cons c bs)
  then show ?case
    using nibbles [of "of_char c"] by (simp add: hex_def hex_val_lower)
qed

interpretation hexc: codec hex unhex
  by unfold_locales (rule unhex_hex)

lemma length_hex [simp]: "length (hex bs) = 2 * length bs"
  by (induction bs) (simp_all add: hex_def)

lemma length_be_bytes [simp]: "length (be_bytes k n) = k"
  by (induction k arbitrary: n) simp_all

lemma from_bytes_snoc: "from_bytes (bs @ [c]) = 256 * from_bytes bs + of_char c"
  by (simp add: from_bytes_def)

lemma from_bytes_be_bytes: "n < 256 ^ k \<Longrightarrow> from_bytes (be_bytes k n) = n"
proof (induction k arbitrary: n)
  case 0
  then show ?case by (simp add: from_bytes_def)
next
  case (Suc k)
  then have "n div 256 < 256 ^ k" by (simp add: less_mult_imp_div_less mult.commute)
  with Suc.IH show ?case by (simp add: from_bytes_snoc)
qed

lemma to_bytes_Inr:
  "to_bytes k i = Inr bs \<longleftrightarrow> 0 \<le> i \<and> i < 256 ^ k \<and> bs = be_bytes k (nat i)"
  by (auto simp: to_bytes_def)

lemma from_bytes_to_bytes: "to_bytes k i = Inr bs \<Longrightarrow> int (from_bytes bs) = i"
  by (auto simp: to_bytes_Inr from_bytes_be_bytes nat_less_iff)

lemma to_bytes_length: "to_bytes k i = Inr bs \<Longrightarrow> length bs = k"
  by (auto simp: to_bytes_Inr)

end
