(* ===== verification/Http_Model.thy ===== *)
theory Http_Model
  imports Py_Prelude
begin

text \<open>
  What the sources see of the \<open>requests\<close> package: a request they build and a response whose
  fields they read. The package itself is a parameter of the model, a function of type
  \<open>http_fun\<close> that turns a request and a world into a response or an exception and the next
  world. \<open>raise_for_status\<close> and \<open>json\<close> are methods of the response object, so their
  outcome is part of the response.
\<close>

record http_req =
  req_method :: string
  req_url :: string
  req_params :: "(string \<times> pyval) list"
  req_headers :: "(string \<times> string) list"
  req_json :: "pyval option"
  req_data :: "string option"
  req_timeout :: "pyval option"

record http_response =
  status_code :: int
  resp_text :: string
  resp_json :: "pyval res"
  raise_for_status :: "exn option"

type_synonym 'w http_fun = "http_req \<Rightarrow> ('w, http_response) io"

text \<open>The documented contract of \<open>raise_for_status\<close>: an \<open>HTTPError\<close> for the 4xx and 5xx
  statuses, nothing for the others.\<close>

definition status_contract :: "http_response \<Rightarrow> bool" where
  "status_contract r \<longleftrightarrow>
     (case raise_for_status r of
        None \<Rightarrow> \<not> (400 \<le> status_code r \<and> status_code r < 600)
      | Some e \<Rightarrow> 400 \<le> status_code r \<and> status_code r < 600 \<and> cls_of e = HTTPError)"

text \<open>\<open>s[i]\<close> of a text.\<close>

definition py_char :: "string \<Rightarrow> int \<Rightarrow> pyval res" where
  "py_char s i =
     (case py_nth (chars_of s) i of
        Inr p \<Rightarrow> Inr (PStr p)
      | Inl _ \<Rightarrow> Inl (Exn IndexError ''string index out of range''))"

text \<open>Iteration over a value, \<open>for x in v\<close>.\<close>

fun py_iter :: "pyval \<Rightarrow> pyval list res" where
  "py_iter (PList xs) = Inr xs"
| "py_iter (PStr s) = Inr (map PStr (chars_of s))"
| "py_iter (PDict d) = Inr (map (\<lambda>(k, _). PStr k) d)"
| "py_iter _ = Inl (Exn TypeError ''object is not iterable'')"

text \<open>\<open>v == n\<close> for an integer \<open>n\<close>.\<close>

definition eq_int :: "pyval \<Rightarrow> int \<Rightarrow> bool" where
  "eq_int v n \<longleftrightarrow> num_of v = Some (of_int n)"

lemma eq_int_PInt [simp]: "eq_int (PInt i) n \<longleftrightarrow> i = n"
  by (simp add: eq_int_def)

lemma eq_int_None [simp]: "\<not> eq_int PNone n"
  by (simp add: eq_int_def)

lemma eq_int_unique: "eq_int v m \<Longrightarrow> eq_int v n \<Longrightarrow> m = n"
  by (simp add: eq_int_def)

end
