(* ===== verification/Sonda.thy ===== *)
theory Sonda
  imports Py_Codec Http_Model
begin

text \<open>
  \<open>apps/sonda/sonda.py\<close>: a prober that publishes one message per round through a node's REST
  API, then asks every store node for it and keeps Prometheus metrics of the answers.

  State: the calls made on the metric objects, in order (\<open>calls\<close>), and the outside world
  (\<open>ext\<close>). The Prometheus client is not part of the repository, so its registry is modelled by
  the calls it received; the one place that reads a metric back (the health update of \<open>main\<close>)
  takes the reading function as a parameter, with the documented laws of a gauge
  (\<open>gauge_laws\<close>) as a hypothesis. Parameters of the outside world: the HTTP client, the two
  clocks and \<open>sleep\<close> (\<open>sonda_env\<close>). The log lines are not modelled.
\<close>

section \<open>Definitions\<close>

subsection \<open>Metrics and constants\<close>

type_synonym labels = "(string \<times> string) list"

datatype metric_call =
    CounterInc string labels
  | GaugeInc string labels
  | GaugeSet string labels rat

definition SONDA_CONTENT_TOPIC :: string where
  "SONDA_CONTENT_TOPIC = ''/sonda/2/polls/proto''"

definition ERR_LOCAL_NODE_UNREACHABLE :: string where
  "ERR_LOCAL_NODE_UNREACHABLE = ''local_node_unreachable''"

definition ERR_PEER_UNREACHABLE :: string where
  "ERR_PEER_UNREACHABLE = ''peer_unreachable''"

definition ERR_QUERY_TIMEOUT :: string where
  "ERR_QUERY_TIMEOUT = ''query_timeout''"

definition ERR_STORE_BACKEND_ERROR :: string where
  "ERR_STORE_BACKEND_ERROR = ''store_backend_error''"

definition ERR_UNKNOWN :: string where
  "ERR_UNKNOWN = ''unknown''"

definition STORE_STATUS_ERRORS :: "(int, string) dict" where
  "STORE_STATUS_ERRORS =
     [(504, ERR_PEER_UNREACHABLE), (503, ERR_STORE_BACKEND_ERROR), (429, ERR_STORE_BACKEND_ERROR)]"

text \<open>The label values the comment above the constants promises.\<close>

definition error_labels :: "string list" where
  "error_labels =
     [ERR_LOCAL_NODE_UNREACHABLE, ERR_PEER_UNREACHABLE, ERR_QUERY_TIMEOUT, ERR_STORE_BACKEND_ERROR,
      ERR_UNKNOWN]"

record sonda_args =
  metrics_port :: int
  node_rest_address :: string
  arg_pubsub_topic :: string
  delay_seconds :: int
  arg_store_nodes :: string
  health_threshold :: int

text \<open>The defaults of the argument parser; \<open>--store-nodes\<close> is required.\<close>

definition parser_defaults :: "string \<Rightarrow> sonda_args" where
  "parser_defaults nodes =
     \<lparr>metrics_port = 8004, node_rest_address = ''http://nwaku:8645'',
      arg_pubsub_topic = ''/waku/2/rs/1/0'', delay_seconds = 60, arg_store_nodes = nodes,
      health_threshold = 5\<rparr>"

record 'w sonda =
  calls :: "metric_call list"
  ext :: 'w

record 'w sonda_env =
  http :: "'w http_fun"
  clock :: "'w \<Rightarrow> rat \<times> 'w"
  clock_ns :: "'w \<Rightarrow> int \<times> 'w"
  sleep :: "int \<Rightarrow> 'w \<Rightarrow> 'w"

definition metric :: "metric_call \<Rightarrow> ('w sonda, unit) io" where
  "metric c s = (Inr (), s\<lparr>calls := calls s @ [c]\<rparr>)"

definition on_ext :: "('w, 'a) io \<Rightarrow> ('w sonda, 'a) io" where
  "on_ext m s = (let (r, w) = m (ext s) in (r, s\<lparr>ext := w\<rparr>))"

definition read_clock :: "('w \<Rightarrow> 't \<times> 'w) \<Rightarrow> ('w sonda, 't) io" where
  "read_clock c = on_ext (\<lambda>w. let (t, w') = c w in (Inr t, w'))"

subsection \<open>Publishing\<close>

definition sonda_body :: "string \<Rightarrow> int \<Rightarrow> pyval" where
  "sonda_body content_topic timestamp =
     PDict [(''payload'', PStr (b64encode ''Hi, I'm Sonda'')), (''contentTopic'', PStr content_topic),
            (''version'', PInt 1), (''timestamp'', PInt timestamp)]"

definition sonda_msg_req :: "string \<Rightarrow> string \<Rightarrow> string \<Rightarrow> int \<Rightarrow> http_req" where
  "sonda_msg_req rest_address pubsub_topic content_topic timestamp =
     \<lparr>req_method = ''POST'', req_url = rest_address @ ''/relay/v1/messages/'' @ quote [] pubsub_topic,
      req_params = [], req_headers = [(''content-type'', ''application/json'')],
      req_json = Some (sonda_body content_topic timestamp), req_data = None, req_timeout = Some (PInt 10)\<rparr>"

definition send_sonda_msg ::
    "'w sonda_env \<Rightarrow> string \<Rightarrow> string \<Rightarrow> string \<Rightarrow> int \<Rightarrow> ('w sonda, bool) io" where
  "send_sonda_msg env rest_address pubsub_topic content_topic timestamp =
     (let req = sonda_msg_req rest_address pubsub_topic content_topic timestamp
      in io_bind
           (io_try
              (io_bind (read_clock (clock env)) (\<lambda>start_time.
               io_bind (on_ext (http env req)) (\<lambda>response.
               io_bind (read_clock (clock env)) (\<lambda>end_time.
                 if status_code response = 200
                 then io_bind (metric (CounterInc ''successful_sonda_msgs'' [])) (\<lambda>_. io_return True)
                 else (case raise_for_status response of
                         Some e \<Rightarrow> io_raise e
                       | None \<Rightarrow> io_return False)))))
              (\<lambda>e. if isa e RequestException then io_return False else io_raise e))
           (\<lambda>sent. if sent then io_return True
              else io_bind (metric (CounterInc ''failed_sonda_msgs'' [])) (\<lambda>_. io_return False)))"

subsection \<open>Store queries\<close>

definition classify_bad_response :: "string \<Rightarrow> string" where
  "classify_bad_response cause0 =
     (let cause = lower cause0 in
      if str_in ''archive error'' cause \<or> str_in ''driver_error'' cause then ERR_STORE_BACKEND_ERROR
      else if str_in ''cancel'' cause \<or> str_in ''timed out'' cause \<or> str_in ''timeout'' cause
      then ERR_QUERY_TIMEOUT
      else if str_in ''closed'' cause \<or> str_in ''reset'' cause \<or> str_in ''eof'' cause
      then ERR_PEER_UNREACHABLE
      else ERR_UNKNOWN)"

definition record_store_failure :: "string \<Rightarrow> string \<Rightarrow> bool \<Rightarrow> ('w sonda, unit) io" where
  "record_store_failure store_node error blame_peer =
     io_bind (metric (CounterInc ''failed_store_queries''
                [(''node'', if blame_peer then store_node else []), (''error'', error)])) (\<lambda>_.
     metric (GaugeSet ''consecutive_successful_responses'' [(''node'', store_node)] 0))"

definition record_empty_response :: "string \<Rightarrow> ('w sonda, unit) io" where
  "record_empty_response store_node =
     io_bind (metric (CounterInc ''empty_store_responses'' [(''node'', store_node)])) (\<lambda>_.
     metric (GaugeSet ''consecutive_successful_responses'' [(''node'', store_node)] 0))"

text \<open>\<open>STORE_STATUS_ERRORS[status_code]\<close> where present; looking up an unhashable value raises.\<close>

fun status_error :: "pyval \<Rightarrow> string option res" where
  "status_error (PList _) = Inl (Exn TypeError ''unhashable type: list'')"
| "status_error (PDict _) = Inl (Exn TypeError ''unhashable type: dict'')"
| "status_error v = Inr (map_option snd (List.find (\<lambda>(k, _). eq_int v k) STORE_STATUS_ERRORS))"

text \<open>\<open>json_response.get('statusDesc') or ''\<close>, used as a string.\<close>

fun desc_text :: "pyval \<Rightarrow> string res" where
  "desc_text (PStr s) = Inr s"
| "desc_text v = (if truthy v then Inl (Exn AttributeError ''object has no attribute lower'') else Inr [])"

text \<open>The error label and the blame flag for a store status other than 200.\<close>

definition classify_status :: "pyval \<Rightarrow> pyval \<Rightarrow> (string \<times> bool) res" where
  "classify_status code desc =
     (if eq_int code 300
      then res_bind (desc_text desc) (\<lambda>d. Inr (classify_bad_response d, True))
      else res_bind (status_error code) (\<lambda>known.
        case known of
          Some err \<Rightarrow> Inr (err, True)
        | None \<Rightarrow> Inr (ERR_UNKNOWN, False)))"

text \<open>The search loop: whether a message of the page carries the timestamp.\<close>

fun find_timestamp :: "int \<Rightarrow> pyval list \<Rightarrow> bool res" where
  "find_timestamp timestamp [] = Inr False"
| "find_timestamp timestamp (m # ms) =
     res_bind (py_get ''message'' m) (\<lambda>inner.
       if \<not> truthy inner then find_timestamp timestamp ms
       else res_bind (py_get ''timestamp'' inner) (\<lambda>t.
         if eq_int t timestamp then Inr True else find_timestamp timestamp ms))"

definition check_store_response :: "pyval \<Rightarrow> string \<Rightarrow> int \<Rightarrow> ('w sonda, bool) io" where
  "check_store_response json_response store_node timestamp =
     io_bind (io_lift (py_get ''statusCode'' json_response)) (\<lambda>code.
     io_bind (io_lift (py_get ''statusDesc'' json_response)) (\<lambda>desc.
       if \<not> eq_int code 200
       then io_bind (io_lift (classify_status code desc)) (\<lambda>(error, blame_peer).
            io_bind (record_store_failure store_node error blame_peer) (\<lambda>_. io_return False))
       else
         io_bind (io_lift (py_get ''messages'' json_response)) (\<lambda>messages.
           if \<not> truthy messages
           then io_bind (record_empty_response store_node) (\<lambda>_. io_return True)
           else
             io_bind (io_lift (res_bind (py_iter messages) (find_timestamp timestamp))) (\<lambda>found.
               if found
               then io_bind (metric (CounterInc ''successful_store_queries'' [(''node'', store_node)])) (\<lambda>_.
                    io_bind (metric (GaugeInc ''consecutive_successful_responses'' [(''node'', store_node)]))
                      (\<lambda>_. io_return True))
               else io_bind (record_empty_response store_node) (\<lambda>_. io_return True)))))"

definition store_query_req :: "string \<Rightarrow> string \<Rightarrow> string \<Rightarrow> string \<Rightarrow> int \<Rightarrow> http_req" where
  "store_query_req rest_address store_node encoded_pubsub_topic encoded_content_topic timestamp =
     \<lparr>req_method = ''GET'', req_url = rest_address @ ''/store/v3/messages'',
      req_params = [(''peerAddr'', PStr (quote [] store_node)), (''pubsubTopic'', PStr encoded_pubsub_topic),
                    (''contentTopics'', PStr encoded_content_topic), (''includeData'', PStr ''true''),
                    (''startTime'', PInt timestamp)],
      req_headers = [], req_json = None, req_data = None, req_timeout = None\<rparr>"

text \<open>The request of \<open>send_store_query\<close>: either its response, or the failure was recorded and
  the query is over (\<open>None\<close>).\<close>

definition query_request ::
    "'w sonda_env \<Rightarrow> string \<Rightarrow> http_req \<Rightarrow> ('w sonda, http_response option) io" where
  "query_request env store_node req =
     io_try (io_bind (on_ext (http env req)) (\<lambda>r. io_return (Some r)))
       (\<lambda>e. if isa e RequestException
            then io_bind (record_store_failure store_node ERR_LOCAL_NODE_UNREACHABLE False)
                   (\<lambda>_. io_return None)
            else if isa e Exception
            then io_bind (record_store_failure store_node ERR_UNKNOWN False) (\<lambda>_. io_return None)
            else io_raise e)"

definition query_answer :: "http_response \<Rightarrow> string \<Rightarrow> int \<Rightarrow> ('w sonda, bool) io" where
  "query_answer response store_node timestamp =
     (if status_code response = 429
      then io_bind (record_store_failure store_node ERR_STORE_BACKEND_ERROR True) (\<lambda>_. io_return False)
      else if status_code response \<noteq> 200
      then io_bind (record_store_failure store_node ERR_UNKNOWN False) (\<lambda>_. io_return False)
      else (case resp_json response of
          Inl e \<Rightarrow> if isa e ValueError
            then io_bind (record_store_failure store_node ERR_UNKNOWN False) (\<lambda>_. io_return False)
            else io_raise e
        | Inr json_response \<Rightarrow> check_store_response json_response store_node timestamp))"

definition finish_query ::
    "'w sonda_env \<Rightarrow> string \<Rightarrow> int \<Rightarrow> rat \<Rightarrow> http_response \<Rightarrow> ('w sonda, bool) io" where
  "finish_query env store_node timestamp s_time response =
     io_bind (read_clock (clock env)) (\<lambda>e_time.
     io_bind (query_answer response store_node timestamp) (\<lambda>good.
       if \<not> good then io_return False
       else io_bind (metric (GaugeSet ''store_query_latency'' [(''node'', store_node)] (e_time - s_time)))
              (\<lambda>_. io_return True)))"

definition send_store_query ::
    "'w sonda_env \<Rightarrow> string \<Rightarrow> string \<Rightarrow> string \<Rightarrow> string \<Rightarrow> int \<Rightarrow> ('w sonda, bool) io" where
  "send_store_query env rest_address store_node encoded_pubsub_topic encoded_content_topic timestamp =
     io_bind (read_clock (clock env)) (\<lambda>s_time.
     io_bind (query_request env store_node
        (store_query_req rest_address store_node encoded_pubsub_topic encoded_content_topic timestamp))
       (\<lambda>answer. case answer of
          None \<Rightarrow> io_return False
        | Some response \<Rightarrow> finish_query env store_node timestamp s_time response))"

definition send_store_queries ::
    "'w sonda_env \<Rightarrow> string \<Rightarrow> string list \<Rightarrow> string \<Rightarrow> string \<Rightarrow> int \<Rightarrow> ('w sonda, unit) io" where
  "send_store_queries env rest_address store_nodes pubsub_topic content_topic timestamp =
     io_each (\<lambda>node. io_bind (send_store_query env rest_address node (quote [] pubsub_topic)
                        (quote [] content_topic) timestamp) (\<lambda>_. io_return ())) store_nodes"

subsection \<open>The main loop\<close>

text \<open>\<open>consecutive_successful_responses.labels(node=...)._value.get()\<close> as a function of the calls
  made so far is a parameter; these are the documented laws of a gauge.\<close>

type_synonym gauge_reader = "metric_call list \<Rightarrow> string \<Rightarrow> labels \<Rightarrow> rat"

definition gauge_laws :: "gauge_reader \<Rightarrow> bool" where
  "gauge_laws gv \<longleftrightarrow>
     (\<forall>g l. gv [] g l = 0) \<and>
     (\<forall>cs g l v. gv (cs @ [GaugeSet g l v]) g l = v) \<and>
     (\<forall>cs g l. gv (cs @ [GaugeInc g l]) g l = gv cs g l + 1) \<and>
     (\<forall>cs g l g' l' v. (g', l') \<noteq> (g, l) \<longrightarrow> gv (cs @ [GaugeSet g' l' v]) g l = gv cs g l) \<and>
     (\<forall>cs g l g' l'. (g', l') \<noteq> (g, l) \<longrightarrow> gv (cs @ [GaugeInc g' l']) g l = gv cs g l) \<and>
     (\<forall>cs g l c' l'. gv (cs @ [CounterInc c' l']) g l = gv cs g l)"

text \<open>\<open>time.sleep(n)\<close> refuses a negative number of seconds.\<close>

definition time_sleep :: "'w sonda_env \<Rightarrow> int \<Rightarrow> ('w, unit) io" where
  "time_sleep env n w =
     (if n < 0 then (Inl (Exn ValueError ''sleep length must be non-negative''), w) else (Inr (), sleep env n w))"

definition update_health :: "gauge_reader \<Rightarrow> int \<Rightarrow> string \<Rightarrow> ('w sonda, unit) io" where
  "update_health gv threshold store_node s =
     metric (GaugeSet ''node_health'' [(''node'', store_node)]
       (if gv (calls s) ''consecutive_successful_responses'' [(''node'', store_node)] \<ge> of_int threshold
        then 1 else 0)) s"

definition sonda_store_nodes :: "sonda_args \<Rightarrow> string list" where
  "sonda_store_nodes args = map strip (split_char CHR '','' (arg_store_nodes args))"

text \<open>One turn of \<open>while True\<close>.\<close>

definition sonda_round :: "'w sonda_env \<Rightarrow> gauge_reader \<Rightarrow> sonda_args \<Rightarrow> ('w sonda, unit) io" where
  "sonda_round env gv args =
     (let store_nodes = sonda_store_nodes args in
      io_bind (read_clock (clock_ns env)) (\<lambda>timestamp.
      io_bind (send_sonda_msg env (node_rest_address args) (arg_pubsub_topic args) SONDA_CONTENT_TOPIC timestamp)
        (\<lambda>res.
      io_bind (on_ext (time_sleep env (delay_seconds args))) (\<lambda>_.
      io_bind (if res then send_store_queries env (node_rest_address args) store_nodes
                        (arg_pubsub_topic args) SONDA_CONTENT_TOPIC timestamp
               else io_return ()) (\<lambda>_.
      io_each (update_health gv (health_threshold args)) store_nodes)))))"

text \<open>The first \<open>n\<close> turns of the endless loop; an exception ends the program.\<close>

fun sonda_main :: "nat \<Rightarrow> 'w sonda_env \<Rightarrow> gauge_reader \<Rightarrow> sonda_args \<Rightarrow> ('w sonda, unit) io" where
  "sonda_main 0 env gv args s = (Inr (), s)"
| "sonda_main (Suc n) env gv args s =
     io_bind (sonda_round env gv args) (\<lambda>_. sonda_main n env gv args) s"

section \<open>What a computation may add to the metric calls\<close>

text \<open>\<open>emits P m\<close>: running \<open>m\<close> only appends calls, all of which satisfy \<open>P\<close>.\<close>

definition emits :: "(metric_call \<Rightarrow> bool) \<Rightarrow> ('w sonda, 'a) io \<Rightarrow> bool" where
  "emits P m \<longleftrightarrow> (\<forall>s. \<exists>cs. calls (snd (m s)) = calls s @ cs \<and> list_all P cs)"

named_theorems emits_rules \<open>composition rules for \<open>emits\<close>\<close>

lemma emitsI: "(\<And>s. \<exists>cs. calls (snd (m s)) = calls s @ cs \<and> list_all P cs) \<Longrightarrow> emits P m"
  by (simp add: emits_def)

lemma emits_return [emits_rules]: "emits P (io_return a)"
  by (simp add: emits_def io_return_def)

lemma emits_raise [emits_rules]: "emits P (io_raise e)"
  by (simp add: emits_def io_raise_def)

lemma emits_lift [emits_rules]: "emits P (io_lift r)"
  by (simp add: emits_def io_lift_def)

lemma emits_metric [emits_rules]: "P c \<Longrightarrow> emits P (metric c)"
  by (simp add: emits_def metric_def)

lemma emits_on_ext [emits_rules]: "emits P (on_ext m)"
  by (simp add: emits_def on_ext_def split: prod.splits)

lemma emits_read_clock [emits_rules]: "emits P (read_clock c)"
  by (simp add: read_clock_def emits_on_ext)

lemma emits_bind [emits_rules]:
  assumes "emits P m" and "\<And>a. emits P (f a)"
  shows "emits P (io_bind m f)"
proof (rule emitsI)
  fix s
  obtain r s1 where m: "m s = (r, s1)" by fastforce
  from assms(1) obtain cs where cs: "calls s1 = calls s @ cs" "list_all P cs"
    unfolding emits_def by (metis m snd_conv)
  show "\<exists>cs. calls (snd (io_bind m f s)) = calls s @ cs \<and> list_all P cs"
  proof (cases r)
    case (Inl e)
    with m cs show ?thesis by (auto simp: io_bind_def)
  next
    case (Inr a)
    from assms(2) obtain ds where "calls (snd (f a s1)) = calls s1 @ ds" "list_all P ds"
      unfolding emits_def by metis
    with m cs Inr show ?thesis by (auto simp: io_bind_def)
  qed
qed

lemma emits_try [emits_rules]:
  assumes "emits P m" and "\<And>e. emits P (h e)"
  shows "emits P (io_try m h)"
proof (rule emitsI)
  fix s
  obtain r s1 where m: "m s = (r, s1)" by fastforce
  from assms(1) obtain cs where cs: "calls s1 = calls s @ cs" "list_all P cs"
    unfolding emits_def by (metis m snd_conv)
  show "\<exists>cs. calls (snd (io_try m h s)) = calls s @ cs \<and> list_all P cs"
  proof (cases r)
    case (Inr a)
    with m cs show ?thesis by (auto simp: io_try_def)
  next
    case (Inl e)
    from assms(2) obtain ds where "calls (snd (h e s1)) = calls s1 @ ds" "list_all P ds"
      unfolding emits_def by metis
    with m cs Inl show ?thesis by (auto simp: io_try_def)
  qed
qed

lemma io_each_Cons_bind: "io_each f (x # xs) = io_bind (f x) (\<lambda>_. io_each f xs)"
  by (rule ext) (simp add: io_bind_def split: prod.splits sum.splits)

lemma io_each_Nil_return: "io_each f [] = io_return ()"
  by (rule ext) (simp add: io_return_def)

lemma emits_each [emits_rules]: "(\<And>x. x \<in> set xs \<Longrightarrow> emits P (f x)) \<Longrightarrow> emits P (io_each f xs)"
  by (induction xs) (simp_all add: io_each_Nil_return io_each_Cons_bind emits_return emits_bind)

lemma emits_update_health [emits_rules]:
  "(\<And>v. P (GaugeSet ''node_health'' [(''node'', n)] v)) \<Longrightarrow> emits P (update_health gv t n)"
  by (simp add: emits_def update_health_def metric_def)

lemma emits_if [emits_rules]: "(b \<Longrightarrow> emits P m) \<Longrightarrow> (\<not> b \<Longrightarrow> emits P k) \<Longrightarrow> emits P (if b then m else k)"
  by simp

section \<open>Every label comes from a bounded set\<close>

definition node_series :: "string list \<Rightarrow> labels list" where
  "node_series nodes = map (\<lambda>n. [(''node'', n)]) nodes"

definition failure_series :: "string list \<Rightarrow> labels list" where
  "failure_series nodes =
     concat (map (\<lambda>n. map (\<lambda>e. [(''node'', n), (''error'', e)]) error_labels) ([] # nodes))"

fun bounded_call :: "string list \<Rightarrow> metric_call \<Rightarrow> bool" where
  "bounded_call nodes (CounterInc m l) =
     (if m = ''failed_store_queries'' then l \<in> set (failure_series nodes)
      else if m = ''successful_sonda_msgs'' \<or> m = ''failed_sonda_msgs'' then l = []
      else l \<in> set (node_series nodes))"
| "bounded_call nodes (GaugeInc m l) = (l \<in> set (node_series nodes))"
| "bounded_call nodes (GaugeSet m l v) = (l \<in> set (node_series nodes))"

lemma classify_bad_response_label: "classify_bad_response c \<in> set error_labels"
  by (simp add: classify_bad_response_def error_labels_def Let_def)

lemma status_error_label: "status_error v = Inr (Some e) \<Longrightarrow> e \<in> set error_labels"
  by (cases v) (auto simp: STORE_STATUS_ERRORS_def error_labels_def split: if_splits)

lemma classify_status_label: "classify_status c d = Inr (e, b) \<Longrightarrow> e \<in> set error_labels"
  by (auto simp: classify_status_def res_bind_Inr_iff classify_bad_response_label
      dest: status_error_label split: if_splits option.splits)
     (simp add: error_labels_def)

lemma emits_failure:
  assumes "n \<in> set nodes" and "e \<in> set error_labels"
  shows "emits (bounded_call nodes) (record_store_failure n e b)"
  using assms unfolding record_store_failure_def
  by (intro emits_rules) (auto simp: failure_series_def node_series_def)

lemma emits_empty: "n \<in> set nodes \<Longrightarrow> emits (bounded_call nodes) (record_empty_response n)"
  unfolding record_empty_response_def
  by (intro emits_rules) (auto simp: node_series_def)

lemma known_labels [simp]:
  "ERR_LOCAL_NODE_UNREACHABLE \<in> set error_labels" "ERR_UNKNOWN \<in> set error_labels"
  "ERR_STORE_BACKEND_ERROR \<in> set error_labels"
  by (simp_all add: error_labels_def)

lemma emits_bind_lift:
  "(\<And>a. r = Inr a \<Longrightarrow> emits P (f a)) \<Longrightarrow> emits P (io_bind (io_lift r) f)"
  by (cases r) (auto simp: emits_def io_bind_def io_lift_def)

lemma emits_check_store_response:
  assumes "n \<in> set nodes"
  shows "emits (bounded_call nodes) (check_store_response j n t)"
  using assms unfolding check_store_response_def
  by (auto intro!: emits_bind_lift emits_bind emits_return emits_metric emits_failure emits_empty
      simp: node_series_def split: prod.splits) (erule classify_status_label)

lemma emits_query_answer:
  assumes "n \<in> set nodes"
  shows "emits (bounded_call nodes) (query_answer r n t)"
  using assms unfolding query_answer_def
  by (auto intro!: emits_bind emits_return emits_raise emits_failure emits_check_store_response
      split: sum.splits)

lemma emits_send_store_query:
  assumes "n \<in> set nodes"
  shows "emits (bounded_call nodes) (send_store_query env a n p c t)"
proof -
  have "emits (bounded_call nodes) (query_request env n req)" for req
    using assms unfolding query_request_def
    by (auto intro!: emits_try emits_bind emits_return emits_raise emits_on_ext emits_failure)
  then show ?thesis
    using assms emits_query_answer unfolding send_store_query_def finish_query_def
    by (auto intro!: emits_bind emits_return emits_read_clock emits_metric
        simp: node_series_def split: option.splits)
qed

lemma emits_send_sonda_msg: "emits (bounded_call nodes) (send_sonda_msg env a p c t)"
  unfolding send_sonda_msg_def Let_def
  by (auto intro!: emits_bind emits_try emits_return emits_raise emits_on_ext emits_read_clock
      emits_metric split: option.splits)

lemma emits_round: "emits (bounded_call (sonda_store_nodes args)) (sonda_round env gv args)"
  unfolding sonda_round_def send_store_queries_def Let_def
  by (auto intro!: emits_bind emits_return emits_on_ext emits_read_clock emits_each emits_update_health
      emits_send_sonda_msg emits_send_store_query simp: node_series_def)

lemma sonda_main_Suc:
  "sonda_main (Suc n) env gv args = io_bind (sonda_round env gv args) (\<lambda>_. sonda_main n env gv args)"
  by (rule ext) simp

lemma emits_main: "emits (bounded_call (sonda_store_nodes args)) (sonda_main n env gv args)"
proof (induction n)
  case 0
  show ?case by (simp add: emits_def)
next
  case (Suc n)
  then show ?case by (simp add: sonda_main_Suc emits_bind emits_round)
qed

lemma length_failure_series: "length (failure_series nodes) = 5 * (length nodes + 1)"
  by (induction nodes) (simp_all add: failure_series_def error_labels_def)

section \<open>The streak of successful answers\<close>

text \<open>The queries of one node as its gauge saw them: a hit is counted, anything else resets.\<close>

definition hits :: "string \<Rightarrow> metric_call list \<Rightarrow> bool list" where
  "hits node cs =
     List.map_filter
       (\<lambda>c. if c = GaugeInc ''consecutive_successful_responses'' [(''node'', node)] then Some True
            else (case c of
                GaugeSet g l v \<Rightarrow>
                  if g = ''consecutive_successful_responses'' \<and> l = [(''node'', node)] then Some False else None
              | _ \<Rightarrow> None)) cs"

definition streak :: "bool list \<Rightarrow> nat" where
  "streak os = length (takeWhile id (rev os))"

text \<open>The gauge is only ever counted up or reset.\<close>

fun streak_call :: "metric_call \<Rightarrow> bool" where
  "streak_call (GaugeSet g l v) = (g = ''consecutive_successful_responses'' \<longrightarrow> v = 0)"
| "streak_call _ = True"

lemma map_filter_snoc: "List.map_filter f (xs @ [x]) = List.map_filter f xs @ (case f x of None \<Rightarrow> [] | Some y \<Rightarrow> [y])"
  by (simp add: List.map_filter_def split: option.splits)

lemma streak_snoc: "streak (os @ [b]) = (if b then Suc (streak os) else 0)"
  by (simp add: streak_def)

lemma gauge_reads_streak:
  assumes laws: "gauge_laws gv" and ok: "list_all streak_call cs"
  shows "gv cs ''consecutive_successful_responses'' [(''node'', node)] = of_nat (streak (hits node cs))"
  using ok
proof (induction cs rule: rev_induct)
  case Nil
  show ?case using laws by (simp add: gauge_laws_def hits_def streak_def map_filter_simps)
next
  case (snoc c cs)
  then show ?case
    using laws unfolding gauge_laws_def
    by (cases c) (auto simp: hits_def map_filter_snoc streak_snoc)
qed

lemma update_health_eq:
  "update_health gv t n s =
     (Inr (), s\<lparr>calls := calls s @ [GaugeSet ''node_health'' [(''node'', n)]
       (if gv (calls s) ''consecutive_successful_responses'' [(''node'', n)] \<ge> of_int t then 1 else 0)]\<rparr>)"
  by (simp add: update_health_def metric_def)

lemma health_each:
  assumes laws: "gauge_laws gv" and ok: "list_all streak_call (calls s)"
    and run: "io_each (update_health gv t) nodes s = (Inr (), s')"
  shows "list_all streak_call (calls s') \<and> hits node (calls s') = hits node (calls s) \<and>
    (node \<in> set nodes \<longrightarrow> gv (calls s') ''node_health'' [(''node'', node)] =
       (if int (streak (hits node (calls s'))) \<ge> t then 1 else 0))"
  using run
proof (induction nodes arbitrary: s' rule: rev_induct)
  case Nil
  with ok show ?case by simp
next
  case (snoc x xs)
  obtain s1 where s1: "io_each (update_health gv t) xs s = (Inr (), s1)"
      and s': "update_health gv t x s1 = (Inr (), s')"
    using snoc.prems by (auto simp: io_each_append split: prod.splits sum.splits)
  note IH = snoc.IH [OF s1]
  have read: "gv (calls s1) ''consecutive_successful_responses'' [(''node'', n)] = of_nat (streak (hits n (calls s1)))" for n
    using gauge_reads_streak [OF laws] IH by blast
  have hits': "hits n (calls s') = hits n (calls s1)" for n
    using s' by (auto simp: update_health_eq hits_def map_filter_snoc)
  have ok': "list_all streak_call (calls s')"
    using s' IH by (auto simp: update_health_eq)
  have set_law: "gv (cs @ [GaugeSet g l v]) g l = v"
    and other_law: "(g', l') \<noteq> (g, l) \<Longrightarrow> gv (cs @ [GaugeSet g' l' v]) g l = gv cs g l" for cs g l v g' l'
    using laws by (auto simp: gauge_laws_def)
  have "gv (calls s') ''node_health'' [(''node'', node)] =
      (if int (streak (hits node (calls s'))) \<ge> t then 1 else 0)" if "node \<in> set (xs @ [x])"
  proof (cases "node = x")
    case True
    have "(of_nat (streak (hits x (calls s1))) \<ge> (of_int t :: rat)) = (int (streak (hits x (calls s1))) \<ge> t)"
      by (metis of_int_le_iff of_int_of_nat_eq)
    with True show ?thesis
      using s' set_law [of "calls s1" "''node_health''" "[(''node'', x)]"]
      by (auto simp: update_health_eq read hits' [of x, symmetric])
  next
    case False
    then have "gv (calls s') ''node_health'' [(''node'', node)] = gv (calls s1) ''node_health'' [(''node'', node)]"
      using s' other_law [of "''node_health''" "[(''node'', x)]" "''node_health''" "[(''node'', node)]" "calls s1"]
      by (auto simp: update_health_eq)
    with False that IH hits' show ?thesis by auto
  qed
  with ok' hits' IH show ?case by simp
qed

lemma sonda_main_snoc:
  "sonda_main (Suc n) env gv args = io_bind (sonda_main n env gv args) (\<lambda>_. sonda_round env gv args)"
proof (induction n)
  case 0
  have "sonda_main 0 env gv args = io_return ()" by (rule ext) (simp add: io_return_def)
  then show ?case
    by (intro ext) (simp add: sonda_main_Suc io_bind_def io_return_def split: prod.splits sum.splits)
next
  case (Suc n)
  have "sonda_main (Suc (Suc n)) env gv args =
      io_bind (sonda_round env gv args) (\<lambda>_. io_bind (sonda_main n env gv args) (\<lambda>_. sonda_round env gv args))"
    by (subst sonda_main_Suc) (simp only: Suc.IH)
  then show ?case by (simp only: io_bind_assoc [symmetric] sonda_main_Suc [symmetric])
qed

lemma emits_send_store_query_streak: "emits streak_call (send_store_query env a n p c t)"
proof -
  have failure: "emits streak_call (record_store_failure n e b)"
    and empty: "emits streak_call (record_empty_response n)" for e b
    unfolding record_store_failure_def record_empty_response_def by (intro emits_rules; simp)+
  have "emits streak_call (query_request env n req)" for req
    unfolding query_request_def
    by (auto intro!: emits_try emits_bind emits_return emits_raise emits_on_ext failure)
  moreover have "emits streak_call (check_store_response j n t)" for j
    unfolding check_store_response_def
    by (auto intro!: emits_bind_lift emits_bind emits_return emits_metric failure empty split: prod.splits)
  then have "emits streak_call (query_answer r n t)" for r
    unfolding query_answer_def
    by (auto intro!: emits_bind emits_return emits_raise failure split: sum.splits)
  ultimately show ?thesis
    unfolding send_store_query_def finish_query_def
    by (auto intro!: emits_bind emits_return emits_read_clock emits_metric split: option.splits)
qed

lemma emits_send_sonda_msg_streak: "emits streak_call (send_sonda_msg env a p c t)"
  unfolding send_sonda_msg_def Let_def
  by (auto intro!: emits_bind emits_try emits_return emits_raise emits_on_ext emits_read_clock
      emits_metric split: option.splits)

lemma emits_round_streak: "emits streak_call (sonda_round env gv args)"
  unfolding sonda_round_def send_store_queries_def Let_def
  by (auto intro!: emits_bind emits_return emits_on_ext emits_read_clock emits_each emits_update_health
      emits_send_sonda_msg_streak emits_send_store_query_streak)

lemma emits_main_streak: "emits streak_call (sonda_main n env gv args)"
proof (induction n)
  case 0
  show ?case by (simp add: emits_def)
next
  case (Suc n)
  then show ?case by (simp add: sonda_main_Suc emits_bind emits_round_streak)
qed

lemma emits_keeps: "emits P m \<Longrightarrow> list_all P (calls s) \<Longrightarrow> list_all P (calls (snd (m s)))"
  unfolding emits_def by (metis list_all_append)

text \<open>The part of a round before the health update.\<close>

definition round_queries :: "'w sonda_env \<Rightarrow> sonda_args \<Rightarrow> ('w sonda, unit) io" where
  "round_queries env args =
      io_bind (read_clock (clock_ns env)) (\<lambda>timestamp.
      io_bind (send_sonda_msg env (node_rest_address args) (arg_pubsub_topic args) SONDA_CONTENT_TOPIC timestamp)
        (\<lambda>res.
      io_bind (on_ext (time_sleep env (delay_seconds args))) (\<lambda>_.
      if res then send_store_queries env (node_rest_address args) (sonda_store_nodes args)
                        (arg_pubsub_topic args) SONDA_CONTENT_TOPIC timestamp
      else io_return ())))"

lemma sonda_round_split:
  "sonda_round env gv args =
     io_bind (round_queries env args) (\<lambda>_. io_each (update_health gv (health_threshold args)) (sonda_store_nodes args))"
  by (simp add: sonda_round_def round_queries_def Let_def io_bind_assoc)

lemma emits_round_queries_streak: "emits streak_call (round_queries env args)"
  unfolding round_queries_def send_store_queries_def
  by (auto intro!: emits_bind emits_return emits_on_ext emits_read_clock emits_each
      emits_send_sonda_msg_streak emits_send_store_query_streak)

lemma io_bind_InrE:
  assumes "io_bind m f s = (Inr b, s')"
  obtains a s1 where "m s = (Inr a, s1)" "f a s1 = (Inr b, s')"
  using assms by (auto simp: io_bind_def split: prod.splits sum.splits)

section \<open>Properties\<close>

text \<open>C1: over any number of rounds, against any node and any store peer, every metric call of
  sonda carries a label of a set fixed by the configuration: the error label of
  \<open>failed_store_queries\<close> is one of the five constants and its node label a configured store
  node or empty, so that the metric never has more than five series per node label, the empty one included,
  whatever texts the servers answer with.\<close>

theorem sonda_labels_bounded:
  "\<exists>cs. calls (snd (sonda_main n env gv args s)) = calls s @ cs \<and>
     list_all (bounded_call (sonda_store_nodes args)) cs \<and>
     card {l. CounterInc ''failed_store_queries'' l \<in> set cs} \<le> 5 * (length (sonda_store_nodes args) + 1)"
proof -
  let ?nodes = "sonda_store_nodes args"
  obtain cs where cs: "calls (snd (sonda_main n env gv args s)) = calls s @ cs"
      and bounded: "list_all (bounded_call ?nodes) cs"
    using emits_main unfolding emits_def by metis
  have "{l. CounterInc ''failed_store_queries'' l \<in> set cs} \<subseteq> set (failure_series ?nodes)"
    using bounded by (fastforce simp: list_all_iff)
  then have "card {l. CounterInc ''failed_store_queries'' l \<in> set cs} \<le> card (set (failure_series ?nodes))"
    by (intro card_mono) simp_all
  also have "\<dots> \<le> 5 * (length ?nodes + 1)"
    by (metis card_length length_failure_series)
  finally show ?thesis using cs bounded by blast
qed

definition replay_gauge :: gauge_reader where
  "replay_gauge cs g l =
     foldl (\<lambda>v c. case c of
         GaugeSet g' l' x \<Rightarrow> if g' = g \<and> l' = l then x else v
       | GaugeInc g' l' \<Rightarrow> if g' = g \<and> l' = l then v + 1 else v
       | CounterInc _ _ \<Rightarrow> v) 0 cs"

lemma replay_gauge_laws: "gauge_laws replay_gauge"
  by (auto simp: gauge_laws_def replay_gauge_def)

text \<open>A node that accepts every message and a store that returns the message of time 7.\<close>

definition demo_env :: "unit sonda_env" where
  "demo_env =
     \<lparr>http = (\<lambda>req w. (Inr \<lparr>status_code = 200, resp_text = [],
          resp_json = Inr (PDict [(''statusCode'', PInt 200),
            (''messages'', PList [PDict [(''message'', PDict [(''timestamp'', PInt 7)])]])]),
          raise_for_status = None\<rparr>, w)),
      clock = (\<lambda>w. (0, w)), clock_ns = (\<lambda>w. (7, w)), sleep = (\<lambda>_ w. w)\<rparr>"

definition demo_args :: sonda_args where
  "demo_args = (parser_defaults ''/dns4/a'')\<lparr>health_threshold := 1\<rparr>"

lemmas sonda_eval =
  sonda_round_def send_sonda_msg_def send_store_queries_def send_store_query_def finish_query_def query_request_def
  query_answer_def check_store_response_def store_query_req_def read_clock_def on_ext_def metric_def
  record_store_failure_def record_empty_response_def update_health_eq time_sleep_def Let_def

lemma demo_nodes: "sonda_store_nodes demo_args = [''/dns4/a'']"
  by (simp add: sonda_store_nodes_def demo_args_def parser_defaults_def strip_def lstrip_def rstrip_def is_space_def)

lemma demo_run:
  "sonda_main (Suc 0) demo_env replay_gauge demo_args \<lparr>calls = [], ext = ()\<rparr> =
     (Inr (), \<lparr>calls = [CounterInc ''successful_sonda_msgs'' [],
        CounterInc ''successful_store_queries'' [(''node'', ''/dns4/a'')],
        GaugeInc ''consecutive_successful_responses'' [(''node'', ''/dns4/a'')],
        GaugeSet ''store_query_latency'' [(''node'', ''/dns4/a'')] 0,
        GaugeSet ''node_health'' [(''node'', ''/dns4/a'')] 1], ext = ()\<rparr>)"
  by (simp add: sonda_eval demo_nodes io_defs demo_env_def replay_gauge_def)
     (simp add: demo_args_def parser_defaults_def)

lemma demo_threshold: "health_threshold demo_args = 1"
  by (simp add: demo_args_def)

lemma record_store_failure_eq:
  "record_store_failure n e b s = (Inr (), s\<lparr>calls := calls s @
     [CounterInc ''failed_store_queries'' [(''node'', if b then n else []), (''error'', e)],
      GaugeSet ''consecutive_successful_responses'' [(''node'', n)] 0]\<rparr>)"
  by (simp add: record_store_failure_def io_bind_def metric_def)

lemma record_empty_response_eq:
  "record_empty_response n s = (Inr (), s\<lparr>calls := calls s @
     [CounterInc ''empty_store_responses'' [(''node'', n)],
      GaugeSet ''consecutive_successful_responses'' [(''node'', n)] 0]\<rparr>)"
  by (simp add: record_empty_response_def io_bind_def metric_def)

text \<open>The calls of a failed query, of a hit and of an answer without the message.\<close>

definition failed_calls :: "string \<Rightarrow> labels \<Rightarrow> metric_call list" where
  "failed_calls n l = [CounterInc ''failed_store_queries'' l,
     GaugeSet ''consecutive_successful_responses'' [(''node'', n)] 0]"

definition hit_calls :: "string \<Rightarrow> metric_call list" where
  "hit_calls n = [CounterInc ''successful_store_queries'' [(''node'', n)],
     GaugeInc ''consecutive_successful_responses'' [(''node'', n)]]"

definition empty_calls :: "string \<Rightarrow> metric_call list" where
  "empty_calls n = [CounterInc ''empty_store_responses'' [(''node'', n)],
     GaugeSet ''consecutive_successful_responses'' [(''node'', n)] 0]"

lemma check_store_response_shape:
  assumes "check_store_response j n t s = (Inr good, s')"
  shows "\<exists>cs. calls s' = calls s @ cs \<and>
    (\<not> good \<and> (\<exists>l. cs = failed_calls n l) \<or> good \<and> cs = hit_calls n \<or> good \<and> cs = empty_calls n)"
  using assms
  by (auto simp: check_store_response_def io_defs metric_def record_store_failure_eq
      record_empty_response_eq failed_calls_def hit_calls_def empty_calls_def
      split: prod.splits sum.splits if_splits)

lemma query_answer_shape:
  assumes "query_answer r n t s = (Inr good, s')"
  shows "\<exists>cs. calls s' = calls s @ cs \<and>
    (\<not> good \<and> (\<exists>l. cs = failed_calls n l) \<or> good \<and> cs = hit_calls n \<or> good \<and> cs = empty_calls n)"
  using assms check_store_response_shape [of _ n t s good s']
  by (auto simp: query_answer_def io_defs record_store_failure_eq failed_calls_def
      split: sum.splits if_splits)

lemma query_request_shape:
  assumes "query_request env n req s = (Inr r, s')"
  shows "case r of
      Some _ \<Rightarrow> calls s' = calls s
    | None \<Rightarrow> \<exists>l. calls s' = calls s @ failed_calls n l"
  using assms
  by (auto simp: query_request_def io_defs on_ext_def record_store_failure_eq failed_calls_def
      split: prod.splits sum.splits if_splits)

lemma read_clock_calls: "read_clock c s = (r, s') \<Longrightarrow> calls s' = calls s"
  by (auto simp: read_clock_def on_ext_def split: prod.splits)

text \<open>C3: a store query that completes records exactly one outcome. It returns false exactly when
  it counted a failure, and then it reset the streak of the node and set no latency; it returns
  true when the store answered, and then it counted either a hit, which extends the streak, or an
  empty response, which resets it, and it set the latency.\<close>

theorem store_query_outcome:
  assumes "send_store_query env a n p c t s = (Inr good, s')"
  shows "\<exists>cs. calls s' = calls s @ cs \<and>
    (\<not> good \<and> (\<exists>l. cs = failed_calls n l) \<or>
     good \<and> (\<exists>v. cs = hit_calls n @ [GaugeSet ''store_query_latency'' [(''node'', n)] v]) \<or>
     good \<and> (\<exists>v. cs = empty_calls n @ [GaugeSet ''store_query_latency'' [(''node'', n)] v]))"
proof -
  from assms obtain t0 s0 answer s1 where s0: "read_clock (clock env) s = (Inr t0, s0)"
    and s1: "query_request env n (store_query_req a n p c t) s0 = (Inr answer, s1)"
    and k: "(case answer of None \<Rightarrow> io_return False | Some r \<Rightarrow> finish_query env n t t0 r) s1 = (Inr good, s')"
    unfolding send_store_query_def by (auto elim!: io_bind_InrE)
  note start = read_clock_calls [OF s0] and req = query_request_shape [OF s1]
  show ?thesis
  proof (cases answer)
    case None
    with k req start show ?thesis by (auto simp: io_return_def)
  next
    case (Some r)
    with k obtain t1 s2 g s3 where s2: "read_clock (clock env) s1 = (Inr t1, s2)"
      and ans: "query_answer r n t s2 = (Inr g, s3)"
      and last: "(if \<not> g then io_return False
              else io_bind (metric (GaugeSet ''store_query_latency'' [(''node'', n)] (t1 - t0)))
                     (\<lambda>_. io_return True)) s3 = (Inr good, s')"
      by (auto simp: finish_query_def elim!: io_bind_InrE)
    have "calls s2 = calls s"
      using req read_clock_calls [OF s2] start Some by simp
    with query_answer_shape [OF ans] last show ?thesis
      by (cases g) (auto simp: io_defs metric_def)
  qed
qed

theorem store_query_outcome_witness:
  "\<exists>s'. send_store_query demo_env ''http://n'' ''/dns4/a'' [] [] 7 \<lparr>calls = [], ext = ()\<rparr> = (Inr True, s') \<and>
     calls s' \<noteq> []"
proof -
  have run: "send_store_query demo_env ''http://n'' ''/dns4/a'' [] [] 7 \<lparr>calls = [], ext = ()\<rparr> =
     (Inr True, \<lparr>calls = hit_calls ''/dns4/a'' @ [GaugeSet ''store_query_latency'' [(''node'', ''/dns4/a'')] 0],
       ext = ()\<rparr>)"
    by (simp add: sonda_eval io_defs demo_env_def hit_calls_def)
  with store_query_outcome [OF run] show ?thesis by (auto simp: hit_calls_def empty_calls_def)
qed

lemma status_error_known:
  "status_error v = Inr (Some e) \<Longrightarrow> eq_int v 504 \<or> eq_int v 503 \<or> eq_int v 429"
  by (cases v) (auto simp: STORE_STATUS_ERRORS_def split: if_splits)

lemma classify_status_blame:
  "classify_status code desc = Inr (e, True) \<Longrightarrow>
     eq_int code 300 \<or> eq_int code 504 \<or> eq_int code 503 \<or> eq_int code 429"
  by (auto simp: classify_status_def res_bind_Inr_iff dest: status_error_known split: if_splits option.splits)

text \<open>The call that blames a peer for a failure.\<close>

abbreviation blame_call :: "string \<Rightarrow> string \<Rightarrow> metric_call" where
  "blame_call n e \<equiv> CounterInc ''failed_store_queries'' [(''node'', n), (''error'', e)]"

lemma check_store_response_blame:
  assumes "n \<noteq> []" and "check_store_response j n t s = (r, s')" and "calls s' = calls s @ cs"
    and "blame_call n e \<in> set cs"
  shows "\<exists>sc. py_get ''statusCode'' j = Inr sc \<and>
    (eq_int sc 300 \<or> eq_int sc 504 \<or> eq_int sc 503 \<or> eq_int sc 429)"
  using assms
  by (auto simp: check_store_response_def io_defs metric_def record_store_failure_eq record_empty_response_eq
      dest!: classify_status_blame split: prod.splits sum.splits if_splits)

text \<open>The world a query's request goes to: the clock has been read before it.\<close>

abbreviation query_world :: "'w sonda_env \<Rightarrow> 'w sonda \<Rightarrow> 'w" where
  "query_world env s \<equiv> snd (clock env (ext s))"

lemma send_store_query_eq:
  assumes "http env (store_query_req a n p c t) (query_world env s) = (Inr resp, w1)"
  shows "send_store_query env a n p c t s =
    finish_query env n t (fst (clock env (ext s))) resp (s\<lparr>ext := w1\<rparr>)"
  using assms
  by (cases "clock env (ext s)")
     (simp add: send_store_query_def query_request_def io_defs read_clock_def on_ext_def)

lemma send_store_query_raises:
  assumes "http env (store_query_req a n p c t) (query_world env s) = (Inl e, w1)"
  shows "send_store_query env a n p c t s =
    (if isa e RequestException
     then (Inr False, s\<lparr>calls := calls s @ failed_calls n [(''node'', []), (''error'', ERR_LOCAL_NODE_UNREACHABLE)], ext := w1\<rparr>)
     else if isa e Exception
     then (Inr False, s\<lparr>calls := calls s @ failed_calls n [(''node'', []), (''error'', ERR_UNKNOWN)], ext := w1\<rparr>)
     else (Inl e, s\<lparr>ext := w1\<rparr>))"
  using assms
  by (cases "clock env (ext s)")
     (simp add: send_store_query_def query_request_def io_defs read_clock_def on_ext_def
       record_store_failure_eq failed_calls_def)

lemma query_answer_blame:
  assumes "n \<noteq> []" and "query_answer resp n t s = (r, s')" and "calls s' = calls s @ cs"
    and "blame_call n e \<in> set cs"
  shows "status_code resp = 429 \<or> status_code resp = 200 \<and>
    (\<exists>j sc. resp_json resp = Inr j \<and> py_get ''statusCode'' j = Inr sc \<and>
      (eq_int sc 300 \<or> eq_int sc 504 \<or> eq_int sc 503 \<or> eq_int sc 429))"
  using assms check_store_response_blame [OF assms(1)]
  by (fastforce simp: query_answer_def io_defs record_store_failure_eq split: sum.splits if_splits)

lemma finish_query_blame:
  assumes "n \<noteq> []" and "finish_query env n t t0 resp s = (r, s')" and "calls s' = calls s @ cs"
    and "blame_call n e \<in> set cs"
  shows "status_code resp = 429 \<or> status_code resp = 200 \<and>
    (\<exists>j sc. resp_json resp = Inr j \<and> py_get ''statusCode'' j = Inr sc \<and>
      (eq_int sc 300 \<or> eq_int sc 504 \<or> eq_int sc 503 \<or> eq_int sc 429))"
proof -
  obtain t1 s1 where s1: "read_clock (clock env) s = (Inr t1, s1)"
    by (cases "clock env (ext s)") (simp add: read_clock_def on_ext_def)
  obtain r1 s2 where s2: "query_answer resp n t s1 = (r1, s2)" by fastforce
  have "calls s1 = calls s" using s1 by (rule read_clock_calls)
  moreover obtain cs1 where cs1: "calls s2 = calls s1 @ cs1"
    using emits_query_answer [of n "[n]" resp t] s2 unfolding emits_def by (metis list.set_intros(1) snd_conv)
  moreover have "calls s' = calls s2 \<or> (\<exists>v. calls s' = calls s2 @ [GaugeSet ''store_query_latency'' [(''node'', n)] v])"
    using assms(2) s1 s2 by (cases r1) (auto simp: finish_query_def io_defs metric_def split: if_splits)
  ultimately have "blame_call n e \<in> set cs1" using assms(3,4) by auto
  with query_answer_blame [OF assms(1) s2 cs1] show ?thesis by blast
qed

text \<open>C4: a store peer is blamed in \<open>failed_store_queries\<close> only when its answer came back: the
  local node replied 429 for it, or replied 200 with a store status that speaks of the peer (300,
  504, 503 or 429). A failure of the local node, of the network to it or of sonda itself never
  carries the peer's label.\<close>

theorem peer_blamed_only_when_it_answered:
  assumes "n \<noteq> []" and "send_store_query env a n p c t s = (r, s')" and "calls s' = calls s @ cs"
    and "blame_call n e \<in> set cs"
  shows "\<exists>resp w1. http env (store_query_req a n p c t) (query_world env s) = (Inr resp, w1) \<and>
    (status_code resp = 429 \<or> status_code resp = 200 \<and>
      (\<exists>j sc. resp_json resp = Inr j \<and> py_get ''statusCode'' j = Inr sc \<and>
        (eq_int sc 300 \<or> eq_int sc 504 \<or> eq_int sc 503 \<or> eq_int sc 429)))"
proof -
  obtain o1 w1 where h: "http env (store_query_req a n p c t) (query_world env s) = (o1, w1)" by fastforce
  show ?thesis
  proof (cases o1)
    case (Inl x)
    with send_store_query_raises [of env a n p c t s x w1] h assms show ?thesis
      by (auto simp: failed_calls_def split: if_splits)
  next
    case (Inr resp)
    with h assms(2) have "finish_query env n t (fst (clock env (ext s))) resp (s\<lparr>ext := w1\<rparr>) = (r, s')"
      by (simp add: send_store_query_eq)
    from finish_query_blame [OF assms(1) this _ assms(4)] assms(3) h Inr show ?thesis by simp
  qed
qed

definition overloaded_env :: "unit sonda_env" where
  "overloaded_env = demo_env\<lparr>http := (\<lambda>req w. (Inr \<lparr>status_code = 429, resp_text = ''busy'',
      resp_json = Inl (Exn JSONDecodeError ''no json''), raise_for_status = None\<rparr>, w))\<rparr>"

theorem peer_blamed_only_when_it_answered_witness:
  "\<exists>resp w1. http overloaded_env (store_query_req [] ''/dns4/a'' [] [] 7) () = (Inr resp, w1) \<and> status_code resp = 429"
proof -
  let ?s = "\<lparr>calls = [], ext = ()\<rparr>"
  let ?cs = "failed_calls ''/dns4/a'' [(''node'', ''/dns4/a''), (''error'', ERR_STORE_BACKEND_ERROR)]"
  have run: "send_store_query overloaded_env [] ''/dns4/a'' [] [] 7 ?s = (Inr False, \<lparr>calls = ?cs, ext = ()\<rparr>)"
    by (simp add: sonda_eval io_defs overloaded_env_def demo_env_def failed_calls_def)
  have "blame_call ''/dns4/a'' ERR_STORE_BACKEND_ERROR \<in> set ?cs" by (simp add: failed_calls_def)
  with peer_blamed_only_when_it_answered [OF _ run, of ?cs ERR_STORE_BACKEND_ERROR] show ?thesis
    by (auto simp: overloaded_env_def)
qed

text \<open>publishing reports success exactly when the node answered 200, and it moves exactly one
  of the two message counters, as long as the HTTP client raises only its own exceptions and
  \<open>raise_for_status\<close> behaves as documented.\<close>

theorem publish_counts_once:
  assumes "http env (sonda_msg_req a p c t) (query_world env s) = (r, w1)"
    and "case r of Inl e \<Rightarrow> isa e RequestException | Inr resp \<Rightarrow> status_contract resp"
  shows "\<exists>s'. send_sonda_msg env a p c t s =
        (Inr (case r of Inl _ \<Rightarrow> False | Inr resp \<Rightarrow> status_code resp = 200), s') \<and>
      calls s' = calls s @ [CounterInc (case r of
          Inl _ \<Rightarrow> ''failed_sonda_msgs''
        | Inr resp \<Rightarrow> if status_code resp = 200 then ''successful_sonda_msgs'' else ''failed_sonda_msgs'') []]"
  using assms
  by (cases "clock env (ext s)"; cases "clock env w1"; cases r)
     (auto simp: send_sonda_msg_def Let_def io_defs read_clock_def on_ext_def metric_def
       status_contract_def isa_def split: option.splits)

theorem publish_counts_once_witness:
  "\<exists>s'. send_sonda_msg demo_env [] [] [] 7 \<lparr>calls = [], ext = ()\<rparr> = (Inr True, s') \<and>
     calls s' = [CounterInc ''successful_sonda_msgs'' []]"
  using publish_counts_once [of demo_env "[]" "[]" "[]" 7 "\<lparr>calls = [], ext = ()\<rparr>" "fst (http demo_env (sonda_msg_req [] [] [] 7) ())" "()"]
  by (simp add: demo_env_def status_contract_def)

text \<open>C5: an answer with HTTP status 200 whose JSON body is not an object escapes the error
  handling: \<open>send_store_query\<close> raises \<open>AttributeError\<close> and no metric records the query, so the
  exception leaves the main loop.\<close>

theorem malformed_body_escapes:
  assumes "http env (store_query_req a n p c t) (query_world env s) = (Inr resp, w1)"
    and "status_code resp = 200" and "resp_json resp = Inr (PList xs)"
  shows "\<exists>m s'. send_store_query env a n p c t s = (Inl (Exn AttributeError m), s') \<and> calls s' = calls s"
  using assms
  by (cases "clock env w1")
     (auto simp: send_store_query_eq finish_query_def query_answer_def check_store_response_def io_defs
       read_clock_def on_ext_def)

definition array_env :: "unit sonda_env" where
  "array_env = demo_env\<lparr>http := (\<lambda>req w. (Inr \<lparr>status_code = 200, resp_text = ''[]'',
      resp_json = Inr (PList []), raise_for_status = None\<rparr>, w))\<rparr>"

theorem malformed_body_escapes_witness:
  "\<exists>m s'. send_store_query array_env [] ''/dns4/a'' [] [] 7 \<lparr>calls = [], ext = ()\<rparr> = (Inl (Exn AttributeError m), s')"
  using malformed_body_escapes [of array_env "[]" "''/dns4/a''" "[]" "[]" 7 "\<lparr>calls = [], ext = ()\<rparr>" _ "()" "[]"]
  by (auto simp: array_env_def)

section \<open>The health of a node and what its store answered\<close>

text \<open>The exchanges with the local node: the requests that were made, each with its response or the exception it raised.
  \<open>keeps_trace env trace\<close>: the world keeps them in order, where \<open>trace\<close> reads them; clocks and sleeping are no exchanges.\<close>

type_synonym exchange = "http_req \<times> http_response res"

definition keeps_trace :: "'w sonda_env \<Rightarrow> ('w \<Rightarrow> exchange list) \<Rightarrow> bool" where
  "keeps_trace env trace \<longleftrightarrow>
     (\<forall>req w. trace (snd (http env req w)) = trace w @ [(req, fst (http env req w))]) \<and>
     (\<forall>w. trace (snd (clock env w)) = trace w) \<and> (\<forall>w. trace (snd (clock_ns env w)) = trace w) \<and>
     (\<forall>n w. trace (sleep env n w) = trace w)"

text \<open>Any environment can be made to keep them.\<close>

definition recorded :: "'w sonda_env \<Rightarrow> ('w \<times> exchange list) sonda_env" where
  "recorded env =
     \<lparr>http = (\<lambda>req (w, xs). case http env req w of (r, w') \<Rightarrow> (r, (w', xs @ [(req, r)]))),
      clock = (\<lambda>(w, xs). case clock env w of (t, w') \<Rightarrow> (t, (w', xs))),
      clock_ns = (\<lambda>(w, xs). case clock_ns env w of (t, w') \<Rightarrow> (t, (w', xs))),
      sleep = (\<lambda>n (w, xs). (sleep env n w, xs))\<rparr>"

lemma recorded_keeps_trace: "keeps_trace (recorded env) snd"
  by (auto simp: keeps_trace_def recorded_def split: prod.splits)

text \<open>A stored message with the given timestamp, and an answer that has one: HTTP status 200 with an object of store
  status 200 whose list of messages contains it.\<close>

fun carries :: "int \<Rightarrow> pyval \<Rightarrow> bool" where
  "carries t (PDict d) =
     (case map_of d ''message'' of
        Some (PDict inner) \<Rightarrow> (case map_of inner ''timestamp'' of Some v \<Rightarrow> eq_int v t | None \<Rightarrow> False)
      | _ \<Rightarrow> False)"
| "carries t _ = False"

fun lists_message :: "int \<Rightarrow> pyval \<Rightarrow> bool" where
  "lists_message t (PDict d) =
     ((case map_of d ''statusCode'' of Some v \<Rightarrow> eq_int v 200 | None \<Rightarrow> False) \<and>
      (case map_of d ''messages'' of Some (PList ms) \<Rightarrow> list_ex (carries t) ms | _ \<Rightarrow> False))"
| "lists_message t _ = False"

fun holds_message :: "int \<Rightarrow> http_response res \<Rightarrow> bool" where
  "holds_message t (Inr r) =
     (status_code r = 200 \<and> (case resp_json r of Inr body \<Rightarrow> lists_message t body | Inl _ \<Rightarrow> False))"
| "holds_message t (Inl e) = False"

text \<open>The history of one store node, read off the exchanges: a \<open>POST\<close> publishes a message with a timestamp; every later
  request that names the node as its \<open>peerAddr\<close> finds the message of the last publication or does not.\<close>

definition published :: "http_req \<Rightarrow> int \<Rightarrow> int" where
  "published req t =
     (case req_json req of
        Some (PDict d) \<Rightarrow> (case map_of d ''timestamp'' of Some (PInt i) \<Rightarrow> i | _ \<Rightarrow> t)
      | _ \<Rightarrow> t)"

definition asks :: "string \<Rightarrow> http_req \<Rightarrow> bool" where
  "asks node req \<longleftrightarrow> (case map_of (req_params req) ''peerAddr'' of Some (PStr a) \<Rightarrow> unquote a = node | _ \<Rightarrow> False)"

fun found :: "string \<Rightarrow> int \<Rightarrow> exchange list \<Rightarrow> bool list" where
  "found node t [] = []"
| "found node t ((req, r) # xs) =
     (if req_method req = ''POST'' then found node (published req t) xs
      else (if asks node req then [holds_message t r] else []) @ found node t xs)"

definition last_published :: "int \<Rightarrow> exchange list \<Rightarrow> int" where
  "last_published t xs = foldl (\<lambda>t (req, r). if req_method req = ''POST'' then published req t else t) t xs"

lemma found_append: "found node t (xs @ ys) = found node t xs @ found node (last_published t xs) ys"
  by (induction node t xs rule: found.induct) (auto simp: last_published_def)

lemma last_published_append: "last_published t (xs @ ys) = last_published (last_published t xs) ys"
  by (simp add: last_published_def)

lemma requests_read:
  "req_method (sonda_msg_req a p c t) = ''POST''" "published (sonda_msg_req a p c t) t0 = t"
  "req_method (store_query_req a n p c t) = ''GET''" "asks node (store_query_req a n p c t) \<longleftrightarrow> n = node"
  by (simp_all add: sonda_msg_req_def sonda_body_def published_def store_query_req_def asks_def unquote_quote)

text \<open>What the search loop of \<open>check_store_response\<close> finds.\<close>

lemma find_timestamp_carries: "find_timestamp t ms = Inr b \<Longrightarrow> b = list_ex (carries t) ms"
proof (induction ms)
  case (Cons m ms)
  from Cons.prems obtain d where m: "m = PDict d" by (cases m) auto
  let ?inner = "case map_of d ''message'' of None \<Rightarrow> PNone | Some v \<Rightarrow> v"
  show ?case
  proof (cases "truthy ?inner")
    case False
    then have "\<not> carries t m" using m by (auto split: option.splits pyval.splits)
    with Cons False m show ?thesis by simp
  next
    case True
    then obtain i where i: "?inner = PDict i" using Cons.prems m by (cases ?inner) (auto simp: res_bind_Inr_iff)
    then have "map_of d ''message'' = Some (PDict i)" by (auto split: option.splits)
    then show ?thesis using Cons True m by (auto split: if_splits option.splits)
  qed
qed simp

lemma iterated_list:
  assumes "py_iter v = Inr xs" "truthy v" "find_timestamp t xs = Inr b"
  shows "v = PList xs"
  using assms
proof (cases v)
  case (PStr s)
  then have "chars_of s \<noteq> []" using assms(2) concat_chars_of [of s] by auto
  then show ?thesis using PStr assms by (cases "chars_of s") auto
next
  case (PDict d)
  then show ?thesis using assms by (cases d) auto
qed auto

text \<open>The hits a list of metric calls adds.\<close>

lemma hits_append: "hits x (cs @ ds) = hits x cs @ hits x ds"
  by (simp add: hits_def List.map_filter_def)

lemma hits_calls:
  "hits x (failed_calls n l) = (if x = n then [False] else [])"
  "hits x (hit_calls n) = (if x = n then [True] else [])"
  "hits x (empty_calls n) = (if x = n then [False] else [])"
  "hits x [GaugeSet ''store_query_latency'' l v] = []" "hits x [CounterInc c l] = []"
  by (auto simp: hits_def failed_calls_def hit_calls_def empty_calls_def map_filter_simps)

text \<open>The answer of a store node is counted as a hit exactly when it has the message.\<close>

lemma check_store_response_hits:
  assumes "check_store_response j n t s = (Inr good, s')"
  shows "ext s' = ext s \<and> hits x (calls s') = hits x (calls s) @ (if x = n then [lists_message t j] else [])"
proof -
  from assms obtain d where j: "j = PDict d" by (cases j) (auto simp: check_store_response_def io_defs)
  let ?code = "case map_of d ''statusCode'' of None \<Rightarrow> PNone | Some v \<Rightarrow> v"
  let ?ms = "case map_of d ''messages'' of None \<Rightarrow> PNone | Some v \<Rightarrow> v"
  have code: "eq_int ?code 200 \<longleftrightarrow> (case map_of d ''statusCode'' of Some v \<Rightarrow> eq_int v 200 | None \<Rightarrow> False)"
    by (simp split: option.splits)
  consider (bad) l where "\<not> eq_int ?code 200" "s' = s\<lparr>calls := calls s @ failed_calls n l\<rparr>"
    | (none) "eq_int ?code 200" "\<not> truthy ?ms" "s' = s\<lparr>calls := calls s @ empty_calls n\<rparr>"
    | (some) xs b where "eq_int ?code 200" "truthy ?ms" "py_iter ?ms = Inr xs" "find_timestamp t xs = Inr b"
        "s' = s\<lparr>calls := calls s @ (if b then hit_calls n else empty_calls n)\<rparr>"
    using assms j
    by (auto simp: check_store_response_def io_defs metric_def record_store_failure_eq record_empty_response_eq
        failed_calls_def hit_calls_def empty_calls_def res_bind_Inr_iff split: prod.splits sum.splits if_splits)
  then show ?thesis
  proof cases
    case bad
    then show ?thesis using j code by (simp add: hits_append hits_calls)
  next
    case none
    then have "\<not> lists_message t j" using j by (auto split: option.splits pyval.splits)
    then show ?thesis using none by (simp add: hits_append hits_calls)
  next
    case some
    then have "?ms = PList xs" by (intro iterated_list)
    then have "map_of d ''messages'' = Some (PList xs)" by (auto split: option.splits)
    then have "lists_message t j = b" using j code some(1) find_timestamp_carries [OF some(4)] by simp
    then show ?thesis using some by (simp add: hits_append hits_calls)
  qed
qed

lemma query_answer_hits:
  assumes "query_answer r n t s = (Inr good, s')"
  shows "ext s' = ext s \<and> hits x (calls s') = hits x (calls s) @ (if x = n then [holds_message t (Inr r)] else [])"
  using assms check_store_response_hits [of _ n t s good s' x]
  by (auto simp: query_answer_def io_defs record_store_failure_eq hits_append split: sum.splits if_splits)
    (auto simp: hits_def map_filter_simps)

lemma read_clock_log:
  "(\<And>w. trace (snd (c w)) = trace w) \<Longrightarrow> read_clock c s = (r, s') \<Longrightarrow> trace (ext s') = trace (ext s) \<and> calls s' = calls s"
  by (auto simp: read_clock_def on_ext_def split: prod.splits) (metis snd_conv)

lemma send_store_query_found:
  assumes "keeps_trace env trace" "send_store_query env a n p c t s = (Inr good, s')"
  shows "\<exists>r. trace (ext s') = trace (ext s) @ [(store_query_req a n p c t, r)] \<and>
    hits x (calls s') = hits x (calls s) @ (if x = n then [holds_message t r] else [])"
proof -
  let ?q = "store_query_req a n p c t"
  obtain r w1 where h: "http env ?q (query_world env s) = (r, w1)" by fastforce
  have w1: "trace w1 = trace (ext s) @ [(?q, r)]"
    using assms(1) h unfolding keeps_trace_def by (metis fst_conv snd_conv)
  have clock: "trace (snd (clock env w)) = trace w" for w using assms(1) by (simp add: keeps_trace_def)
  show ?thesis
  proof (cases r)
    case (Inl e)
    with send_store_query_raises [of env a n p c t s e w1] h assms(2) w1 show ?thesis
      by (intro exI [of _ r]) (auto simp: hits_append hits_calls split: if_splits)
  next
    case (Inr resp)
    with h assms(2) have "finish_query env n t (fst (clock env (ext s))) resp (s\<lparr>ext := w1\<rparr>) = (Inr good, s')"
      by (simp add: send_store_query_eq)
    then obtain t1 s2 g s3 where s2: "read_clock (clock env) (s\<lparr>ext := w1\<rparr>) = (Inr t1, s2)"
      and ans: "query_answer resp n t s2 = (Inr g, s3)"
      and last: "(if \<not> g then io_return False
              else io_bind (metric (GaugeSet ''store_query_latency'' [(''node'', n)] (t1 - fst (clock env (ext s)))))
                     (\<lambda>_. io_return True)) s3 = (Inr good, s')"
      by (auto simp: finish_query_def elim!: io_bind_InrE)
    have "ext s' = ext s3" "hits x (calls s') = hits x (calls s3)"
      using last by (auto simp: io_defs metric_def hits_append hits_calls split: if_splits)
    then show ?thesis
      using query_answer_hits [OF ans, of x] read_clock_log [of trace, OF clock s2] w1 Inr by (intro exI [of _ r]) simp
  qed
qed

lemma send_store_queries_found:
  assumes "keeps_trace env trace" "send_store_queries env a nodes p c t s = (Inr (), s')"
    and "last_published t0 (trace (ext s)) = t" "hits x (calls s) = found x t0 (trace (ext s))"
  shows "hits x (calls s') = found x t0 (trace (ext s'))"
  using assms(2-4) unfolding send_store_queries_def
proof (induction nodes arbitrary: s)
  case (Cons n nodes)
  let ?f = "\<lambda>node. io_bind (send_store_query env a node (quote [] p) (quote [] c) t) (\<lambda>_. io_return ())"
  from Cons.prems(1) obtain u s1 where "?f n s = (Inr u, s1)" and rest: "io_each ?f nodes s1 = (Inr (), s')"
    unfolding io_each_Cons_bind by (rule io_bind_InrE)
  then obtain good where q: "send_store_query env a n (quote [] p) (quote [] c) t s = (Inr good, s1)"
    by (elim io_bind_InrE) (simp add: io_return_def)
  from send_store_query_found [OF assms(1) q, of x] obtain r where
    r: "trace (ext s1) = trace (ext s) @ [(store_query_req a n (quote [] p) (quote [] c) t, r)]"
      "hits x (calls s1) = hits x (calls s) @ (if x = n then [holds_message t r] else [])" by blast
  show ?case
  proof (rule Cons.IH [OF rest])
    show "last_published t0 (trace (ext s1)) = t"
      using r(1) Cons.prems(2) by (simp add: last_published_append) (simp add: last_published_def requests_read)
    show "hits x (calls s1) = found x t0 (trace (ext s1))"
      using r Cons.prems(2,3) by (auto simp: found_append requests_read)
  qed
qed simp

lemma send_sonda_msg_found:
  assumes "keeps_trace env trace" "send_sonda_msg env a p c t s = (Inr sent, s')"
  shows "\<exists>r. trace (ext s') = trace (ext s) @ [(sonda_msg_req a p c t, r)] \<and> hits x (calls s') = hits x (calls s)"
proof -
  let ?q = "sonda_msg_req a p c t"
  obtain r w1 where h: "http env ?q (query_world env s) = (r, w1)" by fastforce
  have w1: "trace w1 = trace (ext s) @ [(?q, r)]"
    using assms(1) h unfolding keeps_trace_def by (metis fst_conv snd_conv)
  obtain t1 w2 where w2: "clock env w1 = (t1, w2)" by fastforce
  have "trace w2 = trace w1" using assms(1) w2 unfolding keeps_trace_def by (metis snd_conv)
  with w1 w2 h assms(2) show ?thesis
    by (cases "clock env (ext s)"; cases r)
      (auto simp: send_sonda_msg_def Let_def io_defs read_clock_def on_ext_def metric_def hits_append hits_calls
        split: if_splits option.splits)
qed

lemma round_queries_found:
  assumes "keeps_trace env trace" "round_queries env args s = (Inr (), s')"
    and "hits x (calls s) = found x t0 (trace (ext s))"
  shows "hits x (calls s') = found x t0 (trace (ext s'))"
proof -
  from assms(2) obtain t s1 sent s2 s3 where s1: "read_clock (clock_ns env) s = (Inr t, s1)"
    and s2: "send_sonda_msg env (node_rest_address args) (arg_pubsub_topic args) SONDA_CONTENT_TOPIC t s1 = (Inr sent, s2)"
    and s3: "on_ext (time_sleep env (delay_seconds args)) s2 = (Inr (), s3)"
    and q: "(if sent then send_store_queries env (node_rest_address args) (sonda_store_nodes args)
        (arg_pubsub_topic args) SONDA_CONTENT_TOPIC t else io_return ()) s3 = (Inr (), s')"
    unfolding round_queries_def by (auto elim!: io_bind_InrE)
  have "trace (ext s1) = trace (ext s) \<and> calls s1 = calls s"
    using assms(1) by (intro read_clock_log [OF _ s1]) (simp add: keeps_trace_def)
  moreover obtain r where "trace (ext s2) =
      trace (ext s1) @ [(sonda_msg_req (node_rest_address args) (arg_pubsub_topic args) SONDA_CONTENT_TOPIC t, r)]"
    "hits x (calls s2) = hits x (calls s1)"
    using send_sonda_msg_found [OF assms(1) s2] by blast
  moreover have "trace (ext s3) = trace (ext s2) \<and> calls s3 = calls s2"
    using s3 assms(1) by (auto simp: on_ext_def time_sleep_def keeps_trace_def split: if_splits)
  ultimately have "hits x (calls s3) = found x t0 (trace (ext s3))" "last_published t0 (trace (ext s3)) = t"
    using assms(3) by (simp_all add: found_append last_published_append requests_read)
      (simp add: last_published_def requests_read)
  then show ?thesis
    using q send_store_queries_found [OF assms(1)] by (cases sent) (auto simp: io_return_def)
qed

lemma health_ext: "io_each (update_health gv t) nodes s = (r, s') \<Longrightarrow> ext s' = ext s"
  by (induction nodes arbitrary: s) (auto simp: update_health_eq)

lemma sonda_round_found:
  assumes "gauge_laws gv" "keeps_trace env trace" "sonda_round env gv args s = (Inr (), s')"
    and "list_all streak_call (calls s)" "hits x (calls s) = found x t0 (trace (ext s))"
  shows "list_all streak_call (calls s') \<and> hits x (calls s') = found x t0 (trace (ext s')) \<and>
    (x \<in> set (sonda_store_nodes args) \<longrightarrow> gv (calls s') ''node_health'' [(''node'', x)] =
       (if int (streak (hits x (calls s'))) \<ge> health_threshold args then 1 else 0))"
proof -
  from assms(3) obtain s2 where s2: "round_queries env args s = (Inr (), s2)"
      and each: "io_each (update_health gv (health_threshold args)) (sonda_store_nodes args) s2 = (Inr (), s')"
    unfolding sonda_round_split by (auto elim: io_bind_InrE)
  have "list_all streak_call (calls s2)"
    using emits_keeps [OF emits_round_queries_streak assms(4), of env args] s2 by simp
  from health_each [OF assms(1) this each, of x] show ?thesis
    using round_queries_found [OF assms(2) s2 assms(5)] health_ext [OF each] by simp
qed

lemma sonda_main_found:
  assumes "gauge_laws gv" "keeps_trace env trace" "sonda_main n env gv args s = (Inr (), s')"
    and "list_all streak_call (calls s)" "hits x (calls s) = found x t0 (trace (ext s))"
  shows "list_all streak_call (calls s') \<and> hits x (calls s') = found x t0 (trace (ext s'))"
  using assms(3-5)
proof (induction n arbitrary: s)
  case (Suc n)
  from Suc.prems(1) obtain s1 where "sonda_round env gv args s = (Inr (), s1)" "sonda_main n env gv args s1 = (Inr (), s')"
    by (auto elim: io_bind_InrE)
  then show ?case using Suc.IH [of s1] sonda_round_found [OF assms(1,2) _ Suc.prems(2,3)] by blast
qed simp

text \<open>C2: the health indicator a round leaves for a configured store node is 1 exactly when the last queries of that
  node, as many as the threshold says, were all answered with the message that had been published before them. The
  answers are those of the exchanges with the local node in every round since the start: one counts when it has HTTP
  status 200, store status 200 and a message with the published timestamp in its list.\<close>

theorem sonda_health_is_streak:
  assumes "gauge_laws gv" "keeps_trace env trace" and "calls s = []" "trace (ext s) = []"
    and "sonda_main (Suc n) env gv args s = (Inr (), s')"
    and "node \<in> set (sonda_store_nodes args)"
  shows "gv (calls s') ''node_health'' [(''node'', node)] =
     (if int (streak (found node 0 (trace (ext s')))) \<ge> health_threshold args then 1 else 0)"
proof -
  from assms(5) obtain s1 where s1: "sonda_main n env gv args s = (Inr (), s1)"
      and r: "sonda_round env gv args s1 = (Inr (), s')"
    unfolding sonda_main_snoc by (auto elim: io_bind_InrE)
  have "hits node (calls s) = found node 0 (trace (ext s))" using assms(3,4) by (simp add: hits_def map_filter_simps)
  then have "list_all streak_call (calls s1) \<and> hits node (calls s1) = found node 0 (trace (ext s1))"
    using sonda_main_found [OF assms(1,2) s1] assms(3) by simp
  from sonda_round_found [OF assms(1,2) r] this assms(6) show ?thesis by metis
qed

lemma recorded_run:
  "\<exists>s'. sonda_main (Suc 0) (recorded demo_env) replay_gauge demo_args \<lparr>calls = [], ext = ((), [])\<rparr> = (Inr (), s') \<and>
     found ''/dns4/a'' 0 (snd (ext s')) = [True]"
  by (simp add: sonda_eval demo_nodes io_defs demo_env_def recorded_def)
    (simp add: demo_args_def parser_defaults_def sonda_msg_req_def sonda_body_def published_def asks_def unquote_quote)

theorem sonda_health_is_streak_witness:
  "\<exists>s'. sonda_main (Suc 0) (recorded demo_env) replay_gauge demo_args \<lparr>calls = [], ext = ((), [])\<rparr> = (Inr (), s') \<and>
     replay_gauge (calls s') ''node_health'' [(''node'', ''/dns4/a'')] = 1"
proof -
  obtain s' where run: "sonda_main (Suc 0) (recorded demo_env) replay_gauge demo_args \<lparr>calls = [], ext = ((), [])\<rparr> = (Inr (), s')"
    and f: "found ''/dns4/a'' 0 (snd (ext s')) = [True]" using recorded_run by blast
  have "''/dns4/a'' \<in> set (sonda_store_nodes demo_args)" by (simp add: demo_nodes)
  from sonda_health_is_streak [OF replay_gauge_laws recorded_keeps_trace _ _ run this] f run show ?thesis
    by (simp add: demo_threshold streak_def)
qed

end
