(* ===== verification/Py_Regex.thy ===== *)
theory Py_Regex
  imports Py_Prelude
begin

text \<open>
  The part of Python's \<open>re\<close> module that the sources use: a backtracking matcher. A pattern is a
  value of type \<open>rx\<close>; \<open>rmatch\<close> returns the ways it matches at a position, in the order in which
  Python's engine tries them, so the head of the list is the match that \<open>re\<close> reports. A way is
  the end position and the capture groups. \<open>search\<close>, \<open>finditer\<close>, \<open>findall\<close> and \<open>sub\<close> are
  built on it. Character classes are those of ASCII text.
\<close>

section \<open>Definitions\<close>

type_synonym caps = "(nat \<times> (nat \<times> nat)) list"

datatype rx =
    Eps
  | Chr "char \<Rightarrow> bool"
  | Seq rx rx
  | Alt rx rx
  | Star bool rx          \<comment> \<open>greedy (True) or lazy (False) repetition\<close>
  | Grp nat rx            \<comment> \<open>capture group\<close>
  | LineStart             \<comment> \<open>\<open>^\<close> with \<open>re.M\<close>\<close>
  | TextStart             \<comment> \<open>\<open>^\<close> without \<open>re.M\<close>\<close>
  | Dollar                \<comment> \<open>\<open>$\<close> without \<open>re.M\<close>: the end, or before a final newline\<close>
  | TextEnd               \<comment> \<open>\<open>\Z\<close>\<close>
  | WordB                 \<comment> \<open>\<open>\b\<close>\<close>
  | Ahead rx              \<comment> \<open>\<open>(?=...)\<close>\<close>

definition is_word :: "char \<Rightarrow> bool" where
  "is_word c \<longleftrightarrow> is_alpha c \<or> is_digit c \<or> c = CHR ''_''"

text \<open>One step of a repetition must consume something, so the length of the text is enough fuel.\<close>

fun star_match ::
    "bool \<Rightarrow> (nat \<Rightarrow> caps \<Rightarrow> (nat \<times> caps) list) \<Rightarrow> nat \<Rightarrow> nat \<Rightarrow> caps \<Rightarrow> (nat \<times> caps) list" where
  "star_match greedy f 0 p c = [(p, c)]"
| "star_match greedy f (Suc n) p c =
     (let more = concat (map (\<lambda>(q, d). if p < q then star_match greedy f n q d else []) (f p c))
      in if greedy then more @ [(p, c)] else (p, c) # more)"

definition word_at :: "string \<Rightarrow> nat \<Rightarrow> bool" where
  "word_at s p \<longleftrightarrow> p < length s \<and> is_word (s ! p)"

primrec rmatch :: "rx \<Rightarrow> string \<Rightarrow> nat \<Rightarrow> caps \<Rightarrow> (nat \<times> caps) list" where
  "rmatch Eps s p c = [(p, c)]"
| "rmatch (Chr f) s p c = (if p < length s \<and> f (s ! p) then [(Suc p, c)] else [])"
| "rmatch (Seq a b) s p c = concat (map (\<lambda>(q, d). rmatch b s q d) (rmatch a s p c))"
| "rmatch (Alt a b) s p c = rmatch a s p c @ rmatch b s p c"
| "rmatch (Star g a) s p c = star_match g (rmatch a s) (length s - p) p c"
| "rmatch (Grp k a) s p c = map (\<lambda>(q, d). (q, AList.update k (p, q) d)) (rmatch a s p c)"
| "rmatch LineStart s p c = (if p = 0 \<or> p \<le> length s \<and> s ! (p - 1) = newline then [(p, c)] else [])"
| "rmatch TextStart s p c = (if p = 0 then [(p, c)] else [])"
| "rmatch Dollar s p c =
     (if p = length s \<or> Suc p = length s \<and> s ! p = newline then [(p, c)] else [])"
| "rmatch TextEnd s p c = (if p = length s then [(p, c)] else [])"
| "rmatch WordB s p c =
     (if (0 < p \<and> word_at s (p - 1)) \<noteq> word_at s p then [(p, c)] else [])"
| "rmatch (Ahead a) s p c = (if rmatch a s p c = [] then [] else [(p, c)])"

text \<open>Sugar for patterns: a literal text, a class, \<open>r+\<close>, \<open>r?\<close>, and sequences and
  alternatives of several patterns.\<close>

definition rchr :: "char \<Rightarrow> rx" where
  "rchr c = Chr (\<lambda>x. x = c)"

definition rset :: "string \<Rightarrow> rx" where
  "rset cs = Chr (\<lambda>x. x \<in> set cs)"

definition rnot :: "string \<Rightarrow> rx" where
  "rnot cs = Chr (\<lambda>x. x \<notin> set cs)"

fun rseq :: "rx list \<Rightarrow> rx" where
  "rseq [] = Eps"
| "rseq [r] = r"
| "rseq (r # rs) = Seq r (rseq rs)"

fun ralt :: "rx list \<Rightarrow> rx" where
  "ralt [] = Chr (\<lambda>_. False)"
| "ralt [r] = r"
| "ralt (r # rs) = Alt r (ralt rs)"

definition rlit :: "string \<Rightarrow> rx" where
  "rlit s = rseq (map rchr s)"

text \<open>A literal under \<open>(?i)\<close>.\<close>

definition rliti :: "string \<Rightarrow> rx" where
  "rliti s = rseq (map (\<lambda>c. Chr (\<lambda>x. lower_char x = lower_char c)) s)"

definition rstar :: "rx \<Rightarrow> rx" where "rstar r = Star True r"
definition rplus :: "rx \<Rightarrow> rx" where "rplus r = Seq r (Star True r)"
definition rplus_lazy :: "rx \<Rightarrow> rx" where "rplus_lazy r = Seq r (Star False r)"
definition ropt :: "rx \<Rightarrow> rx" where "ropt r = Alt r Eps"

definition rspace :: rx where "rspace = Chr is_space"
definition rword :: rx where "rword = Chr is_word"
definition rdigit :: rx where "rdigit = Chr is_digit"
definition rdot :: rx where "rdot = Chr (\<lambda>c. c \<noteq> newline)"
definition rany :: rx where "rany = Chr (\<lambda>_. True)"

record rmatch_result =
  m_start :: nat
  m_end :: nat
  m_caps :: caps

text \<open>\<open>pattern.match(s)\<close>, at the start of the text.\<close>

definition match_at :: "rx \<Rightarrow> string \<Rightarrow> nat \<Rightarrow> rmatch_result option" where
  "match_at r s p =
     (case rmatch r s p [] of [] \<Rightarrow> None | (q, c) # _ \<Rightarrow> Some \<lparr>m_start = p, m_end = q, m_caps = c\<rparr>)"

definition re_match :: "rx \<Rightarrow> string \<Rightarrow> rmatch_result option" where
  "re_match r s = match_at r s 0"

text \<open>\<open>search\<close>: the leftmost position with a match, from \<open>p\<close> on; \<open>n\<close> positions are left.\<close>

fun search_from :: "rx \<Rightarrow> string \<Rightarrow> nat \<Rightarrow> nat \<Rightarrow> rmatch_result option" where
  "search_from r s 0 p = match_at r s p"
| "search_from r s (Suc n) p =
     (case match_at r s p of Some m \<Rightarrow> Some m | None \<Rightarrow> search_from r s n (Suc p))"

definition re_search_from :: "rx \<Rightarrow> string \<Rightarrow> nat \<Rightarrow> rmatch_result option" where
  "re_search_from r s p = (if p \<le> length s then search_from r s (length s - p) p else None)"

definition re_search :: "rx \<Rightarrow> string \<Rightarrow> rmatch_result option" where
  "re_search r s = re_search_from r s 0"

text \<open>\<open>finditer\<close>: non-overlapping matches from left to right.\<close>

fun finditer_from :: "nat \<Rightarrow> rx \<Rightarrow> string \<Rightarrow> nat \<Rightarrow> rmatch_result list" where
  "finditer_from 0 r s p = []"
| "finditer_from (Suc n) r s p =
     (case re_search_from r s p of
        None \<Rightarrow> []
      | Some m \<Rightarrow> m # finditer_from n r s (if m_start m < m_end m then m_end m else Suc (m_end m)))"

definition finditer :: "rx \<Rightarrow> string \<Rightarrow> rmatch_result list" where
  "finditer r s = finditer_from (Suc (length s)) r s 0"

definition slice :: "string \<Rightarrow> nat \<Rightarrow> nat \<Rightarrow> string" where
  "slice s a b = take (b - a) (drop a s)"

text \<open>\<open>m.group(k)\<close>; group 0 is the whole match. A group that took no part is the empty text (Python
  has \<open>None\<close> there; the patterns of the sources have no such group).\<close>

definition group :: "string \<Rightarrow> rmatch_result \<Rightarrow> nat \<Rightarrow> string" where
  "group s m k =
     (if k = 0 then slice s (m_start m) (m_end m)
      else (case map_of (m_caps m) k of None \<Rightarrow> [] | Some (a, b) \<Rightarrow> slice s a b))"

text \<open>\<open>findall\<close> for a pattern with one group.\<close>

definition findall1 :: "rx \<Rightarrow> string \<Rightarrow> string list" where
  "findall1 r s = map (\<lambda>m. group s m 1) (finditer r s)"

text \<open>\<open>re.sub(r, t, s)\<close> for a plain replacement text.\<close>

fun sub_pieces :: "string \<Rightarrow> nat \<Rightarrow> rmatch_result list \<Rightarrow> string \<Rightarrow> string" where
  "sub_pieces s p [] t = drop p s"
| "sub_pieces s p (m # ms) t = slice s p (m_start m) @ t @ sub_pieces s (m_end m) ms t"

definition re_sub :: "rx \<Rightarrow> string \<Rightarrow> string \<Rightarrow> string" where
  "re_sub r t s = sub_pieces s 0 (finditer r s) t"

lemmas rx_sugar = rchr_def rset_def rnot_def rlit_def rliti_def rstar_def rplus_def rplus_lazy_def
  ropt_def rspace_def rword_def rdigit_def rdot_def rany_def

section \<open>Lemmas\<close>

lemma rmatch_rlit: "rmatch (rlit t) s p c = (if startswith (drop p s) t \<and> p \<le> length s \<or> t = [] then [(p + length t, c)] else [])"
proof (induction t arbitrary: p)
  case Nil
  show ?case by (simp add: rlit_def)
next
  case (Cons x t)
  note IH = Cons.IH
  show ?case
  proof (cases "p < length s \<and> s ! p = x")
    case True
    then have d: "drop p s = x # drop (Suc p) s" using Cons_nth_drop_Suc [of p s] by simp
    show ?thesis
    proof (cases t)
      case Nil
      with True d show ?thesis by (simp add: rlit_def rchr_def)
    next
      case (Cons y t')
      then have "rmatch (rlit (x # t)) s p c = rmatch (rlit t) s (Suc p) c"
        using True by (simp add: rlit_def rchr_def)
      then show ?thesis using IH [of "Suc p"] True d Cons by simp
    qed
  next
    case False
    then have "rmatch (rlit (x # t)) s p c = []"
      by (cases t) (auto simp: rlit_def rchr_def)
    moreover have "\<not> startswith (drop p s) (x # t)"
      using False by (cases "drop p s") (auto simp: nth_via_drop dest: arg_cong [where f = length])
    ultimately show ?thesis by simp
  qed
qed

end
