(* ===== verification/Metric_Labels.thy ===== *)
theory Metric_Labels
  imports Py_Regex "HOL-Library.Char_ord" "HOL-Library.List_Lexorder" "HOL-Library.Product_Lexorder"
begin

text \<open>
  \<open>scripts/check_metric_labels.py\<close>, the linter that refuses Prometheus label values which may
  take unboundedly many values. The Nim sources it scans are a dict from relative path to text;
  the regular expressions are patterns of \<open>Py_Regex\<close>, in the order of the source; the allowlist
  file is its text, or absent. \<open>main\<close> returns its exit code, the allowlist it leaves and the
  lines it prints.
\<close>

section \<open>Patterns\<close>

definition WAIVER :: string where
  "WAIVER = ''bounded-label:''"

definition STR_RE :: rx where
  "STR_RE = ralt [rseq [rchr quote_mark, rstar (rnot [quote_mark, backslash]), rchr quote_mark],
               rseq [rchr (CHR ''r''), rchr quote_mark, rstar (rnot [quote_mark]), rchr quote_mark]]"

definition LITERAL_RE :: rx where
  "LITERAL_RE =
     rseq [TextStart,
           ralt [STR_RE, rseq [rlit ''if '', rplus_lazy rdot, rlit '': '', STR_RE, rlit '' else: '', STR_RE]],
           Dollar]"

definition IDENT_RE :: rx where
  "IDENT_RE = rseq [TextStart, Chr (\<lambda>c. is_alpha c \<or> c = CHR ''_''), rstar rword, Dollar]"

definition CALL_RE :: rx where
  "CALL_RE =
     rseq [Grp 1 (rplus rword), rstar rspace, rchr (CHR ''.''), rstar rspace,
           ralt (map rlit [''inc'', ''dec'', ''set'', ''observe'']), rstar rspace, rchr (CHR ''('')]"

definition DECL_RE :: rx where
  "DECL_RE =
     rseq [rlit ''declare'', ropt (rlit ''Public''),
           ralt (map rlit [''Counter'', ''Gauge'', ''Histogram'', ''Summary'']),
           rplus rspace, Grp 1 (rplus rword), rstar rspace, rchr (CHR '',''), Grp 2 (Star False rany),
           Ahead (ralt [rseq [rchr newline, Chr (\<lambda>c. \<not> is_space c)], TextEnd])]"

definition blank :: rx where
  "blank = rset [CHR '' '', char_of (9 :: nat)]"

definition CONST_ITEM_RE :: rx where
  "CONST_ITEM_RE =
     rseq [LineStart, rplus blank, Grp 1 (rplus rword), ropt (rchr (CHR ''*'')), rstar rspace,
           rchr (CHR ''=''), rstar rspace, STR_RE]"

definition CONST_ONE_RE :: rx where
  "CONST_ONE_RE =
     rseq [LineStart, rlit ''const'', rplus rspace, Grp 1 (rplus rword), ropt (rchr (CHR ''*'')),
           rstar rspace, rchr (CHR ''=''), rstar rspace, STR_RE]"

definition CONST_BLOCK_RE :: rx where
  "CONST_BLOCK_RE =
     rseq [LineStart, rlit ''const'', rstar rspace, rchr newline,
           Grp 1 (rplus (rseq [rplus blank, rstar rdot, ropt (rchr newline)]))]"

text \<open>A word under \<open>(?i)\<close> between word boundaries.\<close>

definition word_i :: "string \<Rightarrow> rx" where
  "word_i w = rseq [WordB, rliti w, WordB]"

definition TAINT_RE :: rx where
  "TAINT_RE =
     ralt [word_i ''error'', rseq [WordB, rliti ''err'', rstar rword, WordB],
           rseq [rliti ''.msg'', WordB], word_i ''msg'', rliti ''getCurrentExceptionMsg'', rliti ''peerid'',
           word_i ''peer'', rseq [WordB, rliti ''addr'', ropt (rliti ''s''), WordB], rliti ''multiaddr'',
           word_i ''ip'', word_i ''hash'', word_i ''agent'', rlit ''.$'', word_i ''diagnostic'']"

definition BOUND_RHS_TAINT :: rx where
  "BOUND_RHS_TAINT =
     ralt [rlit ''&'', rlit ''getCurrentExceptionMsg'', rseq [rlit ''.error'', WordB],
           rseq [rlit ''.msg'', WordB], rseq [WordB, rlit ''error'', WordB]]"

definition BAD_LABEL_NAME :: rx where
  "BAD_LABEL_NAME =
     ralt [rseq [rliti ''peer'', ropt (rlit ''_''), rliti ''id''], rliti ''addr'', rliti ''ip'', rliti ''hash'',
           rliti ''msg'', rliti ''message'', rseq [rliti ''error'', ropt (rlit ''_''), rliti ''msg''], rliti ''url'',
           rliti ''path'', rseq [rliti ''id'', Dollar]]"

definition LABEL_VALUES_RE :: rx where
  "LABEL_VALUES_RE =
     rseq [TextStart, rlit ''labelValues'', rstar rspace, rchr (CHR ''=''), rstar rspace, rchr (CHR ''[''),
           Grp 1 (rstar rany), rchr (CHR '']''), Dollar]"

definition LABELS_RE :: rx where
  "LABELS_RE =
     rseq [ropt (rseq [rlit ''labels'', rstar rspace, rchr (CHR ''=''), rstar rspace]), rchr (CHR ''[''),
           Grp 1 (rstar (rnot ''[]'')), rchr (CHR '']''), rstar rspace, Dollar]"

definition QUOTED_RE :: rx where
  "QUOTED_RE = rseq [rchr quote_mark, Grp 1 (rstar (rnot [quote_mark])), rchr quote_mark]"

definition COMMENT_RE :: rx where
  "COMMENT_RE =
     rseq [blank, rchr (CHR ''#''), rstar (rnot [newline, quote_mark]), Ahead (ralt [rchr newline, Dollar])]"

text \<open>\<open>\b(?:let|var)\s+ident\b[^=\n]*=\s*(.*)\<close>\<close>

definition BINDING_RE :: "string \<Rightarrow> rx" where
  "BINDING_RE ident =
     rseq [WordB, ralt [rlit ''let'', rlit ''var''], rplus rspace, rlit ident, WordB,
           rstar (rnot [CHR ''='', newline]), rchr (CHR ''=''), rstar rspace, Grp 1 (rstar rdot)]"

section \<open>Scanning\<close>

type_synonym texts = "(string, string) dict"

definition string_consts :: "texts \<Rightarrow> string set" where
  "string_consts ts =
     (\<Union>text \<in> snd ` set ts.
        set (findall1 CONST_ONE_RE text) \<union>
        (\<Union>m \<in> set (finditer CONST_BLOCK_RE text). set (findall1 CONST_ITEM_RE (group text m 1))))"

definition opens :: "char \<Rightarrow> bool" where "opens c \<longleftrightarrow> c \<in> set ''([{''"
definition closes :: "char \<Rightarrow> bool" where "closes c \<longleftrightarrow> c \<in> set '')]}''"

text \<open>The loop of \<open>balanced\<close>: how many characters it reads until the depth is back at 0.\<close>

fun balanced_len :: "nat \<Rightarrow> string \<Rightarrow> nat" where
  "balanced_len 0 s = 0"
| "balanced_len (Suc d) [] = 0"
| "balanced_len (Suc d) (c # cs) =
     Suc (balanced_len (if opens c then Suc (Suc d) else if closes c then d else Suc d) cs)"

definition balanced :: "string \<Rightarrow> nat \<Rightarrow> string" where
  "balanced text i = (let rest = drop i text in take (balanced_len 1 rest - 1) rest)"

text \<open>The loop of \<open>split_top\<close>: the raw pieces; \<open>cur\<close> is the current one, reversed.\<close>

fun split_top_raw :: "int \<Rightarrow> bool \<Rightarrow> string \<Rightarrow> string \<Rightarrow> string list" where
  "split_top_raw depth instr cur [] = [rev cur]"
| "split_top_raw depth instr cur (c # cs) =
     (let instr' = (if c = quote_mark then \<not> instr else instr) in
      if instr' then split_top_raw depth instr' (c # cur) cs
      else (let depth' = depth + (if opens c then 1 else 0) - (if closes c then 1 else 0) in
            if c = CHR '','' \<and> depth' = 0 then rev cur # split_top_raw depth' instr' [] cs
            else split_top_raw depth' instr' (c # cur) cs))"

definition split_top :: "string \<Rightarrow> string list" where
  "split_top s = map (\<lambda>a. join '' '' (split_ws a)) (filter (\<lambda>a. strip a \<noteq> []) (split_top_raw 0 False [] s))"

fun label_values_arg :: "string list \<Rightarrow> string list option" where
  "label_values_arg [] = None"
| "label_values_arg (a # as) =
     (case re_match LABEL_VALUES_RE a of
        Some m \<Rightarrow> Some (split_top (group a m 1))
      | None \<Rightarrow> label_values_arg as)"

definition label_list :: "string \<Rightarrow> string list option" where
  "label_list args =
     (let parts = split_top args in
      case label_values_arg parts of
        Some ls \<Rightarrow> Some ls
      | None \<Rightarrow>
          if 2 \<le> length parts \<and> startswith (last parts) ''['' \<and> endswith (last parts) '']''
          then Some (split_top (butlast (tl (last parts))))
          else None)"

type_synonym decls = "(string, string \<times> string list) dict"

definition declaration_of :: "string \<Rightarrow> string \<Rightarrow> rmatch_result \<Rightarrow> (string \<times> string \<times> string list) option" where
  "declaration_of rel text m =
     (let tail = group text m 2; t = strip tail in
      case re_search LABELS_RE t of
        None \<Rightarrow> None
      | Some lm \<Rightarrow>
          if quote_mark \<in> set (group t lm 1) \<and> \<not> str_in ''buckets'' (hd (split_char (CHR ''['') tail))
          then Some (group text m 1, rel, findall1 QUOTED_RE (group t lm 1))
          else None)"

definition declarations :: "texts \<Rightarrow> decls" where
  "declarations ts =
     dict_update [] (concat (map (\<lambda>(rel, text).
       List.map_filter (declaration_of rel text) (finditer DECL_RE text)) ts))"

text \<open>\<open>window.rfind("\n", 0, p) + 1\<close>: where the line of position \<open>p\<close> starts.\<close>

definition line_start :: "string \<Rightarrow> nat \<Rightarrow> nat" where
  "line_start s p = p - length (takeWhile (\<lambda>c. c \<noteq> newline) (rev (take p s)))"

text \<open>The continuation lines of a binding: deeper lines are joined, blank lines skipped.\<close>

fun continue_rhs :: "nat \<Rightarrow> string \<Rightarrow> string list \<Rightarrow> string" where
  "continue_rhs indent rhs [] = rhs"
| "continue_rhs indent rhs (line # ls) =
     (if strip line = [] then continue_rhs indent rhs ls
      else if length line - length (lstrip line) > indent then continue_rhs indent (rhs @ '' '' @ strip line) ls
      else rhs)"

text \<open>The last 4000 characters before a position.\<close>

definition window_before :: "string \<Rightarrow> nat \<Rightarrow> string" where
  "window_before text pos = (let cs = chars_of (take pos text) in concat (drop (length cs - 4000) cs))"

definition tainted_binding :: "string \<Rightarrow> nat \<Rightarrow> string \<Rightarrow> bool" where
  "tainted_binding text pos ident =
     (let window = window_before text pos in
      case rev (finditer (BINDING_RE ident) window) of
        [] \<Rightarrow> False
      | m # _ \<Rightarrow>
          let indent = length (chars_of (slice window (line_start window (m_start m)) (m_start m)));
              rhs = continue_rhs indent (group window m 1) (tl (split_char newline (drop (m_end m) window)))
          in re_search BOUND_RHS_TAINT (re_sub STR_RE [quote_mark, quote_mark] rhs) \<noteq> None)"

section \<open>Analysis\<close>

datatype kind = Tainted | Unbounded | Arity | Name | Stale

record finding =
  kind :: kind
  location :: string
  detail :: string
  allowlist_key :: "string option"

text \<open>\<open>lines[i]\<close>; the line of a match always exists.\<close>

definition line_at :: "string list \<Rightarrow> nat \<Rightarrow> string" where
  "line_at lines i = (if i < length lines then lines ! i else [])"

definition is_waived :: "string \<Rightarrow> string list \<Rightarrow> nat \<Rightarrow> bool" where
  "is_waived raw lines call_line \<longleftrightarrow>
     str_in WAIVER raw \<or> str_in WAIVER (line_at lines call_line) \<or>
     0 < call_line \<and> str_in WAIVER (line_at lines (call_line - 1))"

definition in_backticks :: "string \<Rightarrow> string" where
  "in_backticks s = CHR 0x60 # s @ [CHR 0x60]"

definition repr_list :: "string list \<Rightarrow> string" where
  "repr_list xs = ''['' @ join '', '' (map repr_str xs) @ '']''"

definition arity_findings :: "decls \<Rightarrow> string \<Rightarrow> string \<Rightarrow> string list \<Rightarrow> bool \<Rightarrow> finding list" where
  "arity_findings decls name loc labels waived =
     (case map_of decls name of
        None \<Rightarrow> []
      | Some (_, declared) \<Rightarrow>
          if length declared \<noteq> length labels \<and> \<not> waived
          then [\<lparr>kind = Arity, location = loc,
                 detail = in_backticks name @ '' declares '' @ str_nat (length declared) @ '' label(s) '' @
                   repr_list declared @ '', call passes '' @ str_nat (length labels), allowlist_key = None\<rparr>]
          else [])"

text \<open>A label value that needs no finding.\<close>

definition bounded_label :: "string set \<Rightarrow> string \<Rightarrow> bool" where
  "bounded_label consts expr \<longleftrightarrow>
     re_match LITERAL_RE expr \<noteq> None \<or> re_match IDENT_RE expr \<noteq> None \<and> expr \<in> consts"

definition label_finding ::
    "string \<Rightarrow> string \<Rightarrow> nat \<Rightarrow> string \<Rightarrow> string \<Rightarrow> string \<Rightarrow> finding" where
  "label_finding rel text pos name loc expr =
     (let bad = re_search TAINT_RE expr \<noteq> None \<or> re_match IDENT_RE expr \<noteq> None \<and> tainted_binding text pos expr
      in \<lparr>kind = (if bad then Tainted else Unbounded), location = loc,
          detail = in_backticks name @ '' label value '' @ in_backticks expr,
          allowlist_key = Some (rel @ ''::'' @ expr)\<rparr>)"

text \<open>One turn of the loop over the calls of a text.\<close>

definition call_findings ::
    "string set \<Rightarrow> decls \<Rightarrow> string \<Rightarrow> string \<Rightarrow> rmatch_result \<Rightarrow> finding list" where
  "call_findings consts decls rel text m =
     (let raw = balanced text (m_end m);
          call_line = length (filter (\<lambda>c. c = newline) (take (m_start m) text));
          waived = is_waived raw (splitlines text) call_line;
          args = re_sub COMMENT_RE [] raw
      in case label_list args of
           None \<Rightarrow> []
         | Some labels \<Rightarrow>
             let loc = rel @ '':'' @ str_nat (call_line + 1); name = group text m 1
             in arity_findings decls name loc labels waived @
                map (label_finding rel text (m_start m) name loc)
                  (filter (\<lambda>expr. \<not> bounded_label consts expr \<and> \<not> waived) labels))"

definition analyse :: "texts \<Rightarrow> string set \<Rightarrow> decls \<Rightarrow> finding list" where
  "analyse ts consts decls =
     concat (map (\<lambda>(rel, text). concat (map (call_findings consts decls rel text) (finditer CALL_RE text))) ts)"

section \<open>The command\<close>

definition name_findings :: "decls \<Rightarrow> finding list" where
  "name_findings decls =
     concat (map (\<lambda>(m, rel, names).
       List.map_filter (\<lambda>n. if re_search BAD_LABEL_NAME n \<noteq> None
         then Some \<lparr>kind = Name, location = rel, detail = in_backticks m @ '' declares label '' @ in_backticks n, allowlist_key = None\<rparr>
         else None) names) (sort_key fst decls))"

text \<open>The distinct allowlist keys of the unbounded findings.\<close>

definition unbounded_keys :: "finding list \<Rightarrow> string list" where
  "unbounded_keys found = remdups (List.map_filter (\<lambda>f. if kind f = Unbounded then allowlist_key f else None) found)"

definition allowlist_entries :: "string option \<Rightarrow> string list" where
  "allowlist_entries file =
     (case file of None \<Rightarrow> [] | Some t \<Rightarrow> remdups (filter (\<lambda>l. l \<noteq> []) (map strip (splitlines t))))"

definition write_allowlist :: "string list \<Rightarrow> string" where
  "write_allowlist keys = concat (map (\<lambda>e. e @ [newline]) (sort keys))"

definition remaining :: "finding list \<Rightarrow> string list \<Rightarrow> finding list" where
  "remaining found allowed =
     filter (\<lambda>f. \<not> (kind f = Unbounded \<and> (case allowlist_key f of Some k \<Rightarrow> k \<in> set allowed | None \<Rightarrow> False))) found @
     map (\<lambda>e. \<lparr>kind = Stale, location = ''scripts/metric_labels_allowlist.txt'', detail = e, allowlist_key = None\<rparr>)
       (sort (filter (\<lambda>e. e \<notin> set (unbounded_keys found)) allowed))"

primrec WHY :: "kind \<Rightarrow> string \<times> string" where
  "WHY Tainted =
     (''This label value carries free-form text (an error, message, peer id, address, ...). Every distinct value becomes a new Prometheus time series, so it grows without bound.'',
      ''Replace it with a fixed set of values (a const or a literal, e.g. '' @ [quote_mark] @ ''dial_failure'' @ [quote_mark] @
      '') and log the detail instead. If it is provably bounded, add '' @ in_backticks ''# bounded-label: <why>'' @
      '' on the call line or the line above it.'')"
| "WHY Unbounded =
     (''This label value is not a string literal or a '' @ in_backticks ''const'' @
      '', so the linter cannot prove it takes a bounded set of values.'',
      ''Use a literal/const. If it is bounded (e.g. an enum), add '' @ in_backticks ''# bounded-label: <why>'' @
      '' on the call line or the line above it; '' @ in_backticks ''scripts/check_metric_labels.py --update'' @
      '' is only for existing code.'')"
| "WHY Arity =
     (''The number of label values differs from the labels the metric declares.'',
      ''Pass exactly one value per declared label.'')"
| "WHY Name =
     (''A declared label name suggests an unbounded dimension.'',
      ''Use a bounded dimension, or drop the label.'')"
| "WHY Stale =
     (''scripts/metric_labels_allowlist.txt lists an expression that no longer offends (it was fixed or removed).'',
      ''Delete the entry, or run '' @ in_backticks ''scripts/check_metric_labels.py --update'' @ ''.'')"

definition ORDER :: "kind list" where
  "ORDER = [Tainted, Unbounded, Arity, Name, Stale]"

primrec TITLE :: "kind \<Rightarrow> string" where
  "TITLE Tainted = ''free-form text used as a metric label''"
| "TITLE Unbounded = ''metric label not provably bounded''"
| "TITLE Arity = ''metric label count mismatch''"
| "TITLE Name = ''suspicious metric label name''"
| "TITLE Stale = ''stale allowlist entries''"

definition report_kind :: "finding list \<Rightarrow> kind \<Rightarrow> string list" where
  "report_kind findings k =
     (let group = filter (\<lambda>f. kind f = k) findings in
      if group = [] then []
      else [newline # ''== '' @ TITLE k @ '' ('' @ str_nat (length group) @ '')'',
            ''   why: '' @ fst (WHY k), ''   fix: '' @ snd (WHY k)] @
           map (\<lambda>(l, d, k). ''  '' @ l @ '': '' @ d)
             (sort (remdups (map (\<lambda>f. (location f, detail f, case allowlist_key f of None \<Rightarrow> [] | Some k \<Rightarrow> k)) group))))"

definition main :: "texts \<Rightarrow> bool \<Rightarrow> string option \<Rightarrow> int \<times> string option \<times> string list" where
  "main ts update file =
     (let decls = declarations ts;
          found = analyse ts (string_consts ts) decls @ name_findings decls;
          file' = (if update then Some (write_allowlist (unbounded_keys found)) else file);
          findings = remaining found (allowlist_entries file')
      in if findings = [] then (0, file', [''metric labels: all label values are bounded''])
         else (1, file', concat (map (report_kind findings) ORDER) @
                [newline # ''metric labels: '' @ str_nat (length findings) @ '' problem(s) found'']))"


section \<open>Brackets and argument lists\<close>

lemma separators [simp]:
  "CHR '','' \<noteq> quote_mark" "CHR '' '' \<noteq> quote_mark" "quote_mark \<noteq> CHR '',''"
  "\<not> opens (CHR '','')" "\<not> closes (CHR '','')" "\<not> opens (CHR '' '')" "\<not> closes (CHR '' '')"
  by code_simp+

lemma opens_not_closes: "opens c \<Longrightarrow> \<not> closes c"
  by (auto simp: opens_def closes_def)

text \<open>Text whose brackets pair up (the linter does not tell the three kinds of bracket apart).\<close>

inductive nested :: "string \<Rightarrow> bool" where
  nested_Nil: "nested []"
| nested_plain: "\<not> opens c \<Longrightarrow> \<not> closes c \<Longrightarrow> nested s \<Longrightarrow> nested (c # s)"
| nested_group: "opens a \<Longrightarrow> nested s \<Longrightarrow> closes b \<Longrightarrow> nested t \<Longrightarrow> nested (a # s @ b # t)"

lemma balanced_len_nested:
  "nested s \<Longrightarrow> balanced_len (Suc d) (s @ t) = length s + balanced_len (Suc d) t"
  by (induction arbitrary: d t rule: nested.induct) (auto dest: opens_not_closes)

lemma balanced_group:
  assumes "nested inside" "closes b"
  shows "balanced (pre @ inside @ b # rest) (length pre) = inside"
  using assms balanced_len_nested [OF assms(1), of 0 "b # rest"]
  by (auto simp: balanced_def dest: opens_not_closes)

lemma balanced_prefix: "\<exists>rest. drop i text = balanced text i @ rest"
  unfolding balanced_def Let_def by (metis append_take_drop_id)

text \<open>Reading an argument: the depth and the string flag after it, or \<open>None\<close> at a comma that
  separates arguments.\<close>

fun scan_top :: "int \<Rightarrow> bool \<Rightarrow> string \<Rightarrow> (int \<times> bool) option" where
  "scan_top depth instr [] = Some (depth, instr)"
| "scan_top depth instr (c # cs) =
     (let instr' = (if c = quote_mark then \<not> instr else instr);
          depth' = (if instr' then depth else depth + (if opens c then 1 else 0) - (if closes c then 1 else 0))
      in if \<not> instr' \<and> c = CHR '','' \<and> depth' = 0 then None else scan_top depth' instr' cs)"

definition one_argument :: "string \<Rightarrow> bool" where
  "one_argument s \<longleftrightarrow> scan_top 0 False s = Some (0, False)"

lemma split_top_raw_scan:
  "scan_top depth instr s = Some (d, i) \<Longrightarrow>
   split_top_raw depth instr cur (s @ t) = split_top_raw d i (rev s @ cur) t"
  by (induction s arbitrary: depth instr cur) (auto simp: Let_def split: if_splits)

lemma split_top_raw_comma:
  "one_argument s \<Longrightarrow>
   split_top_raw 0 False cur (s @ CHR '','' # t) = (rev cur @ s) # split_top_raw 0 False [] t"
  by (simp add: one_argument_def split_top_raw_scan [of 0 False s 0 False])

lemma split_top_raw_join:
  assumes "xs \<noteq> []" and "\<And>x. x \<in> set xs \<Longrightarrow> one_argument x"
  shows "split_top_raw 0 False cur (join '', '' xs) = (rev cur @ hd xs) # map (\<lambda>x. CHR '' '' # x) (tl xs)"
  using assms
proof (induction "'', ''" xs arbitrary: cur rule: join.induct)
  case 1
  then show ?case by simp
next
  case (2 x)
  then show ?case using split_top_raw_scan [of 0 False x 0 False cur "[]"] by (simp add: one_argument_def)
next
  case (3 x y ys)
  have "split_top_raw 0 False cur (join '', '' (x # y # ys)) =
      (rev cur @ x) # split_top_raw 0 False '' '' (join '', '' (y # ys))"
    using 3(3) split_top_raw_comma [of x cur "CHR '' '' # join '', '' (y # ys)"]
    by simp
  then show ?case using 3 by simp
qed

text \<open>Text in the normal form that \<open>" ".join(a.split())\<close> gives.\<close>

definition trimmed :: "string \<Rightarrow> bool" where
  "trimmed s \<longleftrightarrow> s \<noteq> [] \<and> join '' '' (split_ws s) = s"

lemma split_ws_from_spaces: "\<forall>c \<in> set s. is_space c \<Longrightarrow> split_ws_from [] s = []"
  by (induction s) auto

lemma split_ws_space [simp]: "split_ws (CHR '' '' # s) = split_ws s"
  by (simp add: split_ws_def is_space_def)

lemma strip_eq_Nil: "strip s = [] \<longleftrightarrow> (\<forall>c \<in> set s. is_space c)"
proof -
  have "strip s = [] \<longleftrightarrow> (\<forall>c \<in> set (dropWhile is_space s). is_space c)"
    by (simp add: strip_def lstrip_def rstrip_def)
  also have "\<dots> \<longleftrightarrow> (\<forall>c \<in> set s. is_space c)"
    by (induction s) auto
  finally show ?thesis .
qed

lemma trimmed_nonblank: "trimmed s \<Longrightarrow> strip s \<noteq> []"
  unfolding trimmed_def strip_eq_Nil split_ws_def by (metis join.simps(1) split_ws_from_spaces)

lemma trimmed_strip_space: "trimmed s \<Longrightarrow> strip (CHR '' '' # s) \<noteq> []"
  using trimmed_nonblank [of s] by (simp add: strip_eq_Nil)

lemma split_top_join:
  assumes args: "\<And>x. x \<in> set xs \<Longrightarrow> one_argument x \<and> trimmed x"
  shows "split_top (join '', '' xs) = xs"
proof (cases xs)
  case Nil
  then show ?thesis by (simp add: split_top_def strip_eq_Nil)
next
  case (Cons x ys)
  have raw: "split_top_raw 0 False [] (join '', '' xs) = x # map (\<lambda>x. CHR '' '' # x) ys"
    using split_top_raw_join [of xs "[]"] args Cons by simp
  have "filter (\<lambda>a. strip a \<noteq> []) (x # map (\<lambda>x. CHR '' '' # x) ys) = x # map (\<lambda>x. CHR '' '' # x) ys"
    using args Cons trimmed_nonblank trimmed_strip_space by (auto intro!: filter_True)
  then have "split_top (join '', '' xs) = map (\<lambda>a. join '' '' (split_ws a)) (x # ys)"
    by (simp add: split_top_def raw)
  also have "\<dots> = x # ys"
    using args Cons by (auto simp: trimmed_def intro!: map_idI)
  finally show ?thesis using Cons by simp
qed


section \<open>The allowlist file\<close>

lemma splitlines_from_line:
  "\<forall>c \<in> set e. \<not> is_line_end c \<Longrightarrow>
   splitlines_from cur (e @ newline # t) = rev (rev e @ cur) # splitlines_from [] t"
proof (induction e arbitrary: cur)
  case Nil
  have "is_line_end newline" "of_char newline = (10 :: nat)" by (simp_all add: is_line_end_def newline_def)
  then show ?case by (cases t) simp_all
next
  case (Cons c e)
  then show ?case by (cases e) simp_all
qed

lemma splitlines_lines:
  "\<forall>e \<in> set es. \<forall>c \<in> set e. \<not> is_line_end c \<Longrightarrow>
   splitlines (concat (map (\<lambda>e. e @ [newline]) es)) = es"
  unfolding splitlines_def by (induction es) (simp_all add: splitlines_from_line)

lemma is_line_end_space: "is_line_end c \<Longrightarrow> is_space c"
  by (auto simp: is_line_end_def is_space_def Let_def)

text \<open>An entry that survives being written and read back.\<close>

definition entry_ok :: "string \<Rightarrow> bool" where
  "entry_ok e \<longleftrightarrow> e \<noteq> [] \<and> strip e = e \<and> (\<forall>c \<in> set e. \<not> is_line_end c)"

lemma allowlist_roundtrip:
  assumes "\<forall>e \<in> set es. entry_ok e"
  shows "set (allowlist_entries (Some (write_allowlist es))) = set es"
proof -
  have "splitlines (write_allowlist es) = sort es"
    unfolding write_allowlist_def using assms by (intro splitlines_lines) (auto simp: entry_ok_def)
  moreover have "map strip (sort es) = sort es"
    using assms by (intro map_idI) (auto simp: entry_ok_def)
  ultimately show ?thesis using assms by (auto simp: allowlist_entries_def entry_ok_def)
qed

lemma strip_id:
  "s \<noteq> [] \<Longrightarrow> \<not> is_space (hd s) \<Longrightarrow> \<not> is_space (last s) \<Longrightarrow> strip s = s"
proof -
  assume s: "s \<noteq> []" and h: "\<not> is_space (hd s)" and l: "\<not> is_space (last s)"
  have "lstrip s = s" using s h by (cases s) (simp_all add: lstrip_def)
  moreover have "rstrip s = s"
    using s l by (cases s rule: rev_cases) (simp_all add: rstrip_def)
  ultimately show ?thesis by (simp add: strip_def)
qed

lemma split_ws_from_nonempty: "\<exists>c \<in> set s. \<not> is_space c \<Longrightarrow> split_ws_from cur s \<noteq> []"
proof (induction cur s rule: split_ws_from.induct)
  case (2 cur c cs)
  have "split_ws_from (c # cur) cs \<noteq> []" for cur c cs
    by (induction cs arbitrary: c cur) auto
  with 2 show ?case by auto
qed simp

lemma join_words:
  assumes "ws \<noteq> []" and "\<forall>w \<in> set ws. w \<noteq> [] \<and> (\<forall>c \<in> set w. \<not> is_space c)"
  shows "join '' '' ws \<noteq> [] \<and> \<not> is_space (last (join '' '' ws)) \<and>
         (\<forall>c \<in> set (join '' '' ws). c = CHR '' '' \<or> \<not> is_space c)"
  using assms
proof (induction "'' ''" ws rule: join.induct)
  case 1
  then show ?case by simp
next
  case (2 x)
  then show ?case by simp
next
  case (3 x y ys)
  then have "join '' '' (y # ys) \<noteq> [] \<and> \<not> is_space (last (join '' '' (y # ys))) \<and>
         (\<forall>c \<in> set (join '' '' (y # ys)). c = CHR '' '' \<or> \<not> is_space c)" by simp
  with 3(3) show ?case by auto
qed

text \<open>The keys of a label expression: one line, no space at its end.\<close>

lemma split_top_entry:
  assumes "e \<in> set (split_top s)"
  shows "e \<noteq> [] \<and> \<not> is_space (last e) \<and> (\<forall>c \<in> set e. \<not> is_line_end c)"
proof -
  obtain a where e: "e = join '' '' (split_ws a)" and a: "strip a \<noteq> []"
    using assms by (auto simp: split_top_def)
  have words: "\<forall>w \<in> set (split_ws a). w \<noteq> [] \<and> (\<forall>c \<in> set w. \<not> is_space c)"
    using split_ws_from_words [of "[]" a] by (simp add: split_ws_def list_all_iff)
  have "\<exists>c \<in> set a. \<not> is_space c" using a by (auto simp: strip_eq_Nil)
  then have "split_ws a \<noteq> []" unfolding split_ws_def by (rule split_ws_from_nonempty)
  moreover have "\<not> is_line_end (CHR '' '')" by code_simp
  ultimately show ?thesis using join_words [OF _ words] e is_line_end_space by metis
qed


section \<open>What the linter accepts\<close>

text \<open>The label values of a call, whether the call is waived, and whether a value is tainted.\<close>

definition site_labels :: "string \<Rightarrow> rmatch_result \<Rightarrow> string list option" where
  "site_labels text m = label_list (re_sub COMMENT_RE [] (balanced text (m_end m)))"

definition site_line :: "string \<Rightarrow> rmatch_result \<Rightarrow> nat" where
  "site_line text m = length (filter (\<lambda>c. c = newline) (take (m_start m) text))"

definition site_waived :: "string \<Rightarrow> rmatch_result \<Rightarrow> bool" where
  "site_waived text m = is_waived (balanced text (m_end m)) (splitlines text) (site_line text m)"

definition is_tainted :: "string \<Rightarrow> rmatch_result \<Rightarrow> string \<Rightarrow> bool" where
  "is_tainted text m expr \<longleftrightarrow>
     re_search TAINT_RE expr \<noteq> None \<or>
     re_match IDENT_RE expr \<noteq> None \<and> tainted_binding text (m_start m) expr"

definition arity_ok :: "decls \<Rightarrow> string \<Rightarrow> string list \<Rightarrow> bool" where
  "arity_ok ds name labels \<longleftrightarrow>
     (case map_of ds name of None \<Rightarrow> True | Some (_, declared) \<Rightarrow> length declared = length labels)"

text \<open>A call is in order when it is waived, or its labels fit the declaration and each of them is
  bounded or an untainted entry of the allowlist.\<close>

definition site_ok :: "string set \<Rightarrow> decls \<Rightarrow> string set \<Rightarrow> string \<Rightarrow> string \<Rightarrow> rmatch_result \<Rightarrow> bool" where
  "site_ok consts ds allowed rel text m \<longleftrightarrow>
     (case site_labels text m of
        None \<Rightarrow> True
      | Some labels \<Rightarrow>
          site_waived text m \<or>
          arity_ok ds (group text m 1) labels \<and>
          list_all (\<lambda>expr. bounded_label consts expr \<or>
            \<not> is_tainted text m expr \<and> rel @ ''::'' @ expr \<in> allowed) labels)"

definition names_ok :: "decls \<Rightarrow> bool" where
  "names_ok ds \<longleftrightarrow> list_all (\<lambda>(_, _, names). list_all (\<lambda>n. re_search BAD_LABEL_NAME n = None) names) ds"

text \<open>The findings of one call, in these terms.\<close>

lemma call_findings_eq:
  "call_findings consts ds rel text m =
     (case site_labels text m of
        None \<Rightarrow> []
      | Some labels \<Rightarrow>
          if site_waived text m then []
          else (let loc = rel @ '':'' @ str_nat (site_line text m + 1); name = group text m 1 in
            arity_findings ds name loc labels False @
            map (label_finding rel text (m_start m) name loc) (filter (\<lambda>e. \<not> bounded_label consts e) labels)))"
  by (auto simp: call_findings_def site_labels_def site_waived_def site_line_def Let_def arity_findings_def
      split: option.splits)

lemma kind_label_finding [simp]:
  "kind (label_finding rel text (m_start m) name loc expr) = (if is_tainted text m expr then Tainted else Unbounded)"
  by (simp add: label_finding_def is_tainted_def Let_def)

lemma key_label_finding [simp]:
  "allowlist_key (label_finding rel text p name loc expr) = Some (rel @ ''::'' @ expr)"
  by (simp add: label_finding_def Let_def)

lemma kind_arity_findings: "f \<in> set (arity_findings ds name loc labels w) \<Longrightarrow> kind f = Arity"
  by (auto simp: arity_findings_def split: option.splits if_splits)

lemma arity_findings_empty: "arity_findings ds name loc labels False = [] \<longleftrightarrow> arity_ok ds name labels"
  by (auto simp: arity_findings_def arity_ok_def split: option.splits)

lemma kind_name_findings: "f \<in> set (name_findings ds) \<Longrightarrow> kind f = Name"
  by (auto simp: name_findings_def List.map_filter_def split: if_splits)

lemma name_not_unbounded: "f \<in> set (name_findings ds) \<Longrightarrow> kind f \<noteq> Unbounded"
  using kind_name_findings by force

lemma name_findings_empty: "name_findings ds = [] \<longleftrightarrow> names_ok ds"
  by (auto simp: name_findings_def names_ok_def List.map_filter_def list_all_iff filter_empty_conv)

definition let_through :: "string set \<Rightarrow> finding \<Rightarrow> bool" where
  "let_through allowed f \<longleftrightarrow>
     kind f = Unbounded \<and> (case allowlist_key f of Some k \<Rightarrow> k \<in> allowed | None \<Rightarrow> False)"

lemma site_ok_iff:
  "site_ok consts ds allowed rel text m \<longleftrightarrow>
     (\<forall>f \<in> set (call_findings consts ds rel text m). let_through allowed f)"
proof (cases "site_labels text m")
  case None
  then show ?thesis by (simp add: site_ok_def call_findings_eq)
next
  case (Some labels)
  have arity: "(\<forall>f \<in> set (arity_findings ds name loc labels False). let_through allowed f) \<longleftrightarrow>
      arity_ok ds name labels" for name loc
    using kind_arity_findings [of _ ds name loc labels False]
    by (fastforce simp: let_through_def arity_findings_empty [symmetric, of _ _ _ loc] neq_Nil_conv)
  show ?thesis
    using Some by (auto simp: site_ok_def call_findings_eq Let_def ball_Un arity list_all_iff)
      (auto simp: let_through_def split: if_splits)
qed

lemma sort_empty_iff: "sort xs = [] \<longleftrightarrow> xs = []"
  by (metis set_empty set_sort)

lemma remaining_empty:
  "remaining found allowed = [] \<longleftrightarrow>
     (\<forall>f \<in> set found. let_through (set allowed) f) \<and> set allowed \<subseteq> set (unbounded_keys found)"
  by (auto simp: remaining_def let_through_def filter_empty_conv sort_empty_iff)

lemma main_exit:
  "fst (main ts update file) =
     (let ds = declarations ts; found = analyse ts (string_consts ts) ds @ name_findings ds in
      if remaining found (allowlist_entries
           (if update then Some (write_allowlist (unbounded_keys found)) else file)) = [] then 0 else 1)"
  by (simp add: main_def Let_def)

lemma analyse_set:
  "f \<in> set (analyse ts consts ds) \<longleftrightarrow>
     (\<exists>rel text m. (rel, text) \<in> set ts \<and> m \<in> set (finditer CALL_RE text) \<and> f \<in> set (call_findings consts ds rel text m))"
  by (auto simp: analyse_def)

text \<open>The allowlist keys that the texts justify.\<close>

definition justified :: "texts \<Rightarrow> string set" where
  "justified ts = {rel @ ''::'' @ expr | rel text m labels expr.
     (rel, text) \<in> set ts \<and> m \<in> set (finditer CALL_RE text) \<and> site_labels text m = Some labels \<and>
     \<not> site_waived text m \<and> expr \<in> set labels \<and> \<not> bounded_label (string_consts ts) expr \<and>
     \<not> is_tainted text m expr}"

lemma unbounded_keys_set:
  "k \<in> set (unbounded_keys fs) \<longleftrightarrow> (\<exists>f \<in> set fs. kind f = Unbounded \<and> allowlist_key f = Some k)"
  by (auto simp: unbounded_keys_def List.map_filter_def image_iff split: if_splits)

lemma unbounded_in_call:
  "f \<in> set (call_findings consts ds rel text m) \<and> kind f = Unbounded \<and> allowlist_key f = Some k \<longleftrightarrow>
   (\<exists>labels expr. site_labels text m = Some labels \<and> \<not> site_waived text m \<and> expr \<in> set labels \<and>
      \<not> bounded_label consts expr \<and> \<not> is_tainted text m expr \<and> k = rel @ ''::'' @ expr \<and>
      f = label_finding rel text (m_start m) (group text m 1) (rel @ '':'' @ str_nat (site_line text m + 1)) expr)"
  by (cases "site_labels text m")
     (auto simp: call_findings_eq Let_def dest: kind_arity_findings split: if_splits)

lemma unbounded_keys_justified:
  "set (unbounded_keys (analyse ts (string_consts ts) ds @ name_findings ds)) = justified ts"
proof -
  have "k \<in> set (unbounded_keys (analyse ts (string_consts ts) ds @ name_findings ds)) \<longleftrightarrow> k \<in> justified ts" for k
  proof -
    have "k \<in> set (unbounded_keys (analyse ts (string_consts ts) ds @ name_findings ds)) \<longleftrightarrow>
      (\<exists>f rel text m. (rel, text) \<in> set ts \<and> m \<in> set (finditer CALL_RE text) \<and>
         (f \<in> set (call_findings (string_consts ts) ds rel text m) \<and> kind f = Unbounded \<and> allowlist_key f = Some k))"
      unfolding unbounded_keys_set set_append Un_iff analyse_set Bex_def using name_not_unbounded [of _ ds]
      by blast
    then show ?thesis unfolding unbounded_in_call justified_def by blast
  qed
  then show ?thesis by blast
qed


lemma label_list_entry:
  assumes "label_list args = Some labels" "expr \<in> set labels"
  shows "\<exists>s. expr \<in> set (split_top s)"
proof -
  have "label_values_arg ps = Some ls \<Longrightarrow> \<exists>s. ls = split_top s" for ps ls
    by (induction ps) (auto split: option.splits)
  then show ?thesis using assms by (fastforce simp: label_list_def Let_def split: option.splits if_splits)
qed

lemma label_entry:
  "site_labels text m = Some labels \<Longrightarrow> expr \<in> set labels \<Longrightarrow>
   expr \<noteq> [] \<and> \<not> is_space (last expr) \<and> (\<forall>c \<in> set expr. \<not> is_line_end c)"
  unfolding site_labels_def by (metis label_list_entry split_top_entry)

lemma keyed:
  "f \<in> set (analyse ts C ds @ name_findings ds) \<Longrightarrow> kind f = Unbounded \<Longrightarrow> \<exists>k. allowlist_key f = Some k"
  by (auto simp: analyse_set call_findings_eq Let_def dest: kind_arity_findings name_not_unbounded
      split: option.splits if_splits)

lemma let_through_keys:
  assumes "fs = analyse ts C ds @ name_findings ds" "f \<in> set fs"
  shows "let_through (set (unbounded_keys fs)) f \<longleftrightarrow> kind f = Unbounded"
proof
  assume "kind f = Unbounded"
  moreover obtain k where "allowlist_key f = Some k"
    using assms \<open>kind f = Unbounded\<close> keyed by blast
  ultimately show "let_through (set (unbounded_keys fs)) f"
    using assms(2) by (auto simp: let_through_def unbounded_keys_set)
qed (simp add: let_through_def)

section \<open>Properties\<close>

text \<open>C6: the linter exits with 0 exactly when every metric call is in order (waived, or with the
  declared number of labels, each a literal, a \<open>const\<close> or an untainted entry of the allowlist), no
  declared label name looks unbounded, and every entry of the allowlist is still needed by an
  untainted, unwaived, unbounded label.\<close>

theorem main_accepts_iff:
  "fst (main ts False file) = 0 \<longleftrightarrow>
     (\<forall>(rel, text) \<in> set ts. \<forall>m \<in> set (finditer CALL_RE text).
        site_ok (string_consts ts) (declarations ts) (set (allowlist_entries file)) rel text m) \<and>
     names_ok (declarations ts) \<and>
     set (allowlist_entries file) \<subseteq> justified ts"
proof -
  let ?ds = "declarations ts" and ?C = "string_consts ts" and ?A = "set (allowlist_entries file)"
  have names: "(\<forall>f \<in> set (name_findings ?ds). let_through ?A f) \<longleftrightarrow> names_ok ?ds"
    using name_not_unbounded [of _ ?ds]
    by (cases "name_findings ?ds") (auto simp: let_through_def name_findings_empty [symmetric])
  have calls: "(\<forall>f \<in> set (analyse ts ?C ?ds). let_through ?A f) \<longleftrightarrow>
      (\<forall>(rel, text) \<in> set ts. \<forall>m \<in> set (finditer CALL_RE text). site_ok ?C ?ds ?A rel text m)"
    unfolding site_ok_iff by (auto simp: analyse_set) blast+
  show ?thesis
    by (simp add: main_exit Let_def remaining_empty unbounded_keys_justified ball_Un names calls)
qed

definition nim_ok :: texts where
  "nim_ok = [(''a.nim'', ''m.inc(labelValues = ['' @ [quote_mark] @ ''ok'' @ [quote_mark] @ ''])'')]"

theorem main_accepts_iff_witness:
  "fst (main nim_ok False None) = 0 \<and> names_ok (declarations nim_ok) \<and>
   set (allowlist_entries None) \<subseteq> justified nim_ok"
proof -
  have "fst (main nim_ok False None) = 0" by code_simp
  then show ?thesis using main_accepts_iff [of nim_ok None] by blast
qed

text \<open>C7: a label value that carries free-form text fails the linter whatever the allowlist says and
  also under \<open>--update\<close>.\<close>

theorem tainted_never_allowlisted:
  assumes "(rel, t) \<in> set ts" "m \<in> set (finditer CALL_RE t)" "site_labels t m = Some labels"
    and "expr \<in> set labels" "\<not> bounded_label (string_consts ts) expr" "is_tainted t m expr"
    and "\<not> site_waived t m"
  shows "fst (main ts update file) = 1"
proof -
  let ?f = "label_finding rel t (m_start m) (group t m 1) (rel @ '':'' @ str_nat (site_line t m + 1)) expr"
  have "?f \<in> set (analyse ts (string_consts ts) (declarations ts))"
    unfolding analyse_set using assms by (auto simp: call_findings_eq Let_def intro!: exI)
  moreover have "\<not> let_through A ?f" for A using assms(6) by (simp add: let_through_def)
  ultimately show ?thesis by (auto simp: main_exit Let_def remaining_empty)
qed

text \<open>Two calls that differ in one character of a string literal; \<open>error\<close> is a tainted value in both.\<close>

definition nim_call :: "char \<Rightarrow> string" where
  "nim_call c = ''m.inc(labelValues = ['' @ [quote_mark, c, quote_mark] @ '', error])''"

theorem tainted_never_allowlisted_witness:
  "fst (main [(''a.nim'', nim_call (CHR ''a''))] True (Some ''a.nim::error'')) = 1"
  by (rule tainted_never_allowlisted [where rel = "''a.nim''" and t = "nim_call (CHR ''a'')" and
        m = "\<lparr>m_start = 0, m_end = 6, m_caps = [(1, (0, 1))]\<rparr>" and expr = "''error''" and
        labels = "[[quote_mark, CHR ''a'', quote_mark], ''error'']"]) code_simp+

text \<open>C8: \<open>--update\<close> settles the allowlist: when no scanned path starts with white space or contains
  a line end, the run that rewrites the file reports neither an unbounded nor a stale entry, so it
  fails only for findings that the allowlist does not cover.\<close>

theorem update_settles:
  assumes "\<forall>rel \<in> fst ` set ts. rel \<noteq> [] \<and> \<not> is_space (hd rel) \<and> (\<forall>c \<in> set rel. \<not> is_line_end c)"
  shows "fst (main ts True file) = 0 \<longleftrightarrow>
    (\<forall>f \<in> set (analyse ts (string_consts ts) (declarations ts) @ name_findings (declarations ts)).
       kind f = Unbounded)"
proof -
  let ?fs = "analyse ts (string_consts ts) (declarations ts) @ name_findings (declarations ts)"
  have "entry_ok k" if k: "k \<in> justified ts" for k
  proof -
    obtain rel t m labels expr where *: "(rel, t) \<in> set ts" "site_labels t m = Some labels"
        "expr \<in> set labels" and k: "k = rel @ ''::'' @ expr"
      using k by (auto simp: justified_def)
    have "expr \<noteq> [] \<and> \<not> is_space (last expr) \<and> (\<forall>c \<in> set expr. \<not> is_line_end c)"
      using *(2,3) by (rule label_entry)
    moreover have "rel \<noteq> []" "\<not> is_space (hd rel)" "\<forall>c \<in> set rel. \<not> is_line_end c"
      using assms *(1) by force+
    moreover have "\<not> is_line_end (CHR '':'')" by code_simp
    ultimately show ?thesis by (auto simp: entry_ok_def k intro!: strip_id)
  qed
  then have "set (allowlist_entries (Some (write_allowlist (unbounded_keys ?fs)))) = set (unbounded_keys ?fs)"
    by (intro allowlist_roundtrip) (simp only: unbounded_keys_justified, blast)
  moreover have "(\<forall>f \<in> set ?fs. let_through (set (unbounded_keys ?fs)) f) \<longleftrightarrow> (\<forall>f \<in> set ?fs. kind f = Unbounded)"
    by (simp only: let_through_keys [OF refl] cong: ball_cong)
  ultimately show ?thesis by (simp add: main_exit Let_def remaining_empty)
qed


theorem update_settles_witness:
  "fst (main [(''a.nim'', ''m.set(1, [z])'')] True None) = 0"
proof -
  have "\<forall>rel \<in> fst ` set [(''a.nim'', ''m.set(1, [z])'')].
      rel \<noteq> [] \<and> \<not> is_space (hd rel) \<and> (\<forall>c \<in> set rel. \<not> is_line_end c)" by code_simp
  moreover have "\<forall>f \<in> set (analyse [(''a.nim'', ''m.set(1, [z])'')] (string_consts [(''a.nim'', ''m.set(1, [z])'')])
        (declarations [(''a.nim'', ''m.set(1, [z])'')]) @
      name_findings (declarations [(''a.nim'', ''m.set(1, [z])'')])). kind f = Unbounded" by code_simp
  ultimately show ?thesis using update_settles [of "[(''a.nim'', ''m.set(1, [z])'')]" None] by blast
qed

text \<open>\<open>balanced\<close> returns the content of the bracket group that starts at the given index, when
  the brackets of that content pair up and a closing bracket follows.\<close>

theorem balanced_returns_group:
  assumes "nested inside" "closes b"
  shows "balanced (pre @ inside @ b # rest) (length pre) = inside"
  using assms by (rule balanced_group)

theorem balanced_returns_group_witness:
  "balanced ''f(a(b), c)'' 2 = ''a(b), c''"
proof -
  have group: "opens (CHR ''('')" "closes (CHR '')'')" by code_simp+
  have plain: "\<not> opens c \<and> \<not> closes c" if "c \<in> set ''ab, c''" for c
    using that by (auto simp: opens_def closes_def)
  have "nested ''b''" "nested '', c''" by (intro nested_plain nested_Nil; simp add: plain)+
  then have "nested (CHR ''('' # ''b'' @ CHR '')'' # '', c'')" using group by (intro nested_group)
  then have "nested ''a(b), c''" using nested_plain [of "CHR ''a''"] plain by simp
  then show ?thesis using balanced_returns_group [of "''a(b), c''" "CHR '')''" "''f(''" "[]"] group
    by (simp add: eval_nat_numeral)
qed

text \<open>C9: \<open>split_top\<close> undoes joining with a comma and a space: a list of arguments, each without a
  separating comma of its own and in normal form as to white space, is recovered from its text.\<close>

theorem split_top_roundtrip:
  assumes "\<forall>x \<in> set xs. one_argument x \<and> trimmed x"
  shows "split_top (join '', '' xs) = xs"
  using assms by (intro split_top_join) blast

theorem split_top_roundtrip_witness:
  "split_top (join '', '' [''a'', ''f(b, c)'']) = [''a'', ''f(b, c)'']"
  by (rule split_top_roundtrip) code_simp

text \<open>Pieces of a match, and patterns that do not match.\<close>

lemma rmatch_Seq_none: "(\<And>q d. rmatch b s q d = []) \<Longrightarrow> rmatch (Seq a b) s p c = []"
  by auto

lemma rmatch_last_bracket:
  assumes "rmatch (Seq (rchr (CHR '']'')) Dollar) a q d \<noteq> []"
  shows "last a = CHR '']'' \<or> last a = newline"
proof -
  have "q < length a" "a ! q = CHR '']''" "Suc q = length a \<or> Suc (Suc q) = length a \<and> a ! Suc q = newline"
    using assms by (auto simp: rchr_def split: if_splits)
  then show ?thesis by (cases a rule: rev_cases) (auto simp: nth_append)
qed

lemma label_values_end:
  assumes "re_match LABEL_VALUES_RE a \<noteq> None"
  shows "last a = CHR '']'' \<or> last a = newline"
proof (rule ccontr)
  assume "\<not> ?thesis"
  then have none: "rmatch (Seq (rchr (CHR '']'')) Dollar) a q d = []" for q d
    using rmatch_last_bracket by blast
  have "rmatch LABEL_VALUES_RE a 0 [] = []"
    unfolding LABEL_VALUES_RE_def rseq.simps
    by (rule rmatch_Seq_none, rule rmatch_Seq_none, rule rmatch_Seq_none, rule rmatch_Seq_none, rule rmatch_Seq_none,
        rule rmatch_Seq_none, rule rmatch_Seq_none, rule none)
  with assms show False by (simp add: re_match_def match_at_def)
qed

lemma no_comment:
  assumes "CHR ''#'' \<notin> set s"
  shows "re_sub COMMENT_RE t s = s"
proof -
  have "match_at COMMENT_RE s p = None" for p
    using assms by (auto simp: match_at_def COMMENT_RE_def blank_def rx_sugar in_set_conv_nth split: list.splits)
  then have "search_from COMMENT_RE s n p = None" for n p by (induction n arbitrary: p) auto
  then show ?thesis by (simp add: re_sub_def finditer_def re_search_from_def)
qed

lemma split_ws_from_snoc:
  "\<not> is_space c \<Longrightarrow> \<exists>ws w. split_ws_from cur (s @ [c]) = ws @ [w @ [c]]"
proof (induction s arbitrary: cur)
  case (Cons d s)
  then have "\<exists>ws w. split_ws_from (d # cur) (s @ [c]) = ws @ [w @ [c]]" "\<exists>ws w. split_ws_from [] (s @ [c]) = ws @ [w @ [c]]"
    by blast+
  then show ?case by (auto intro: exI [of _ "_ # _"])
qed (auto intro: exI [of _ "[]"])

lemma last_join: "v \<noteq> [] \<Longrightarrow> join '' '' (ws @ [v]) \<noteq> [] \<and> last (join '' '' (ws @ [v])) = last v"
proof (induction ws)
  case (Cons w ws)
  then show ?case by (cases "ws @ [v]") auto
qed simp

lemma last_normalised:
  assumes "s \<noteq> []" "\<not> is_space (last s)"
  shows "last (join '' '' (split_ws s)) = last s"
proof -
  obtain ws w where "split_ws (butlast s @ [last s]) = ws @ [w @ [last s]]"
    unfolding split_ws_def using split_ws_from_snoc [OF assms(2)] by blast
  then show ?thesis using assms(1) last_join [of "w @ [last s]" ws] by simp
qed

lemma scan_top_append:
  "scan_top d i s = Some (d', i') \<Longrightarrow> scan_top d i (s @ t) = scan_top d' i' t"
  by (induction s arbitrary: d i) (auto simp: Let_def split: if_splits)

text \<open>A single argument that does not end in a bracket has no label values.\<close>

lemma no_label_list:
  assumes "scan_top 0 False s = Some (d, i)" "s \<noteq> []" "\<not> is_space (last s)" "last s \<noteq> CHR '']''"
  shows "label_list s = None"
proof -
  have "split_top_raw 0 False [] s = [s]" using split_top_raw_scan [OF assms(1), of "[]" "[]"] by simp
  moreover have "strip s \<noteq> []" using assms(2,3) by (auto simp: strip_eq_Nil)
  ultimately have "split_top s = [join '' '' (split_ws s)]" by (simp add: split_top_def)
  moreover have "last s \<noteq> newline" using assms(3) by (auto simp: is_space_def newline_def)
  then have "re_match LABEL_VALUES_RE (join '' '' (split_ws s)) = None"
    using assms(4) last_normalised [OF assms(2,3)] label_values_end [of "join '' '' (split_ws s)"] by metis
  ultimately show ?thesis by (simp add: label_list_def Let_def)
qed

lemma balanced_cut: "drop i t = r @ s \<Longrightarrow> balanced_len 1 (drop i t) = Suc (length r) \<Longrightarrow> balanced t i = r"
  by (simp add: balanced_def)

lemma label_values_prefix:
  "balanced_len (Suc 0) (''labelValues = ['' @ s) = 15 + balanced_len (Suc (Suc 0)) s"
  "scan_top 0 False ''labelValues = ['' = Some (1, False)"
  by (simp add: opens_def closes_def) code_simp



end
