(* ===== verification/Py_Json.thy ===== *)
theory Py_Json
  imports Py_Prelude
begin

text \<open>
  UTF-8 decoding and the part of Python's \<open>json\<close> module that the sources use: \<open>json.loads\<close> and
  \<open>json.dumps\<close> with their default settings. The parser is recursive descent with one unit of
  fuel per nested value or member; the text is longer than the number of values in it, so its
  length is enough fuel. The texts \<open>NaN\<close> and \<open>Infinity\<close>, which Python also accepts, have no
  \<open>pyval\<close> and are refused. \<open>json.dumps\<close> takes the text of a float as an argument.
\<close>

section \<open>UTF-8\<close>

text \<open>How many bytes a character that starts with this byte has; 0 for a byte that starts none.\<close>

definition utf8_need :: "nat \<Rightarrow> nat" where
  "utf8_need b =
     (if b < 128 then 1 else if 194 \<le> b \<and> b \<le> 223 then 2 else if 224 \<le> b \<and> b \<le> 239 then 3
      else if 240 \<le> b \<and> b \<le> 244 then 4 else 0)"

definition is_cont :: "char \<Rightarrow> bool" where
  "is_cont c \<longleftrightarrow> 128 \<le> byte c \<and> byte c \<le> 191"

text \<open>The second byte is narrower after some first bytes (no overlong form, surrogate or value
  beyond 10FFFF).\<close>

definition second_ok :: "nat \<Rightarrow> char \<Rightarrow> bool" where
  "second_ok b c \<longleftrightarrow> is_cont c \<and> (b = 224 \<longrightarrow> 160 \<le> byte c) \<and> (b = 237 \<longrightarrow> byte c \<le> 159) \<and>
     (b = 240 \<longrightarrow> 144 \<le> byte c) \<and> (b = 244 \<longrightarrow> byte c \<le> 143)"

text \<open>Whether a valid character starts here, and how many bytes belong to it (or to the longest
  broken start of one).\<close>

definition utf8_step :: "char \<Rightarrow> string \<Rightarrow> bool \<times> nat" where
  "utf8_step c cs =
     (let n = utf8_need (byte c);
          k = (case take (n - 1) cs of [] \<Rightarrow> 0
               | d # ds \<Rightarrow> if second_ok (byte c) d then Suc (length (takeWhile is_cont ds)) else 0)
      in (0 < n \<and> k = n - 1, Suc k))"

fun utf8_from :: "nat \<Rightarrow> string \<Rightarrow> (bool \<times> string) list" where
  "utf8_from 0 s = []"
| "utf8_from (Suc n) [] = []"
| "utf8_from (Suc n) (c # cs) =
     (let (ok, k) = utf8_step c cs in (ok, take k (c # cs)) # utf8_from n (drop k (c # cs)))"

text \<open>The pieces of a byte string: characters and broken sequences.\<close>

definition utf8_pieces :: "string \<Rightarrow> (bool \<times> string) list" where
  "utf8_pieces s = utf8_from (length s) s"

text \<open>\<open>raw.decode("utf-8")\<close> and \<open>raw.decode("utf-8", errors="replace")\<close>.\<close>

definition utf8_decode :: "string \<Rightarrow> string res" where
  "utf8_decode s = (if list_all fst (utf8_pieces s) then Inr s
     else Inl (Exn UnicodeDecodeError ''invalid utf-8''))"

definition replacement :: string where
  "replacement = map char_of [239 :: nat, 191, 189]"

definition utf8_decode_replace :: "string \<Rightarrow> string" where
  "utf8_decode_replace s = concat (map (\<lambda>(ok, p). if ok then p else replacement) (utf8_pieces s))"

text \<open>The bytes of a code point.\<close>

definition utf8_encode :: "nat \<Rightarrow> string" where
  "utf8_encode n =
     map char_of
       (if n < 128 then [n]
        else if n < 2048 then [192 + n div 64, 128 + n mod 64]
        else if n < 65536 then [224 + n div 4096, 128 + n div 64 mod 64, 128 + n mod 64]
        else [240 + n div 262144, 128 + n div 4096 mod 64, 128 + n div 64 mod 64, 128 + n mod 64])"

section \<open>Reading\<close>

definition skip_ws :: "string \<Rightarrow> string" where
  "skip_ws s = dropWhile (\<lambda>c. byte c \<in> {32, 9, 10, 13}) s"

definition hex_digit :: "char \<Rightarrow> nat option" where
  "hex_digit c =
     (let n = byte c in
      if 48 \<le> n \<and> n \<le> 57 then Some (n - 48)
      else if 97 \<le> n \<and> n \<le> 102 then Some (n - 87)
      else if 65 \<le> n \<and> n \<le> 70 then Some (n - 55) else None)"

fun hex4 :: "string \<Rightarrow> (nat \<times> string) option" where
  "hex4 (a # b # c # d # r) =
     (case (hex_digit a, hex_digit b, hex_digit c, hex_digit d) of
        (Some w, Some x, Some y, Some z) \<Rightarrow> Some (((w * 16 + x) * 16 + y) * 16 + z, r)
      | _ \<Rightarrow> None)"
| "hex4 _ = None"

text \<open>The character after a backslash, when it is not \<open>u\<close>.\<close>

definition simple_escape :: "char \<Rightarrow> char option" where
  "simple_escape c =
     (if c = quote_mark \<or> c = backslash \<or> c = CHR ''/'' then Some c
      else if c = CHR ''b'' then Some (char_of (8 :: nat)) else if c = CHR ''f'' then Some (char_of (12 :: nat))
      else if c = CHR ''n'' then Some (char_of (10 :: nat)) else if c = CHR ''r'' then Some (char_of (13 :: nat))
      else if c = CHR ''t'' then Some (char_of (9 :: nat)) else None)"

text \<open>A \<open>\u\<close> escape; a high surrogate joins a low one that follows. A lone surrogate keeps its own
  three bytes.\<close>

definition unicode_escape :: "string \<Rightarrow> (string \<times> string) option" where
  "unicode_escape s =
     (case hex4 s of
        None \<Rightarrow> None
      | Some (u, r) \<Rightarrow>
          if 55296 \<le> u \<and> u \<le> 56319 \<and> startswith r [backslash, CHR ''u''] then
            (case hex4 (drop 2 r) of
               Some (v, r') \<Rightarrow>
                 if 56320 \<le> v \<and> v \<le> 57343
                 then Some (utf8_encode (65536 + (u - 55296) * 1024 + (v - 56320)), r')
                 else Some (utf8_encode u, r)
             | None \<Rightarrow> None)
          else Some (utf8_encode u, r))"

text \<open>The rest of a string after its opening quote.\<close>

fun json_str :: "nat \<Rightarrow> string \<Rightarrow> (string \<times> string) option" where
  "json_str 0 s = None"
| "json_str (Suc n) [] = None"
| "json_str (Suc n) (c # cs) =
     (if c = quote_mark then Some ([], cs)
      else if byte c < 32 then None
      else if c = backslash then
        (case cs of
           [] \<Rightarrow> None
         | e # r \<Rightarrow>
             if e = CHR ''u'' then
               (case unicode_escape r of
                  None \<Rightarrow> None
                | Some (t, r') \<Rightarrow> map_option (\<lambda>(u, z). (t @ u, z)) (json_str n r'))
             else (case simple_escape e of
                  None \<Rightarrow> None
                | Some d \<Rightarrow> map_option (\<lambda>(u, z). (d # u, z)) (json_str n r)))
      else map_option (\<lambda>(u, z). (c # u, z)) (json_str n cs))"

text \<open>A number: integer part without a leading zero, optional fraction and exponent.\<close>

definition json_frac :: "string \<Rightarrow> string \<times> string" where
  "json_frac s =
     (case s of
        c # cs \<Rightarrow> if c = CHR ''.'' \<and> takeWhile is_digit cs \<noteq> []
                 then (takeWhile is_digit cs, dropWhile is_digit cs) else ([], s)
      | [] \<Rightarrow> ([], []))"

definition json_exp :: "string \<Rightarrow> int option \<times> string" where
  "json_exp s =
     (case s of
        c # cs \<Rightarrow>
          if c = CHR ''e'' \<or> c = CHR ''E'' then
            (let (neg, ds) = (case cs of d # r \<Rightarrow> if d = CHR ''-'' then (True, r) else if d = CHR ''+'' then (False, r)
                                 else (False, cs) | [] \<Rightarrow> (False, cs))
             in if takeWhile is_digit ds = [] then (None, s)
                else (Some ((if neg then - 1 else 1) * int (digits_val 0 (takeWhile is_digit ds))), dropWhile is_digit ds))
          else (None, s)
      | [] \<Rightarrow> (None, []))"

definition pow10 :: "int \<Rightarrow> rat" where
  "pow10 e = (if 0 \<le> e then 10 ^ nat e else 1 / 10 ^ nat (- e))"

definition json_number :: "string \<Rightarrow> (pyval \<times> string) option" where
  "json_number s =
     (let (neg, r) = (case s of c # cs \<Rightarrow> if c = CHR ''-'' then (True, cs) else (False, s) | [] \<Rightarrow> (False, s));
          ds = (case r of c # cs \<Rightarrow> if c = CHR ''0'' then [c] else takeWhile is_digit r | [] \<Rightarrow> []);
          sgn = (if neg then - 1 else 1)
      in if ds = [] then None
         else (let (fr, r1) = json_frac (drop (length ds) r); (ex, r2) = json_exp r1 in
               if fr = [] \<and> ex = None then Some (PInt (sgn * int (digits_val 0 ds)), r2)
               else Some (PFloat (of_int sgn * of_nat (digits_val 0 (ds @ fr)) *
                      pow10 ((case ex of None \<Rightarrow> 0 | Some e \<Rightarrow> e) - int (length fr))), r2)))"

text \<open>A value, the elements of an array after its opening bracket (or a comma), and the members of
  an object.\<close>

fun json_value :: "nat \<Rightarrow> string \<Rightarrow> (pyval \<times> string) option"
  and json_elems :: "nat \<Rightarrow> string \<Rightarrow> (pyval list \<times> string) option"
  and json_members :: "nat \<Rightarrow> string \<Rightarrow> ((string \<times> pyval) list \<times> string) option" where
  "json_value 0 s = None"
| "json_value (Suc n) s =
     (case s of
        [] \<Rightarrow> None
      | c # cs \<Rightarrow>
          if c = quote_mark then map_option (\<lambda>(t, r). (PStr t, r)) (json_str (length s) cs)
          else if c = CHR ''{'' then
            (case skip_ws cs of
               d # r \<Rightarrow> if d = CHR ''}'' then Some (PDict [], r)
                 else map_option (\<lambda>(ms, r'). (PDict (dict_update [] ms), r')) (json_members n (d # r))
             | [] \<Rightarrow> None)
          else if c = CHR ''['' then
            (case skip_ws cs of
               d # r \<Rightarrow> if d = CHR '']'' then Some (PList [], r)
                 else map_option (\<lambda>(vs, r'). (PList vs, r')) (json_elems n (d # r))
             | [] \<Rightarrow> None)
          else if startswith s ''null'' then Some (PNone, drop 4 s)
          else if startswith s ''true'' then Some (PBool True, drop 4 s)
          else if startswith s ''false'' then Some (PBool False, drop 5 s)
          else json_number s)"
| "json_elems 0 s = None"
| "json_elems (Suc n) s =
     (case json_value n s of
        None \<Rightarrow> None
      | Some (v, r) \<Rightarrow>
          (case skip_ws r of
             d # r' \<Rightarrow>
               if d = CHR '']'' then Some ([v], r')
               else if d = CHR '','' then map_option (\<lambda>(vs, z). (v # vs, z)) (json_elems n (skip_ws r'))
               else None
           | [] \<Rightarrow> None))"
| "json_members 0 s = None"
| "json_members (Suc n) s =
     (case s of
        c # cs \<Rightarrow>
          if c \<noteq> quote_mark then None
          else (case json_str (length s) cs of
             None \<Rightarrow> None
           | Some (k, r) \<Rightarrow>
               (case skip_ws r of
                  col # r1 \<Rightarrow>
                    if col \<noteq> CHR '':'' then None
                    else (case json_value n (skip_ws r1) of
                       None \<Rightarrow> None
                     | Some (v, r2) \<Rightarrow>
                         (case skip_ws r2 of
                            d # r3 \<Rightarrow>
                              if d = CHR ''}'' then Some ([(k, v)], r3)
                              else if d = CHR '','' then map_option (\<lambda>(ms, z). ((k, v) # ms, z)) (json_members n (skip_ws r3))
                              else None
                          | [] \<Rightarrow> None))
                | [] \<Rightarrow> None))
      | [] \<Rightarrow> None)"

definition json_loads :: "string \<Rightarrow> pyval res" where
  "json_loads s =
     (case json_value (Suc (length s)) (skip_ws s) of
        Some (v, r) \<Rightarrow> if skip_ws r = [] then Inr v else Inl (Exn JSONDecodeError ''Extra data'')
      | None \<Rightarrow> Inl (Exn JSONDecodeError ''Expecting value''))"

section \<open>Writing\<close>

definition hex_char :: "nat \<Rightarrow> char" where
  "hex_char d = (if d < 10 then char_of (48 + d) else char_of (87 + d))"

definition u_escape :: "nat \<Rightarrow> string" where
  "u_escape n =
     [backslash, CHR ''u'', hex_char (n div 4096 mod 16), hex_char (n div 256 mod 16),
      hex_char (n div 16 mod 16), hex_char (n mod 16)]"

definition escape_piece :: "string \<Rightarrow> string" where
  "escape_piece p =
     (let n = code_point p in
      if n = 34 \<or> n = 92 then backslash # p
      else if n = 10 then [backslash, CHR ''n''] else if n = 13 then [backslash, CHR ''r'']
      else if n = 9 then [backslash, CHR ''t''] else if n = 12 then [backslash, CHR ''f'']
      else if n = 8 then [backslash, CHR ''b'']
      else if 32 \<le> n \<and> n < 127 then p
      else if n < 65536 then u_escape n
      else u_escape (55296 + (n - 65536) div 1024) @ u_escape (56320 + (n - 65536) mod 1024))"

definition json_quote :: "string \<Rightarrow> string" where
  "json_quote s = quote_mark # concat (map (escape_piece \<circ> snd) (utf8_pieces s)) @ [quote_mark]"

fun json_dumps :: "(rat \<Rightarrow> string) \<Rightarrow> pyval \<Rightarrow> string" where
  "json_dumps fl PNone = ''null''"
| "json_dumps fl (PBool b) = (if b then ''true'' else ''false'')"
| "json_dumps fl (PInt i) = str_int i"
| "json_dumps fl (PFloat r) = fl r"
| "json_dumps fl (PStr s) = json_quote s"
| "json_dumps fl (PList vs) = ''['' @ join '', '' (map (json_dumps fl) vs) @ '']''"
| "json_dumps fl (PDict d) =
     ''{'' @ join '', '' (map (\<lambda>(k, v). json_quote k @ '': '' @ json_dumps fl v) d) @ ''}''"


section \<open>Strings read back\<close>

definition ascii :: "string \<Rightarrow> bool" where
  "ascii s = list_all (\<lambda>c. byte c < 128) s"

lemma utf8_step_ascii: "byte c < 128 \<Longrightarrow> utf8_step c cs = (True, 1)"
  by (simp add: utf8_step_def utf8_need_def)

lemma utf8_from_ascii: "ascii s \<Longrightarrow> length s \<le> n \<Longrightarrow> utf8_from n s = map (\<lambda>c. (True, [c])) s"
proof (induction s arbitrary: n)
  case Nil
  then show ?case by (cases n) auto
next
  case (Cons c s)
  then obtain k where "n = Suc k" by (cases n) auto
  with Cons show ?case by (simp add: ascii_def utf8_step_ascii)
qed

lemma utf8_pieces_ascii: "ascii s \<Longrightarrow> utf8_pieces s = map (\<lambda>c. (True, [c])) s"
  by (simp add: utf8_pieces_def utf8_from_ascii)

lemma utf8_decode_ascii: "ascii s \<Longrightarrow> utf8_decode s = Inr s"
  by (simp add: utf8_decode_def utf8_pieces_ascii list_all_iff)

lemma json_quote_ascii:
  "ascii s \<Longrightarrow> json_quote s = quote_mark # concat (map (\<lambda>c. escape_piece [c]) s) @ [quote_mark]"
  by (simp add: json_quote_def utf8_pieces_ascii comp_def)

lemma hex_digit_hex_char: "d < 16 \<Longrightarrow> hex_digit (hex_char d) = Some d"
  by (auto simp: hex_digit_def hex_char_def byte_def Let_def)

lemma hex4_u_escape:
  assumes "n < 65536"
  shows "hex4 (drop 2 (u_escape n) @ r) = Some (n, r)"
proof -
  have "((n div 4096 mod 16 * 16 + n div 256 mod 16) * 16 + n div 16 mod 16) * 16 + n mod 16 = n"
  proof -
    have "n div 256 = n div 16 div 16" "n div 4096 = n div 16 div 16 div 16"
      by (simp_all add: div_mult2_eq [symmetric])
    moreover have "n div 16 div 16 div 16 < 16" using assms by (simp add: div_mult2_eq [symmetric])
    ultimately show ?thesis by (metis div_mult_mod_eq mod_less)
  qed
  moreover have "n div 4096 < 16" using assms by simp
  ultimately show ?thesis by (simp add: u_escape_def hex_digit_hex_char)
qed

lemma byte_inj: "byte c = byte d \<Longrightarrow> c = d"
  unfolding byte_def by (metis char_of_char)

lemma byte_marks: "byte quote_mark = 34" "byte backslash = 92"
  by (simp_all add: byte_def quote_mark_def backslash_def)

lemma quote_not_backslash [simp]: "quote_mark \<noteq> backslash" "backslash \<noteq> quote_mark"
  by (auto simp: byte_marks dest: arg_cong [where f = byte])

lemma mark_chars: "quote_mark = CHR 0x22" "backslash = CHR 0x5C"
  by code_simp+

lemma marks_not_u [simp]: "quote_mark \<noteq> CHR ''u''" "backslash \<noteq> CHR ''u''"
  by code_simp+

lemma simple_escapes:
  assumes "n \<in> {8, 9, 10, 12, 13 :: nat}"
  shows "\<exists>e. escape_piece [char_of n] = [backslash, e] \<and> simple_escape e = Some (char_of n) \<and> e \<noteq> CHR ''u''"
proof -
  have n8: "\<exists>e. escape_piece [char_of (8 :: nat)] = [backslash, e] \<and> simple_escape e = Some (char_of (8 :: nat)) \<and> e \<noteq> CHR ''u''"
    by (rule exI [of _ "CHR ''b''"])
      (simp add: escape_piece_def code_point_def byte_def simple_escape_def mark_chars)
  have n9: "\<exists>e. escape_piece [char_of (9 :: nat)] = [backslash, e] \<and> simple_escape e = Some (char_of (9 :: nat)) \<and> e \<noteq> CHR ''u''"
    by (rule exI [of _ "CHR ''t''"])
      (simp add: escape_piece_def code_point_def byte_def simple_escape_def mark_chars)
  have n10: "\<exists>e. escape_piece [char_of (10 :: nat)] = [backslash, e] \<and> simple_escape e = Some (char_of (10 :: nat)) \<and> e \<noteq> CHR ''u''"
    by (rule exI [of _ "CHR ''n''"])
      (simp add: escape_piece_def code_point_def byte_def simple_escape_def mark_chars)
  have n12: "\<exists>e. escape_piece [char_of (12 :: nat)] = [backslash, e] \<and> simple_escape e = Some (char_of (12 :: nat)) \<and> e \<noteq> CHR ''u''"
    by (rule exI [of _ "CHR ''f''"])
      (simp add: escape_piece_def code_point_def byte_def simple_escape_def mark_chars)
  have n13: "\<exists>e. escape_piece [char_of (13 :: nat)] = [backslash, e] \<and> simple_escape e = Some (char_of (13 :: nat)) \<and> e \<noteq> CHR ''u''"
    by (rule exI [of _ "CHR ''r''"])
      (simp add: escape_piece_def code_point_def byte_def simple_escape_def mark_chars)
  from assms show ?thesis
    by (elim insertE emptyE) (simp_all only: n8 n9 n10 n12 n13)
qed

lemma unicode_escape_ascii:
  assumes "byte c < 128"
  shows "unicode_escape (drop 2 (u_escape (byte c)) @ r) = Some ([c], r)"
  using hex4_u_escape [of "byte c" r] assms
  by (simp add: unicode_escape_def utf8_encode_def) (simp add: byte_def)

lemma json_str_escape:
  assumes "byte c < 128"
  shows "json_str (Suc n) (escape_piece [c] @ t) = map_option (\<lambda>(u, z). (c # u, z)) (json_str n t)"
proof -
  have c: "c = char_of (byte c)" by (simp add: byte_def)
  consider "byte c \<in> {34, 92}" | "byte c \<in> {8, 9, 10, 12, 13}"
    | "32 \<le> byte c" "byte c < 127" "byte c \<notin> {34, 92}"
    | "byte c < 32 \<or> byte c = 127" "byte c \<notin> {8, 9, 10, 12, 13}"
    using assms by fastforce
  then show ?thesis
  proof cases
    case 1
    then have "c = quote_mark \<or> c = backslash"
      using byte_inj [of c] byte_marks by auto
    then show ?thesis using byte_marks
      by (auto simp: escape_piece_def code_point_def simple_escape_def)
  next
    case 2
    then obtain e where "escape_piece [c] = [backslash, e]" "simple_escape e = Some c" "e \<noteq> CHR ''u''"
      using simple_escapes [of "byte c"] c by metis
    then show ?thesis using byte_marks by simp
  next
    case 3
    then have "c \<noteq> quote_mark" "c \<noteq> backslash" using byte_marks by auto
    with 3 show ?thesis by (simp add: escape_piece_def code_point_def)
  next
    case 4
    then have e: "escape_piece [c] = backslash # CHR ''u'' # drop 2 (u_escape (byte c))"
      using assms by (auto simp: escape_piece_def code_point_def u_escape_def Let_def)
    show ?thesis unfolding e using unicode_escape_ascii [OF assms, of t] byte_marks by simp
  qed
qed

lemma json_str_quoted:
  "ascii s \<Longrightarrow> length s < n \<Longrightarrow>
   json_str n (concat (map (\<lambda>c. escape_piece [c]) s) @ quote_mark # r) = Some (s, r)"
proof (induction s arbitrary: n)
  case Nil
  then show ?case by (cases n) auto
next
  case (Cons c s)
  then obtain k where "n = Suc k" by (cases n) auto
  with Cons show ?case by (simp add: ascii_def json_str_escape)
qed

lemma escape_piece_nonempty: "escape_piece [c] \<noteq> []"
  by (simp add: escape_piece_def u_escape_def Let_def)

lemma length_escaped: "length s \<le> length (concat (map (\<lambda>c. escape_piece [c]) s))"
proof (induction s)
  case (Cons c s)
  then show ?case using escape_piece_nonempty [of c] by (cases "escape_piece [c]") auto
qed simp

lemma json_str_json_quote:
  assumes "ascii s"
  shows "json_quote s @ r = quote_mark # tl (json_quote s) @ r"
    and "json_str (length (json_quote s @ r)) (tl (json_quote s) @ r) = Some (s, r)"
  using assms length_escaped [of s] by (simp_all add: json_quote_ascii json_str_quoted)


section \<open>Values read back\<close>

text \<open>What may follow a value inside a text.\<close>

definition delimited :: "string \<Rightarrow> bool" where
  "delimited r \<longleftrightarrow> r = [] \<or> hd r \<in> {CHR '','', CHR '']'', CHR ''}''}"

lemma delimited_simps [simp]:
  "delimited []" "delimited (CHR '','' # r)" "delimited (CHR '']'' # r)" "delimited (CHR ''}'' # r)"
  by (simp_all add: delimited_def)

lemma delimited_not_digit: "delimited r \<Longrightarrow> takeWhile is_digit r = [] \<and> json_frac r = ([], r) \<and> json_exp r = (None, r)"
  by (cases r) (auto simp: delimited_def json_frac_def json_exp_def is_digit_def)

lemma takeWhile_digits:
  assumes "list_all is_digit ds" "delimited r"
  shows "takeWhile is_digit (ds @ r) = ds"
  using assms delimited_not_digit [of r] by (simp add: takeWhile_append list_all_iff)

lemma digit_zero: "digits_val 0 ''0'' = 0"
  by simp

lemma str_nat_hd: "\<exists>d ds. str_nat n = d # ds \<and> is_digit d \<and> (d = CHR ''0'' \<longrightarrow> ds = [])"
proof (induction n rule: str_nat.induct)
  case (1 n)
  show ?case
  proof (cases "n < 10")
    case True
    then show ?thesis by (subst str_nat.simps) (simp add: is_digit_digit_char)
  next
    case False
    then obtain d ds where d: "str_nat (n div 10) = d # ds" "is_digit d" "d = CHR ''0'' \<longrightarrow> ds = []"
      using 1 by auto
    moreover have "str_nat (n div 10) \<noteq> ''0''"
    proof
      assume "str_nat (n div 10) = ''0''"
      then have "n div 10 = 0" by (metis digits_val_str_nat digit_zero)
      with False show False by simp
    qed
    ultimately show ?thesis using False by (subst str_nat.simps) auto
  qed
qed

lemma json_number_nat:
  assumes "delimited r"
  shows "json_number (str_nat n @ r) = Some (PInt (int n), r)"
proof -
  obtain d ds where d: "str_nat n = d # ds" "is_digit d" "d = CHR ''0'' \<longrightarrow> ds = []"
    using str_nat_hd by blast
  have ne: "d \<noteq> CHR ''-''" using d(2) by (auto simp: is_digit_def)
  have t: "takeWhile is_digit (str_nat n @ r) = str_nat n"
    by (rule takeWhile_digits [OF str_nat_digits assms])
  have "(if d = CHR ''0'' then [d] else takeWhile is_digit (d # ds @ r)) = d # ds"
    using d t by simp
  then show ?thesis
    using d ne delimited_not_digit [OF assms] digits_val_str_nat [of n]
    by (simp add: json_number_def Let_def del: takeWhile.simps)
qed

lemma json_number_neg:
  assumes "delimited r" "n > 0"
  shows "json_number (CHR ''-'' # str_nat n @ r) = Some (PInt (- int n), r)"
proof -
  obtain d ds where d: "str_nat n = d # ds" "is_digit d" "d = CHR ''0'' \<longrightarrow> ds = []"
    using str_nat_hd by blast
  have t: "takeWhile is_digit (str_nat n @ r) = str_nat n"
    by (rule takeWhile_digits [OF str_nat_digits assms(1)])
  have "(if d = CHR ''0'' then [d] else takeWhile is_digit (d # ds @ r)) = d # ds"
    using d t by simp
  then show ?thesis
    using d delimited_not_digit [OF assms(1)] digits_val_str_nat [of n]
    by (simp add: json_number_def Let_def del: takeWhile.simps)
qed


text \<open>Values that \<open>json.dumps\<close> writes without loss in this model: no floats, ASCII strings, distinct
  keys.\<close>

fun dumpable :: "pyval \<Rightarrow> bool" where
  "dumpable (PFloat r) = False"
| "dumpable (PStr s) = ascii s"
| "dumpable (PList vs) = list_all dumpable vs"
| "dumpable (PDict d) = (distinct (map fst d) \<and> list_all (\<lambda>(k, v). ascii k \<and> dumpable v) d)"
| "dumpable _ = True"

text \<open>The fuel that reading a value takes.\<close>

fun json_depth :: "pyval \<Rightarrow> nat" where
  "json_depth (PList vs) = Suc (sum_list (map (\<lambda>v. Suc (json_depth v)) vs))"
| "json_depth (PDict d) = Suc (sum_list (map (\<lambda>(k, v). Suc (json_depth v)) d))"
| "json_depth _ = 1"

definition number_start :: "char \<Rightarrow> bool" where
  "number_start c \<longleftrightarrow> is_digit c \<or> c = CHR ''-''"

lemma number_start_other:
  "number_start c \<Longrightarrow> c \<noteq> quote_mark \<and> c \<noteq> CHR ''{'' \<and> c \<noteq> CHR ''['' \<and> c \<noteq> CHR ''n'' \<and> c \<noteq> CHR ''t'' \<and>
     c \<noteq> CHR ''f'' \<and> c \<noteq> CHR '']'' \<and> c \<noteq> CHR ''}'' \<and> byte c \<notin> {32, 9, 10, 13}"
  by (auto simp: number_start_def is_digit_def mark_chars byte_def)

lemma str_int_start: "\<exists>c cs. str_int i = c # cs \<and> number_start c"
  using str_nat_hd [of "nat i"] by (auto simp: str_int_def number_start_def)

lemma json_number_int: "delimited r \<Longrightarrow> json_number (str_int i @ r) = Some (PInt i, r)"
  using json_number_nat [of r "nat i"] json_number_neg [of r "nat (- i)"] by (simp add: str_int_def)

lemma json_value_int:
  assumes "delimited r"
  shows "json_value (Suc n) (str_int i @ r) = Some (PInt i, r)"
proof -
  obtain c cs where c: "str_int i = c # cs" "number_start c" using str_int_start by blast
  show ?thesis using number_start_other [OF c(2)] json_number_int [OF assms, of i] c(1) by simp
qed

lemma json_value_string:
  assumes "ascii s"
  shows "json_value (Suc n) (json_quote s @ r) = Some (PStr s, r)"
  using json_str_json_quote(2) [OF assms, of r] json_str_json_quote(1) [OF assms, of r]
  by (cases "json_quote s") (simp_all add: json_quote_def)

lemma skip_ws_other: "byte c \<notin> {32, 9, 10, 13} \<Longrightarrow> skip_ws (c # cs) = c # cs"
  by (simp add: skip_ws_def)

lemma skip_ws_simps [simp]:
  "skip_ws [] = []" "skip_ws (CHR '','' # r) = CHR '','' # r" "skip_ws (CHR '']'' # r) = CHR '']'' # r"
  "skip_ws (CHR ''}'' # r) = CHR ''}'' # r" "skip_ws (CHR '':'' # r) = CHR '':'' # r"
  "skip_ws (CHR '' '' # r) = skip_ws r"
  by (simp_all add: skip_ws_def byte_def)

lemma dumps_start:
  assumes "dumpable v"
  shows "\<exists>c cs. json_dumps fl v = c # cs \<and> c \<noteq> CHR '']'' \<and> byte c \<notin> {32, 9, 10, 13}"
proof (cases v)
  case (PInt i)
  then show ?thesis using str_int_start [of i] number_start_other by fastforce
qed (use assms in \<open>auto simp: json_quote_def mark_chars byte_def\<close>)

lemma skip_ws_dumps: "dumpable v \<Longrightarrow> skip_ws (json_dumps fl v @ r) = json_dumps fl v @ r"
  using dumps_start [of v fl] by (auto simp: skip_ws_other)

lemma skip_ws_quote: "skip_ws (json_quote s @ r) = json_quote s @ r"
  by (simp add: json_quote_def skip_ws_other byte_marks)

lemma dict_update_fresh:
  "distinct (map fst (d @ e)) \<Longrightarrow> dict_update d e = d @ e"
proof (induction e arbitrary: d)
  case (Cons p e)
  obtain k v where p: "p = (k, v)" by fastforce
  have "AList.update k v d = d @ [(k, v)]"
    using Cons.prems p by (induction d) auto
  with Cons p show ?case by simp
qed simp

lemma json_elems_dumps:
  assumes "vs \<noteq> []" "list_all dumpable vs"
    and "\<And>v n r. v \<in> set vs \<Longrightarrow> json_depth v \<le> n \<Longrightarrow> delimited r \<Longrightarrow> json_value n (json_dumps fl v @ r) = Some (v, r)"
    and "sum_list (map (\<lambda>v. Suc (json_depth v)) vs) \<le> n"
  shows "json_elems n (join '', '' (map (json_dumps fl) vs) @ CHR '']'' # r) = Some (vs, r)"
  using assms
proof (induction vs arbitrary: n)
  case Nil
  then show ?case by simp
next
  case (Cons v vs)
  then obtain k where n: "n = Suc k" by (cases n) auto
  show ?case
  proof (cases vs)
    case Nil
    then show ?thesis using Cons.prems n by simp
  next
    case (Cons w ws)
    have "json_elems k (join '', '' (map (json_dumps fl) vs) @ CHR '']'' # r) = Some (vs, r)"
      using Cons.IH Cons.prems n Cons by simp
    moreover have "skip_ws (join '', '' (map (json_dumps fl) vs) @ CHR '']'' # r) =
        join '', '' (map (json_dumps fl) vs) @ CHR '']'' # r"
      using Cons Cons.prems(2) by (cases ws) (simp_all add: skip_ws_dumps)
    ultimately show ?thesis using Cons.prems n Cons by simp
  qed
qed


text \<open>One member of an object, and the members.\<close>

abbreviation dump_member :: "(rat \<Rightarrow> string) \<Rightarrow> string \<times> pyval \<Rightarrow> string" where
  "dump_member fl \<equiv> \<lambda>(k, v). json_quote k @ '': '' @ json_dumps fl v"

lemma json_members_Suc:
  assumes "ascii k" "dumpable v" "json_value n (json_dumps fl v @ r) = Some (v, r)"
  shows "json_members (Suc n) (dump_member fl (k, v) @ r) =
    (case skip_ws r of
       d # r3 \<Rightarrow> if d = CHR ''}'' then Some ([(k, v)], r3)
                else if d = CHR '','' then map_option (\<lambda>(ms, z). ((k, v) # ms, z)) (json_members n (skip_ws r3))
                else None
     | [] \<Rightarrow> None)"
proof -
  let ?t = "'': '' @ json_dumps fl v @ r"
  obtain cs where q: "json_quote k = quote_mark # cs" by (simp add: json_quote_def)
  have "json_str (length (json_quote k @ ?t)) (tl (json_quote k) @ ?t) = Some (k, ?t)"
    by (rule json_str_json_quote [OF assms(1)])
  then show ?thesis using assms(2,3) by (simp add: q skip_ws_dumps)
qed

lemma json_members_dumps:
  assumes "d \<noteq> []" "list_all (\<lambda>(k, v). ascii k \<and> dumpable v) d"
    and "\<And>k v n r. (k, v) \<in> set d \<Longrightarrow> json_depth v \<le> n \<Longrightarrow> delimited r \<Longrightarrow>
           json_value n (json_dumps fl v @ r) = Some (v, r)"
    and "sum_list (map (\<lambda>(k, v). Suc (json_depth v)) d) \<le> n"
  shows "json_members n (join '', '' (map (dump_member fl) d) @ CHR ''}'' # r) = Some (d, r)"
  using assms
proof (induction d arbitrary: n)
  case Nil
  then show ?case by simp
next
  case (Cons p d)
  obtain k v where p: "p = (k, v)" by fastforce
  from Cons.prems(4) p obtain m where n: "n = Suc m" by (cases n) auto
  have kv: "ascii k" "dumpable v" using Cons.prems(2) p by auto
  have val: "delimited r' \<Longrightarrow> json_value m (json_dumps fl v @ r') = Some (v, r')" for r'
    using Cons.prems(3) [of k v m r'] Cons.prems(4) p n by simp
  show ?case
  proof (cases d)
    case Nil
    then show ?thesis using json_members_Suc [OF kv val [of "CHR ''}'' # r"]] p n by simp
  next
    case (Cons w ws)
    let ?rest = "join '', '' (map (dump_member fl) d) @ CHR ''}'' # r"
    have "json_members m ?rest = Some (d, r)"
    proof (rule Cons.IH)
      show "d \<noteq> []" "list_all (\<lambda>(k, v). ascii k \<and> dumpable v) d"
        "sum_list (map (\<lambda>(k, v). Suc (json_depth v)) d) \<le> m"
        using Cons Cons.prems(2,4) n p by auto
      show "json_value n' (json_dumps fl v' @ r') = Some (v', r')"
        if "(k', v') \<in> set d" "json_depth v' \<le> n'" "delimited r'" for k' v' n' r'
        using that Cons.prems(3) [of k' v' n' r'] by simp
    qed
    moreover have "skip_ws ?rest = ?rest"
      using Cons by (cases ws) (simp_all add: skip_ws_quote split: prod.splits)
    ultimately show ?thesis
      using json_members_Suc [OF kv val [of "CHR '','' # CHR '' '' # ?rest"]] p n Cons by simp
  qed
qed

lemma json_value_dumps:
  "dumpable v \<Longrightarrow> json_depth v \<le> n \<Longrightarrow> delimited r \<Longrightarrow> json_value n (json_dumps fl v @ r) = Some (v, r)"
proof (induction v arbitrary: n r)
  case (PList vs)
  then obtain m where n: "n = Suc m" by (cases n) auto
  show ?case
  proof (cases vs)
    case Nil
    then show ?thesis using n by (simp add: mark_chars)
  next
    case (Cons w ws)
    have "json_elems m (join '', '' (map (json_dumps fl) vs) @ CHR '']'' # r) = Some (vs, r)"
      by (rule json_elems_dumps) (use PList n Cons in \<open>auto simp: list_all_iff\<close>)
    moreover obtain c cs where "json_dumps fl w = c # cs" "c \<noteq> CHR '']''" "byte c \<notin> {32, 9, 10, 13}"
      using dumps_start [of w fl] PList.prems(1) Cons by auto
    ultimately show ?thesis
      using n Cons by (cases ws) (simp_all add: mark_chars skip_ws_other)
  qed
next
  case (PDict d)
  then obtain m where n: "n = Suc m" by (cases n) auto
  show ?case
  proof (cases d)
    case Nil
    then show ?thesis using n by (simp add: mark_chars)
  next
    case (Cons w ws)
    have "json_members m (join '', '' (map (dump_member fl) d) @ CHR ''}'' # r) = Some (d, r)"
    proof (rule json_members_dumps)
      show "d \<noteq> []" "list_all (\<lambda>(k, v). ascii k \<and> dumpable v) d"
        "sum_list (map (\<lambda>(k, v). Suc (json_depth v)) d) \<le> m"
        using PDict.prems n Cons by auto
      show "json_value n' (json_dumps fl v' @ r') = Some (v', r')"
        if "(k', v') \<in> set d" "json_depth v' \<le> n'" "delimited r'" for k' v' n' r'
        using PDict.IH [of "(k', v')" v' n' r'] that PDict.prems(1) by (auto simp: list_all_iff)
    qed
    moreover have "dict_update [] d = d" using dict_update_fresh [of "[]" d] PDict.prems(1) by simp
    moreover obtain c cs where "dump_member fl w = quote_mark # cs"
      by (cases w) (simp add: json_quote_def)
    ultimately show ?thesis
      using n Cons by (cases ws) (simp_all add: mark_chars skip_ws_other byte_def split: prod.splits)
  qed
next
  case (PStr s)
  then show ?case by (cases n) (simp_all add: json_value_string del: json_value.simps(2))
next
  case (PInt i)
  then show ?case by (cases n) (simp_all add: json_value_int del: json_value.simps(2))
qed (auto simp: mark_chars Suc_le_eq gr0_conv_Suc)

lemma length_join: "length (join '', '' xs) = sum_list (map length xs) + 2 * (length xs - 1)"
  by (induction "'', ''" xs rule: join.induct) auto

lemma sum_list_Suc: "sum_list (map (\<lambda>x. Suc (f x)) xs) = sum_list (map f xs) + length xs"
  by (induction xs) auto

lemma json_depth_length: "dumpable v \<Longrightarrow> json_depth v \<le> length (json_dumps fl v)"
proof (induction v)
  case (PInt i)
  then show ?case using str_int_start [of i] by auto
next
  case (PList vs)
  have "sum_list (map json_depth vs) \<le> sum_list (map (length \<circ> json_dumps fl) vs)"
    by (rule sum_list_mono) (use PList in \<open>auto simp: list_all_iff\<close>)
  then show ?case by (cases vs) (simp_all add: length_join sum_list_Suc)
next
  case (PDict d)
  have "sum_list (map (json_depth \<circ> snd) d) \<le> sum_list (map (length \<circ> dump_member fl) d)"
    by (rule sum_list_mono) (use PDict in \<open>fastforce simp: list_all_iff intro: trans_le_add2\<close>)
  moreover have "sum_list (map (\<lambda>(k, v). Suc (json_depth v)) d) = sum_list (map (json_depth \<circ> snd) d) + length d"
    using sum_list_Suc [of "json_depth \<circ> snd" d] by (simp add: case_prod_beta' comp_def)
  ultimately show ?case by (cases "d = []") (simp_all add: length_join Suc_le_eq)
qed (simp_all add: json_quote_def)

text \<open>Only ASCII is written.\<close>

lemma ascii_simps [simp]:
  "ascii []" "ascii (c # cs) \<longleftrightarrow> byte c < 128 \<and> ascii cs" "ascii (s @ t) \<longleftrightarrow> ascii s \<and> ascii t"
  by (simp_all add: ascii_def)

lemma ascii_concat: "(\<And>s. s \<in> set ss \<Longrightarrow> ascii s) \<Longrightarrow> ascii (concat ss)"
  by (induction ss) auto

lemma ascii_join: "(\<And>s. s \<in> set ss \<Longrightarrow> ascii s) \<Longrightarrow> ascii sep \<Longrightarrow> ascii (join sep ss)"
  by (induction sep ss rule: join.induct) auto

lemma byte_hex_char: "d < 16 \<Longrightarrow> byte (hex_char d) < 128"
  by (simp add: byte_def hex_char_def)

lemma ascii_u_escape: "ascii (u_escape n)"
  by (simp add: u_escape_def byte_hex_char) (simp add: byte_def mark_chars)

lemma ascii_escape_piece: "byte c < 128 \<Longrightarrow> ascii (escape_piece [c])"
  by (auto simp: escape_piece_def Let_def ascii_u_escape code_point_def byte_marks) (simp_all add: byte_def)

lemma ascii_json_quote: "ascii s \<Longrightarrow> ascii (json_quote s)"
proof -
  assume s: "ascii s"
  then have "ascii (concat (map (\<lambda>c. escape_piece [c]) s))"
    by (induction s) (simp_all add: ascii_escape_piece)
  with s show ?thesis by (simp add: json_quote_ascii byte_marks)
qed

lemma ascii_str_int: "ascii (str_int i)"
proof -
  have "ascii (str_nat n)" for n
    using str_nat_digits [of n] by (fastforce simp: ascii_def list_all_iff is_digit_def byte_def Let_def)
  then show ?thesis by (simp add: str_int_def byte_def)
qed

lemma ascii_dumps: "dumpable v \<Longrightarrow> ascii (json_dumps fl v)"
proof (induction v)
  case (PList vs)
  then show ?case by (auto simp: list_all_iff byte_def intro!: ascii_join)
next
  case (PDict d)
  have "ascii (dump_member fl p)" if "p \<in> set d" for p
    using PDict that by (cases p) (fastforce simp: list_all_iff ascii_json_quote byte_def)
  then show ?case by (auto simp: byte_def intro!: ascii_join)
qed (auto simp: byte_def ascii_str_int ascii_json_quote)

text \<open>Reading back what was written.\<close>

lemma json_loads_dumps:
  assumes "dumpable v"
  shows "json_loads (json_dumps fl v) = Inr v"
proof -
  have "json_value (Suc (length (json_dumps fl v))) (json_dumps fl v @ []) = Some (v, [])"
    using assms json_depth_length [OF assms, of fl] by (intro json_value_dumps) auto
  then show ?thesis using skip_ws_dumps [OF assms, of fl "[]"] by (simp add: json_loads_def)
qed

end
