(* ===== verification/Label_Sources.thy ===== *)
theory Label_Sources
  imports Metric_Labels Py_Json "HOL-Library.Multiset"
begin

text \<open>
  How \<open>scripts/check_metric_labels.py\<close> gets its texts: the files of the repository are a list of paths, as lists of
  their parts below the root, with their bytes, in the order in which the directories happen to be read. Files with
  the suffix \<open>.nim\<close> below the scanned directories are read in the order of their paths, decoded with replacement
  characters, and with line ends made uniform.
\<close>

type_synonym tree = "(string list \<times> string) list"

definition SCAN :: "string list" where
  "SCAN = [''logos_delivery'', ''apps'', ''library'']"

definition is_nim :: "string \<Rightarrow> string list \<Rightarrow> bool" where
  "is_nim d path \<longleftrightarrow> (case path of [] \<Rightarrow> False | p # ps \<Rightarrow> p = d \<and> ps \<noteq> [] \<and> endswith (last ps) ''.nim'')"

definition nim_files :: "tree \<Rightarrow> tree" where
  "nim_files files = concat (map (\<lambda>d. sort_key fst (filter (\<lambda>(path, _). is_nim d path) files)) SCAN)"

definition read_texts :: "tree \<Rightarrow> texts" where
  "read_texts files = map (\<lambda>(path, raw). (join ''/'' path, universal_newlines (utf8_decode_replace raw))) (nim_files files)"

definition check_metric_labels :: "tree \<Rightarrow> bool \<Rightarrow> string option \<Rightarrow> int \<times> string option \<times> string list" where
  "check_metric_labels files update allowlist = main (read_texts files) update allowlist"

section \<open>Properties\<close>

lemma sort_paths_unique:
  assumes "distinct (map fst xs)" "distinct (map fst ys)" "set xs = set ys"
  shows "sort_key fst xs = sort_key fst (ys :: tree)"
  by (rule map_sorted_distinct_set_unique [where f = fst])
    (use assms in \<open>simp_all add: distinct_map\<close>)

text \<open>The answer of the linter does not depend on the order in which directories list their entries.\<close>

lemma nim_files_order:
  assumes "distinct (map fst files)" "mset files' = mset files"
  shows "nim_files files' = nim_files files"
proof -
  have d: "distinct (map fst files')" using assms by (metis mset_eq_imp_distinct_iff mset_map)
  have "sort_key fst (filter (\<lambda>(path, _). is_nim k path) files') = sort_key fst (filter (\<lambda>(path, _). is_nim k path) files)" for k
    using d assms(1) mset_eq_setD [OF assms(2)] by (intro sort_paths_unique) (auto simp: distinct_map_filter)
  then show ?thesis by (simp add: nim_files_def)
qed

lemma check_metric_labels_order:
  assumes "distinct (map fst files)" "mset files' = mset files"
  shows "check_metric_labels files' update allowlist = check_metric_labels files update allowlist"
  using nim_files_order [OF assms] by (simp add: check_metric_labels_def read_texts_def)

text \<open>A file outside the scanned directories, or of another kind, has no effect.\<close>

lemma other_files_ignored:
  assumes "list_all (\<lambda>d. \<not> is_nim d path) SCAN"
  shows "check_metric_labels ((path, raw) # files) update allowlist = check_metric_labels files update allowlist"
  using assms by (simp add: check_metric_labels_def read_texts_def nim_files_def SCAN_def)

end
