(* ===== verification/Py_Poll.thy ===== *)
theory Py_Poll
  imports Py_Prelude
begin

text \<open>
  Polling loops. What a loop sees is indexed by the number of the poll: \<open>look k\<close> is the outcome of
  the \<open>k\<close>-th look at the shared state (another thread changes it between polls) and \<open>clk k\<close> the
  \<open>k\<close>-th reading of the clock. A loop that never ends is the value \<open>None\<close>. The two forms are a
  loop that looks first and then tests the deadline, and one that tests the deadline first.
\<close>

section \<open>Loops\<close>

partial_function (option) look_then_test ::
    "(nat \<Rightarrow> 'a option res) \<Rightarrow> (nat \<Rightarrow> rat) \<Rightarrow> rat \<Rightarrow> nat \<Rightarrow> 'a option res option" where
  "look_then_test look clk deadline k =
     (case look k of
        Inl e \<Rightarrow> Some (Inl e)
      | Inr (Some a) \<Rightarrow> Some (Inr (Some a))
      | Inr None \<Rightarrow> if deadline \<le> clk k then Some (Inr None) else look_then_test look clk deadline (Suc k))"

partial_function (option) test_then_look ::
    "(nat \<Rightarrow> 'a option res) \<Rightarrow> (nat \<Rightarrow> rat) \<Rightarrow> rat \<Rightarrow> nat \<Rightarrow> 'a option res option" where
  "test_then_look look clk deadline k =
     (if clk k < deadline then
        (case look k of
           Inl e \<Rightarrow> Some (Inl e)
         | Inr (Some a) \<Rightarrow> Some (Inr (Some a))
         | Inr None \<Rightarrow> test_then_look look clk deadline (Suc k))
      else Some (Inr None))"

declare look_then_test.simps [code] test_then_look.simps [code]

text \<open>A clock between whose readings the loop sleeps for \<open>step\<close>.\<close>

definition sleeps :: "rat \<Rightarrow> (nat \<Rightarrow> rat) \<Rightarrow> bool" where
  "sleeps step clk \<longleftrightarrow> 0 < step \<and> (\<forall>k. clk k + step \<le> clk (Suc k))"

section \<open>Termination and meaning\<close>

lemma sleeps_at_least: "sleeps step clk \<Longrightarrow> clk 0 + of_nat k * step \<le> clk k"
proof (induction k)
  case 0
  then show ?case by simp
next
  case (Suc k)
  then have "clk k + step \<le> clk (Suc k)" by (simp add: sleeps_def)
  with Suc show ?case by (simp add: algebra_simps)
qed

lemma sleeps_passes:
  assumes "sleeps step clk"
  shows "\<exists>k. deadline \<le> clk k"
proof -
  obtain k where "deadline - clk 0 \<le> of_nat k * step"
    using assms ex_less_of_nat_mult [of step "deadline - clk 0"] by (auto simp: sleeps_def intro: less_imp_le)
  then show ?thesis using sleeps_at_least [OF assms, of k] by (intro exI [of _ k]) linarith
qed

lemma sleeps_mono: "sleeps step clk \<Longrightarrow> i \<le> j \<Longrightarrow> clk i \<le> clk j"
proof (induction j)
  case (Suc j)
  then have "clk j + step \<le> clk (Suc j)" "0 < step" by (auto simp: sleeps_def)
  with Suc show ?case by (cases "i = Suc j") auto
qed simp

text \<open>The poll at which a loop stops: the first look that is not empty-handed or the first deadline
  test that succeeds.\<close>

lemma look_then_test_first:
  assumes "\<And>i. i < n \<Longrightarrow> look (k + i) = Inr None \<and> clk (k + i) < deadline"
  shows "look_then_test look clk deadline k = look_then_test look clk deadline (k + n)"
  using assms
proof (induction n arbitrary: k)
  case (Suc n)
  have "look k = Inr None" "clk k < deadline" using Suc.prems [of 0] by auto
  moreover have "look_then_test look clk deadline (Suc k) = look_then_test look clk deadline (Suc k + n)"
    using Suc.prems by (intro Suc.IH) (metis Suc_mono add_Suc add_Suc_right)
  ultimately show ?case by (subst look_then_test.simps) simp
qed simp

lemma test_then_look_first:
  assumes "\<And>i. i < n \<Longrightarrow> look (k + i) = Inr None \<and> clk (k + i) < deadline"
  shows "test_then_look look clk deadline k = test_then_look look clk deadline (k + n)"
  using assms
proof (induction n arbitrary: k)
  case (Suc n)
  have "look k = Inr None" "clk k < deadline" using Suc.prems [of 0] by auto
  moreover have "test_then_look look clk deadline (Suc k) = test_then_look look clk deadline (Suc k + n)"
    using Suc.prems by (intro Suc.IH) (metis Suc_mono add_Suc add_Suc_right)
  ultimately show ?case by (subst test_then_look.simps) simp
qed simp

lemma look_then_test_spec:
  assumes "sleeps step clk"
  shows "\<exists>n. (\<forall>i < n. look i = Inr None \<and> clk i < deadline) \<and>
    (look n \<noteq> Inr None \<and> look_then_test look clk deadline 0 = Some (look n) \<or>
     look n = Inr None \<and> deadline \<le> clk n \<and> look_then_test look clk deadline 0 = Some (Inr None))"
proof -
  let ?stop = "\<lambda>n. look n \<noteq> Inr None \<or> deadline \<le> clk n"
  obtain n where n: "?stop n" and least: "\<And>i. i < n \<Longrightarrow> \<not> ?stop i"
    using sleeps_passes [OF assms] exists_least_iff [of ?stop] by blast
  have "look_then_test look clk deadline 0 = look_then_test look clk deadline n"
    using look_then_test_first [of n look 0 clk deadline] least by (simp add: not_le)
  moreover have "look_then_test look clk deadline n = Some (look n)"
    if "look n \<noteq> Inr None"
    using that by (subst look_then_test.simps) (auto split: sum.splits option.splits)
  moreover have "look_then_test look clk deadline n = Some (Inr None)"
    if "look n = Inr None" "deadline \<le> clk n"
    using that by (subst look_then_test.simps) simp
  ultimately show ?thesis using n least by (intro exI [of _ n]) (auto simp: not_le)
qed

lemma test_then_look_spec:
  assumes "sleeps step clk"
  shows "\<exists>n. (\<forall>i < n. look i = Inr None \<and> clk i < deadline) \<and>
    (clk n < deadline \<and> look n \<noteq> Inr None \<and> test_then_look look clk deadline 0 = Some (look n) \<or>
     deadline \<le> clk n \<and> test_then_look look clk deadline 0 = Some (Inr None))"
proof -
  let ?stop = "\<lambda>n. look n \<noteq> Inr None \<or> deadline \<le> clk n"
  obtain n where n: "?stop n" and least: "\<And>i. i < n \<Longrightarrow> \<not> ?stop i"
    using sleeps_passes [OF assms] exists_least_iff [of ?stop] by blast
  have "test_then_look look clk deadline 0 = test_then_look look clk deadline n"
    using test_then_look_first [of n look 0 clk deadline] least by (simp add: not_le)
  moreover have "test_then_look look clk deadline n = Some (look n)"
    if "look n \<noteq> Inr None" "clk n < deadline"
    using that by (subst test_then_look.simps) (auto split: sum.splits option.splits)
  moreover have "test_then_look look clk deadline n = Some (Inr None)"
    if "deadline \<le> clk n"
    using that by (subst test_then_look.simps) simp
  ultimately show ?thesis using n least
    by (intro exI [of _ n]) (cases "clk n < deadline", auto simp: not_le not_less)
qed

section \<open>Logs that only grow\<close>

lemma find_append: "List.find p (xs @ ys) = (case List.find p xs of Some x \<Rightarrow> Some x | None \<Rightarrow> List.find p ys)"
  by (induction xs) auto

text \<open>The interface of a shared log: what a poller sees at a later poll extends what it saw before.\<close>

locale growing_log =
  fixes snap :: "nat \<Rightarrow> 'e list"
  assumes grows: "prefix (snap k) (snap (Suc k))"
begin

lemma snap_prefix: "i \<le> j \<Longrightarrow> prefix (snap i) (snap j)"
  by (induction j) (auto simp: le_Suc_eq intro: prefix_order.trans grows)

lemma snap_mono: "i \<le> j \<Longrightarrow> set (snap i) \<subseteq> set (snap j)"
  using snap_prefix set_mono_prefix by blast

text \<open>The first match never changes once there is one.\<close>

lemma find_stable:
  assumes "i \<le> j" "List.find p (snap i) = Some e"
  shows "List.find p (snap j) = Some e"
proof -
  obtain t where "snap j = snap i @ t" using snap_prefix [OF assms(1)] by (auto simp: prefix_def)
  with assms(2) show ?thesis by (simp add: find_append)
qed

lemma find_None_back: "i \<le> j \<Longrightarrow> List.find p (snap j) = None \<Longrightarrow> List.find p (snap i) = None"
  using find_stable by (metis option.exhaust option.simps(3))

end

end
