(* ===== verification/Wrapper_Helpers.thy ===== *)
theory Wrapper_Helpers
  imports Py_Json Py_Poll Py_Codec Py_Regex
begin

text \<open>
  \<open>tests-e2e/src/node/wrapper_helpers.py\<close>: the collector of library events, the functions that wait
  for an event, the invariants of the events of one request, and the readers of addresses and ports.
  The lock of the collector makes every append and every read one atomic step, so the shared state
  is the list of events, and a waiting loop sees one value of it per poll. A node is the function
  \<open>get_node_info\<close> of the language bindings, which are not part of the sources.
\<close>

section \<open>Constants\<close>

definition DEFAULT_CONTENT_TOPIC :: string where "DEFAULT_CONTENT_TOPIC = ''/test/1/default/proto''"
definition DEFAULT_PAYLOAD :: string where "DEFAULT_PAYLOAD = b64encode ''test payload''"
definition EVENT_PROPAGATED :: string where "EVENT_PROPAGATED = ''message_propagated''"
definition EVENT_SENT :: string where "EVENT_SENT = ''message_sent''"
definition EVENT_ERROR :: string where "EVENT_ERROR = ''message_error''"
definition EVENT_CHANNEL_RECEIVED :: string where "EVENT_CHANNEL_RECEIVED = ''channel_message_received''"
definition EVENT_CHANNEL_ERROR :: string where "EVENT_CHANNEL_ERROR = ''channel_message_error''"
definition EVENT_TOPIC_HEALTH_CHANGE :: string where "EVENT_TOPIC_HEALTH_CHANGE = ''relay_topic_health_change''"
definition MESH_TOPIC_HEALTH :: "string list" where
  "MESH_TOPIC_HEALTH = [''MinimallyHealthy'', ''SufficientlyHealthy'']"
definition MAX_TIME_IN_CACHE_S :: rat where "MAX_TIME_IN_CACHE_S = 60"
definition CACHE_EXPIRY_SLACK_S :: rat where "CACHE_EXPIRY_SLACK_S = 10"
definition ERROR_AFTER_CACHE_EXPIRY_TIMEOUT_S :: rat where
  "ERROR_AFTER_CACHE_EXPIRY_TIMEOUT_S = MAX_TIME_IN_CACHE_S + CACHE_EXPIRY_SLACK_S"
definition RETRY_WINDOW_EXPIRED_MSG :: string where
  "RETRY_WINDOW_EXPIRED_MSG = ''Unable to send within retry time window''"
definition STORE_VALIDATION_TIMEOUT_MSG :: string where
  "STORE_VALIDATION_TIMEOUT_MSG =
     ''Propagated but not confirmed by a store node within the store validation window''"
definition TERMINAL_EVENT_TYPES :: "string list" where
  "TERMINAL_EVENT_TYPES = [EVENT_PROPAGATED, EVENT_SENT, EVENT_ERROR]"

lemmas event_names = EVENT_PROPAGATED_def EVENT_SENT_def EVENT_ERROR_def EVENT_CHANNEL_RECEIVED_def
  EVENT_CHANNEL_ERROR_def EVENT_TOPIC_HEALTH_CHANGE_def

section \<open>The collector\<close>

record EventCollector =
  events :: "pyval list"

definition new_collector :: EventCollector where
  "new_collector = \<lparr>events = []\<rparr>"

text \<open>A payload that is not UTF-8 or not JSON is kept as its raw text.\<close>

definition event_payload :: "int \<Rightarrow> string \<Rightarrow> pyval" where
  "event_payload ret raw =
     (case res_bind (utf8_decode raw) json_loads of
        Inr v \<Rightarrow> v
      | Inl _ \<Rightarrow> PDict [(''_raw'', PStr (utf8_decode_replace raw)), (''_ret'', PInt ret)])"

definition event_callback :: "int \<Rightarrow> string \<Rightarrow> EventCollector \<Rightarrow> EventCollector" where
  "event_callback ret raw c = c\<lparr>events := events c @ [event_payload ret raw]\<rparr>"

text \<open>A list comprehension and a search whose condition may raise.\<close>

fun filter_res :: "('a \<Rightarrow> bool res) \<Rightarrow> 'a list \<Rightarrow> 'a list res" where
  "filter_res p [] = Inr []"
| "filter_res p (x # xs) =
     res_bind (p x) (\<lambda>b. res_bind (filter_res p xs) (\<lambda>ys. Inr (if b then x # ys else ys)))"

fun find_res :: "('a \<Rightarrow> bool res) \<Rightarrow> 'a list \<Rightarrow> 'a option res" where
  "find_res p [] = Inr None"
| "find_res p (x # xs) = res_bind (p x) (\<lambda>b. if b then Inr (Some x) else find_res p xs)"

text \<open>\<open>event.get(field) == text\<close>\<close>

definition field_is :: "string \<Rightarrow> string \<Rightarrow> pyval \<Rightarrow> bool res" where
  "field_is field v e = res_bind (py_get field e) (\<lambda>x. Inr (x = PStr v))"

definition get_events_for_request :: "pyval list \<Rightarrow> string \<Rightarrow> pyval list res" where
  "get_events_for_request evs request_id = filter_res (field_is ''requestId'' request_id) evs"

definition snapshot :: "EventCollector \<Rightarrow> pyval list" where
  "snapshot c = events c"

definition is_propagated_event :: "pyval \<Rightarrow> bool res" where
  "is_propagated_event = field_is ''eventType'' EVENT_PROPAGATED"
definition is_sent_event :: "pyval \<Rightarrow> bool res" where
  "is_sent_event = field_is ''eventType'' EVENT_SENT"
definition is_error_event :: "pyval \<Rightarrow> bool res" where
  "is_error_event = field_is ''eventType'' EVENT_ERROR"
definition is_channel_error_event :: "pyval \<Rightarrow> bool res" where
  "is_channel_error_event = field_is ''eventType'' EVENT_CHANNEL_ERROR"

section \<open>Waiting\<close>

text \<open>\<open>snap k\<close> is the event list at the \<open>k\<close>-th poll, \<open>start\<close> the clock when the deadline is set and
  \<open>clk k\<close> the \<open>k\<close>-th reading after that.\<close>

definition look_for ::
    "(nat \<Rightarrow> pyval list) \<Rightarrow> string \<Rightarrow> (pyval \<Rightarrow> bool res) \<Rightarrow> nat \<Rightarrow> pyval option res" where
  "look_for snap request_id pred k = res_bind (get_events_for_request (snap k) request_id) (find_res pred)"

definition wait_for_event ::
    "(nat \<Rightarrow> pyval list) \<Rightarrow> rat \<Rightarrow> (nat \<Rightarrow> rat) \<Rightarrow> string \<Rightarrow> (pyval \<Rightarrow> bool res) \<Rightarrow> rat \<Rightarrow> pyval option res option" where
  "wait_for_event snap start clk request_id pred timeout_s =
     look_then_test (look_for snap request_id pred) clk (start + timeout_s) 0"

definition wait_for_propagated where
  "wait_for_propagated snap start clk request_id timeout_s =
     wait_for_event snap start clk request_id is_propagated_event timeout_s"
definition wait_for_sent where
  "wait_for_sent snap start clk request_id timeout_s =
     wait_for_event snap start clk request_id is_sent_event timeout_s"
definition wait_for_error where
  "wait_for_error snap start clk request_id timeout_s =
     wait_for_event snap start clk request_id is_error_event timeout_s"

text \<open>\<open>shown\<close> is the text of the event in the message (\<open>str(event)\<close>).\<close>

definition assert_no_error ::
    "(pyval \<Rightarrow> string) \<Rightarrow> (nat \<Rightarrow> pyval list) \<Rightarrow> rat \<Rightarrow> (nat \<Rightarrow> rat) \<Rightarrow> string \<Rightarrow> string \<Rightarrow> unit res option" where
  "assert_no_error shown snap start clk request_id context =
     map_option (\<lambda>r. res_bind r (\<lambda>event.
       let suffix = (if context = [] then [] else '' ('' @ context @ '')'') in
       case event of
         None \<Rightarrow> Inr ()
       | Some e \<Rightarrow> Inl (Exn AssertionError (''Unexpected message_error event'' @ suffix @ '': '' @ shown e))))
     (wait_for_error snap start clk request_id 0)"

definition is_connected_event :: "pyval \<Rightarrow> bool res" where
  "is_connected_event e =
     res_bind (field_is ''eventType'' ''connection_status_change'' e) (\<lambda>b.
       if b then res_bind (py_get ''connectionStatus'' e) (\<lambda>s.
              Inr (s = PStr ''PartiallyConnected'' \<or> s = PStr ''Connected''))
       else Inr False)"

definition wait_for_connected ::
    "(nat \<Rightarrow> pyval list) \<Rightarrow> rat \<Rightarrow> (nat \<Rightarrow> rat) \<Rightarrow> rat \<Rightarrow> pyval option res option" where
  "wait_for_connected snap start clk timeout_s =
     test_then_look (\<lambda>k. find_res is_connected_event (snap k)) clk (start + timeout_s) 0"

text \<open>A value as a dict key: numbers that compare equal are the same key, lists and dicts are not
  hashable.\<close>

definition hash_key :: "pyval \<Rightarrow> pyval res" where
  "hash_key v =
     (case num_of v of
        Some r \<Rightarrow> Inr (PFloat r)
      | None \<Rightarrow> (case v of PList _ \<Rightarrow> Inl (Exn TypeError ''unhashable type: list'')
                 | PDict _ \<Rightarrow> Inl (Exn TypeError ''unhashable type: dict'')
                 | _ \<Rightarrow> Inr v))"

fun latest_health :: "(pyval, pyval) dict \<Rightarrow> pyval list \<Rightarrow> (pyval, pyval) dict res" where
  "latest_health h [] = Inr h"
| "latest_health h (e # es) =
     res_bind (field_is ''eventType'' EVENT_TOPIC_HEALTH_CHANGE e) (\<lambda>b.
       if b then
         res_bind (py_get ''topicHealth'' e) (\<lambda>v.
         res_bind (py_get ''pubsubTopic'' e) (\<lambda>t.
         res_bind (hash_key t) (\<lambda>k. latest_health (AList.update k v h) es)))
       else latest_health h es)"

definition mesh_check :: "pyval list \<Rightarrow> unit option res" where
  "mesh_check evs =
     res_bind (latest_health [] evs) (\<lambda>h.
       Inr (if list_ex (\<lambda>v. v \<in> PStr ` set MESH_TOPIC_HEALTH) (map snd h) then Some () else None))"

definition wait_for_mesh :: "(nat \<Rightarrow> pyval list) \<Rightarrow> rat \<Rightarrow> (nat \<Rightarrow> rat) \<Rightarrow> rat \<Rightarrow> bool res option" where
  "wait_for_mesh snap start clk timeout_s =
     map_option (\<lambda>r. res_bind r (\<lambda>x. Inr (x \<noteq> None)))
       (test_then_look (\<lambda>k. mesh_check (snap k)) clk (start + timeout_s) 0)"

section \<open>The events of one request\<close>

text \<open>\<open>event.get("eventType", "")\<close>\<close>

fun event_type :: "pyval \<Rightarrow> pyval res" where
  "event_type (PDict d) = Inr (case map_of d ''eventType'' of None \<Rightarrow> PStr [] | Some v \<Rightarrow> v)"
| "event_type _ = Inl (Exn AttributeError ''object has no attribute get'')"

text \<open>\<open>event_type in TERMINAL_EVENT_TYPES\<close>, a set: the value is hashed first.\<close>

definition is_terminal :: "pyval \<Rightarrow> string option res" where
  "is_terminal t =
     res_bind (hash_key t) (\<lambda>_.
       Inr (case t of PStr s \<Rightarrow> if s \<in> set TERMINAL_EVENT_TYPES then Some s else None | _ \<Rightarrow> None))"

type_synonym tallies = "(string, nat) dict \<times> (string, nat) dict"

text \<open>\<open>counts.get(s, 0)\<close>\<close>

definition count_in :: "(string, nat) dict \<Rightarrow> string \<Rightarrow> nat" where
  "count_in d s = (case map_of d s of None \<Rightarrow> 0 | Some n \<Rightarrow> n)"

fun tally_events :: "string \<Rightarrow> nat \<Rightarrow> tallies \<Rightarrow> pyval list \<Rightarrow> tallies res" where
  "tally_events rid i st [] = Inr st"
| "tally_events rid i (counts, first) (e # es) =
     res_bind (field_is ''requestId'' rid e) (\<lambda>ok.
     if \<not> ok then Inl (Exn AssertionError (''Event at index '' @ str_nat i @ '' has wrong requestId''))
     else res_bind (event_type e) (\<lambda>t.
     res_bind (is_terminal t) (\<lambda>ty.
       case ty of
         None \<Rightarrow> tally_events rid (Suc i) (counts, first) es
       | Some s \<Rightarrow>
           tally_events rid (Suc i)
             (AList.update s (count_in counts s + 1) counts,
              dict_setdefault s i first) es)))"

definition assert_event_invariants :: "pyval list \<Rightarrow> string \<Rightarrow> unit res" where
  "assert_event_invariants evs request_id =
     res_bind (get_events_for_request evs request_id) (\<lambda>es.
     if es = [] then Inl (Exn AssertionError (''No events found for request '' @ request_id))
     else res_bind (tally_events request_id 0 ([], []) es) (\<lambda>(counts, first).
     res_bind (res_each (\<lambda>(t, n). py_assert (n = 1) (''Duplicate '' @ t @ '' events for request '' @ request_id)) counts) (\<lambda>_.
       case (map_of first EVENT_SENT, map_of first EVENT_PROPAGATED) of
         (Some s, Some p) \<Rightarrow> py_assert (p < s) (''message_sent (index '' @ str_nat s @ '') arrived before message_propagated'')
       | _ \<Rightarrow> Inr ())))"

section \<open>Addresses and ports\<close>

text \<open>\<open>get_node_info\<close> of the bindings: a \<open>Result\<close>, here an error text or a value.\<close>

type_synonym info_reader = "string \<Rightarrow> string + string"

definition get_node_multiaddr :: "info_reader \<Rightarrow> string res" where
  "get_node_multiaddr node =
     (case node ''Multiaddrs'' of
        Inl err \<Rightarrow> Inl (Exn RuntimeError (''get_node_info failed: '' @ err))
      | Inr v \<Rightarrow>
          let raw = strip v;
              addrs = map strip (filter (\<lambda>a. strip a \<noteq> []) (split_char (CHR '','') raw))
          in if addrs = [] \<or> \<not> list_all (\<lambda>a. startswith a ''/'') addrs
             then Inl (Exn RuntimeError (''Unexpected multiaddr format: '' @ repr_str raw))
             else case filter (\<lambda>a. str_in ''/tcp/'' a \<and> \<not> str_in ''/ws'' a) addrs of
                    [a] \<Rightarrow> Inr a
                  | _ \<Rightarrow> Inl (Exn AssertionError (''Expected a single TCP multiaddr from Multiaddrs, got: '' @ repr_str raw)))"

definition TCP_PORT_RE :: rx where
  "TCP_PORT_RE = rseq [rlit ''/tcp/'', Grp 1 (rplus rdigit), rchr (CHR ''/'')]"

definition get_node_tcp_port :: "info_reader \<Rightarrow> int res" where
  "get_node_tcp_port node =
     res_bind (get_node_multiaddr node) (\<lambda>multiaddr.
       case re_search TCP_PORT_RE multiaddr of
         None \<Rightarrow> Inl (Exn RuntimeError (''multiaddr missing /tcp/<port>/ segment: '' @ repr_str multiaddr))
       | Some m \<Rightarrow>
           (case parse_int (group multiaddr m 1) of
              Some p \<Rightarrow> Inr p
            | None \<Rightarrow> Inl (Exn ValueError ''invalid literal for int()'')))"

definition get_node_bound_ports :: "info_reader \<Rightarrow> pyval res" where
  "get_node_bound_ports node =
     (case node ''MyBoundPorts'' of
        Inl err \<Rightarrow> Inl (Exn RuntimeError (''MyBoundPorts query failed: '' @ err))
      | Inr v \<Rightarrow> json_loads v)"

text \<open>The three letters as a three-byte RLP string.\<close>

definition udp_key :: string where
  "udp_key = char_of (131 :: nat) # ''udp''"

definition enr_udp_port :: "string \<Rightarrow> nat res" where
  "enr_udp_port enr_uri =
     (if \<not> startswith enr_uri ''enr:'' then Inl (Exn RuntimeError (''not an ENR URI: '' @ repr_str enr_uri))
      else let b64 = drop 4 enr_uri in
        res_bind (urlsafe_b64decode (b64 @ replicate (nat ((- int (length b64)) mod 4)) (CHR ''=''))) (\<lambda>payload.
          case str_find payload udp_key of
            None \<Rightarrow> Inl (Exn RuntimeError (''ENR has no udp entry: '' @ repr_str enr_uri))
          | Some key \<Rightarrow>
              if length payload \<le> key + 4 then Inl (Exn IndexError ''index out of range'')
              else let pre = of_char (payload ! (key + 4)) :: nat in
                if pre < 128 then Inr pre
                else Inr (from_bytes (slice payload (key + 5) (key + 5 + (pre - 128))))))"

text \<open>\<open>hex8\<close> stands for the random \<open>uuid.uuid4().hex[:8]\<close> and \<open>dir\<close> for the fresh directory of
  \<open>tempfile.mkdtemp\<close>.\<close>

definition unique_channel_id :: "string \<Rightarrow> string \<Rightarrow> string" where
  "unique_channel_id hex8 pre = pre @ ''-'' @ hex8"

definition local_storage_config :: "string \<Rightarrow> (string, string) dict" where
  "local_storage_config storage_dir =
     [(''localStoragePath'', storage_dir),
      (''storeMessageDbUrl'', ''sqlite://'' @ storage_dir @
         (if endswith storage_dir ''/'' then [] else ''/'') @ ''store.sqlite3'')]"

definition create_message_bindings :: "(string, pyval) dict \<Rightarrow> (string, pyval) dict" where
  "create_message_bindings overrides =
     dict_update [(''contentTopic'', PStr DEFAULT_CONTENT_TOPIC), (''payload'', PStr DEFAULT_PAYLOAD),
                  (''ephemeral'', PBool False)] overrides"


section \<open>Events that are objects\<close>

text \<open>The library fires JSON objects; on other values the source's \<open>e.get\<close> raises.\<close>

definition is_object :: "pyval \<Rightarrow> bool" where
  "is_object v \<longleftrightarrow> (case v of PDict _ \<Rightarrow> True | _ \<Rightarrow> False)"

definition has_field :: "string \<Rightarrow> string \<Rightarrow> pyval \<Rightarrow> bool" where
  "has_field f v e \<longleftrightarrow> py_get f e = Inr (PStr v)"

lemma py_get_object: "is_object e \<Longrightarrow> \<exists>v. py_get f e = Inr v"
  by (cases e) (auto simp: is_object_def)

lemma field_is_object: "is_object e \<Longrightarrow> field_is f v e = Inr (has_field f v e)"
  using py_get_object [of e f] by (auto simp: field_is_def has_field_def)

lemma filter_res_Inr: "(\<And>x. x \<in> set xs \<Longrightarrow> p x = Inr (q x)) \<Longrightarrow> filter_res p xs = Inr (filter q xs)"
  by (induction xs) auto

lemma filter_res_filter: "filter_res p xs = Inr ys \<Longrightarrow> ys = filter (\<lambda>x. p x = Inr True) xs"
proof (induction xs arbitrary: ys)
  case (Cons x xs)
  then show ?case by (cases "p x"; cases "filter_res p xs") (auto split: if_splits)
qed simp

lemma find_res_Inr: "(\<And>x. x \<in> set xs \<Longrightarrow> p x = Inr (q x)) \<Longrightarrow> find_res p xs = Inr (List.find q xs)"
  by (induction xs) auto

lemma get_events_object:
  "list_all is_object evs \<Longrightarrow> get_events_for_request evs rid = Inr (filter (has_field ''requestId'' rid) evs)"
  unfolding get_events_for_request_def by (rule filter_res_Inr) (simp add: field_is_object list_all_iff)

lemma find_filter: "List.find q (filter p xs) = List.find (\<lambda>x. p x \<and> q x) xs"
  by (induction xs) auto

text \<open>An event of the given type for the given request.\<close>

definition is_hit :: "string \<Rightarrow> string \<Rightarrow> pyval \<Rightarrow> bool" where
  "is_hit rid ty e \<longleftrightarrow> has_field ''requestId'' rid e \<and> has_field ''eventType'' ty e"

lemma look_for_object:
  assumes "list_all is_object (snap k)"
  shows "look_for snap rid (field_is ''eventType'' ty) k = Inr (List.find (is_hit rid ty) (snap k))"
proof -
  have "find_res (field_is ''eventType'' ty) (filter (has_field ''requestId'' rid) (snap k)) =
      Inr (List.find (has_field ''eventType'' ty) (filter (has_field ''requestId'' rid) (snap k)))"
    using assms by (intro find_res_Inr) (auto simp: field_is_object list_all_iff)
  then show ?thesis
    using assms by (simp add: look_for_def get_events_object find_filter is_hit_def [abs_def])
qed

section \<open>The collector as a growing log\<close>

text \<open>The events at poll \<open>k\<close> when the callbacks of \<open>batches j\<close> arrive just before poll \<open>j\<close>.\<close>

definition collector_at :: "(nat \<Rightarrow> (int \<times> string) list) \<Rightarrow> nat \<Rightarrow> pyval list" where
  "collector_at batches k =
     snapshot (foldl (\<lambda>c (ret, raw). event_callback ret raw c) new_collector (concat (map batches [0..<Suc k])))"

lemma events_callbacks:
  "events (foldl (\<lambda>c (ret, raw). event_callback ret raw c) c cbs) =
     events c @ map (\<lambda>(ret, raw). event_payload ret raw) cbs"
  by (induction cbs arbitrary: c) (auto simp: event_callback_def)

lemma collector_at_eq:
  "collector_at batches k = map (\<lambda>(ret, raw). event_payload ret raw) (concat (map batches [0..<Suc k]))"
  by (simp add: collector_at_def snapshot_def events_callbacks new_collector_def)

interpretation collector: growing_log "collector_at batches" for batches
  by unfold_locales (simp add: collector_at_eq)

section \<open>Tallies\<close>

definition term_of :: "pyval \<Rightarrow> string option" where
  "term_of e =
     (case event_type e of
        Inr (PStr s) \<Rightarrow> if s \<in> set TERMINAL_EVENT_TYPES then Some s else None
      | _ \<Rightarrow> None)"

definition wf_event :: "pyval \<Rightarrow> bool" where
  "wf_event e \<longleftrightarrow> (case event_type e of Inr t \<Rightarrow> (case hash_key t of Inr _ \<Rightarrow> True | Inl _ \<Rightarrow> False) | Inl _ \<Rightarrow> False)"

lemma wf_event_object: "wf_event e \<Longrightarrow> is_object e"
  by (cases e) (auto simp: wf_event_def is_object_def)

lemma wf_event_terminal: "wf_event e \<Longrightarrow> \<exists>t. event_type e = Inr t \<and> is_terminal t = Inr (term_of e)"
  by (auto simp: wf_event_def is_terminal_def term_of_def hash_key_def split: sum.splits pyval.splits)

definition pos :: "'a \<Rightarrow> 'a list \<Rightarrow> nat" where
  "pos x xs = length (takeWhile (\<lambda>y. y \<noteq> x) xs)"

lemma pos_Cons [simp]: "pos x (y # ys) = (if y = x then 0 else Suc (pos x ys))"
  by (simp add: pos_def)

text \<open>What the loop has recorded after events of the given terminal types, from index \<open>i\<close> on.\<close>

definition tallied :: "nat \<Rightarrow> tallies \<Rightarrow> string option list \<Rightarrow> tallies \<Rightarrow> bool" where
  "tallied i st tys st' \<longleftrightarrow>
     (\<forall>s. count_in (fst st') s = count_in (fst st) s + count_list tys (Some s)) \<and>
     (\<forall>s. has_key (fst st') s \<longleftrightarrow> has_key (fst st) s \<or> Some s \<in> set tys) \<and>
     (\<forall>s. map_of (snd st') s = (case map_of (snd st) s of Some j \<Rightarrow> Some j
        | None \<Rightarrow> if Some s \<in> set tys then Some (i + pos (Some s) tys) else None))"

lemma tallied_Nil: "tallied i st [] st"
  by (auto simp: tallied_def split: option.splits)

lemma tallied_None: "tallied (Suc i) st tys st' \<Longrightarrow> tallied i st (None # tys) st'"
  unfolding tallied_def by (auto split: option.splits)

lemma tallied_Some:
  assumes "tallied (Suc i) (AList.update u (count_in counts u + 1) counts, dict_setdefault u i first) tys st'"
  shows "tallied i (counts, first) (Some u # tys) st'"
proof -
  note t = assms [unfolded tallied_def fst_conv snd_conv]
  have "count_in (fst st') s = count_in counts s + count_list (Some u # tys) (Some s)" for s
    using t by (simp add: count_in_def update_conv')
  moreover have "has_key (fst st') s \<longleftrightarrow> has_key counts s \<or> Some s \<in> set (Some u # tys)" for s
    using t by (auto simp: update_conv')
  moreover have "map_of (snd st') s = (case map_of first s of Some j \<Rightarrow> Some j
      | None \<Rightarrow> if Some s \<in> set (Some u # tys) then Some (i + pos (Some s) (Some u # tys)) else None)" for s
    using t by (auto simp: map_of_setdefault split: option.splits)
  ultimately show ?thesis by (simp add: tallied_def)
qed

lemma tally_events_spec:
  assumes "list_all (\<lambda>e. wf_event e \<and> has_field ''requestId'' rid e) es"
  shows "\<exists>st'. tally_events rid i st es = Inr st' \<and> tallied i st (map term_of es) st'"
  using assms
proof (induction es arbitrary: i st)
  case Nil
  show ?case by (simp add: tallied_Nil)
next
  case (Cons e es)
  obtain counts first where st: "st = (counts, first)" by fastforce
  from Cons have e: "wf_event e" "has_field ''requestId'' rid e"
    and IH: "\<exists>st'. tally_events rid j st es = Inr st' \<and> tallied j st (map term_of es) st'" for j st by auto
  obtain t where t: "event_type e = Inr t" "is_terminal t = Inr (term_of e)"
    using wf_event_terminal [OF e(1)] by blast
  have f: "field_is ''requestId'' rid e = Inr True"
    using e by (simp add: field_is_object wf_event_object)
  show ?case
  proof (cases "term_of e")
    case None
    then show ?thesis using IH [of "Suc i" st] tallied_None by (auto simp: st f t)
  next
    case (Some u)
    then show ?thesis
      using IH [of "Suc i" "(AList.update u (count_in counts u + 1) counts, dict_setdefault u i first)"] tallied_Some
      by (auto simp: st f t)
  qed
qed

section \<open>Properties\<close>

text \<open>The invariants of the events of a request: each terminal type occurs at most once, and a
  \<open>message_propagated\<close> comes before a \<open>message_sent\<close>.\<close>

definition invariants_hold :: "string option list \<Rightarrow> bool" where
  "invariants_hold tys \<longleftrightarrow>
     (\<forall>i < length tys. \<forall>j < length tys. tys ! i \<noteq> None \<and> tys ! i = tys ! j \<longrightarrow> i = j) \<and>
     (\<forall>i < length tys. \<forall>j < length tys. tys ! i = Some EVENT_SENT \<and> tys ! j = Some EVENT_PROPAGATED \<longrightarrow> j < i)"

lemma count_le_1: "count_list xs x \<le> 1 \<longleftrightarrow> (\<forall>i < length xs. \<forall>j < length xs. xs ! i = x \<and> xs ! j = x \<longrightarrow> i = j)"
proof -
  have "count_list xs x = card {i. i < length xs \<and> xs ! i = x}"
    by (simp add: count_list_eq_length_filter length_filter_conv_card eq_commute)
  moreover have "finite {i. i < length xs \<and> xs ! i = x}" by simp
  ultimately show ?thesis by (auto simp: card_le_Suc0_iff_eq)
qed

lemma pos_nth: "x \<in> set xs \<Longrightarrow> pos x xs < length xs \<and> xs ! pos x xs = x"
  by (induction xs) auto

lemma pos_unique:
  assumes "count_list xs x \<le> 1" "i < length xs" "xs ! i = x"
  shows "i = pos x xs"
  using assms(2,3) pos_nth [of x xs] assms(1) [unfolded count_le_1] nth_mem [of i xs] by simp

lemma before_iff:
  assumes "count_list tys a \<le> 1" "count_list tys b \<le> 1"
  shows "(\<forall>i < length tys. \<forall>j < length tys. tys ! i = a \<and> tys ! j = b \<longrightarrow> j < i) \<longleftrightarrow>
    (a \<in> set tys \<and> b \<in> set tys \<longrightarrow> pos b tys < pos a tys)" (is "?l \<longleftrightarrow> ?r")
proof
  assume ?l
  then show ?r using pos_nth [of a tys] pos_nth [of b tys] by blast
next
  assume r: ?r
  show ?l
  proof (intro allI impI, elim conjE)
    fix i j assume i: "i < length tys" "tys ! i = a" and j: "j < length tys" "tys ! j = b"
    then have "a \<in> set tys" "b \<in> set tys" using nth_mem by blast+
    then show "j < i" using r pos_unique [OF assms(1) i] pos_unique [OF assms(2) j] by simp
  qed
qed

lemma invariants_hold_iff:
  "invariants_hold tys \<longleftrightarrow>
     (\<forall>s. count_list tys (Some s) \<le> 1) \<and>
     (Some EVENT_SENT \<in> set tys \<and> Some EVENT_PROPAGATED \<in> set tys \<longrightarrow>
        pos (Some EVENT_PROPAGATED) tys < pos (Some EVENT_SENT) tys)"
proof -
  have once: "(\<forall>s. count_list tys (Some s) \<le> 1) \<longleftrightarrow>
      (\<forall>i < length tys. \<forall>j < length tys. tys ! i \<noteq> None \<and> tys ! i = tys ! j \<longrightarrow> i = j)"
    unfolding count_le_1 by (metis not_None_eq)
  show ?thesis
    unfolding invariants_hold_def once [symmetric] by (intro conj_cong refl before_iff) blast+
qed

lemma tally_distinct:
  "tally_events rid i st es = Inr st' \<Longrightarrow> distinct (map fst (fst st)) \<Longrightarrow> distinct (map fst (fst st'))"
proof (induction es arbitrary: i st)
  case (Cons e es)
  obtain counts first where st: "st = (counts, first)" by fastforce
  show ?case
    using Cons.prems by (auto simp: st io_simps distinct_update split: option.splits if_splits dest!: Cons.IH)
qed auto

lemma counts_all_one:
  assumes "distinct (map fst counts)"
    and "\<And>s. count_in counts s = count_list tys (Some s)" "\<And>s. has_key counts s \<longleftrightarrow> Some s \<in> set tys"
  shows "(\<forall>(t, n) \<in> set counts. n = 1) \<longleftrightarrow> (\<forall>s. count_list tys (Some s) \<le> 1)"
proof -
  have "(\<forall>(t, n) \<in> set counts. n = 1) \<longleftrightarrow> (\<forall>s. has_key counts s \<longrightarrow> count_in counts s = 1)"
    using assms(1) by (force simp: count_in_def)
  also have "\<dots> \<longleftrightarrow> (\<forall>s. count_list tys (Some s) \<le> 1)"
    using assms(2,3) by (metis count_list_0_iff le_zero_eq le_Suc_eq One_nat_def le_numeral_extra(4))
  finally show ?thesis .
qed

text \<open>C11: \<open>assert_event_invariants\<close> passes exactly when the request has events, each of the terminal
  types occurs at most once among them and no \<open>message_sent\<close> comes before a \<open>message_propagated\<close>
  (for events that are objects with a hashable type).\<close>

theorem assert_event_invariants_iff:
  assumes "list_all wf_event evs"
  shows "assert_event_invariants evs rid = Inr () \<longleftrightarrow>
    (let es = filter (has_field ''requestId'' rid) evs in es \<noteq> [] \<and> invariants_hold (map term_of es))"
proof -
  let ?es = "filter (has_field ''requestId'' rid) evs"
  let ?tys = "map term_of ?es"
  have get: "get_events_for_request evs rid = Inr ?es"
    using assms by (intro get_events_object) (auto simp: list_all_iff wf_event_object)
  obtain counts first where r: "tally_events rid 0 ([], []) ?es = Inr (counts, first)"
    and t: "tallied 0 ([], []) ?tys (counts, first)"
    using tally_events_spec [of rid ?es 0 "([], [])"] assms by (auto simp: list_all_iff)
  have counts: "count_in counts s = count_list ?tys (Some s)" "has_key counts s \<longleftrightarrow> Some s \<in> set ?tys"
    and first: "map_of first s = (if Some s \<in> set ?tys then Some (pos (Some s) ?tys) else None)" for s
    using t by (auto simp: tallied_def count_in_def)
  have "distinct (map fst counts)" using tally_distinct [OF r] by simp
  then have "(\<forall>(t, n) \<in> set counts. n = 1) \<longleftrightarrow> (\<forall>s. count_list ?tys (Some s) \<le> 1)"
    using counts by (rule counts_all_one)
  then show ?thesis
    by (auto simp: assert_event_invariants_def get r Let_def invariants_hold_iff io_simps res_each_Inr first
        split: option.splits prod.splits if_splits)
qed


definition demo_event :: "string \<Rightarrow> string \<Rightarrow> pyval" where
  "demo_event rid ty = PDict [(''requestId'', PStr rid), (''eventType'', PStr ty)]"

lemma demo_event_simps [simp]:
  "wf_event (demo_event rid ty)" "is_object (demo_event rid ty)"
  "has_field ''requestId'' r (demo_event rid ty) \<longleftrightarrow> rid = r" "has_field ''eventType'' t (demo_event rid ty) \<longleftrightarrow> ty = t"
  "term_of (demo_event rid ty) = (if ty \<in> set TERMINAL_EVENT_TYPES then Some ty else None)"
  by (auto simp: demo_event_def wf_event_def is_object_def has_field_def term_of_def hash_key_def)

theorem assert_event_invariants_iff_witness:
  "assert_event_invariants
     [demo_event ''r'' EVENT_PROPAGATED, demo_event ''q'' EVENT_PROPAGATED, demo_event ''r'' EVENT_SENT] ''r'' = Inr ()"
proof -
  have "invariants_hold [Some EVENT_PROPAGATED, Some EVENT_SENT]"
    by (auto simp: invariants_hold_iff event_names)
  then show ?thesis
    by (subst assert_event_invariants_iff) (simp_all add: TERMINAL_EVENT_TYPES_def)
qed

text \<open>C12: waiting for an event ends, whatever JSON objects arrive as events, when the clock moves on by the poll interval at
  each turn. It returns the first event of the wanted type for the request in order of arrival, as soon
  as a poll sees one; it returns \<open>None\<close> only after a poll at or past the deadline found no such event
  among all that had arrived.\<close>

theorem wait_for_event_correct:
  fixes batches :: "nat \<Rightarrow> (int \<times> string) list"
  assumes "sleeps poll_interval_s clk" and objects: "\<And>k. list_all is_object (collector_at batches k)"
  shows "\<exists>r n. wait_for_event (collector_at batches) start clk rid (field_is ''eventType'' ty) timeout_s = Some (Inr r) \<and>
    (\<forall>i < n. clk i < start + timeout_s \<and> List.find (is_hit rid ty) (collector_at batches i) = None) \<and>
    (case r of
       Some e \<Rightarrow> \<forall>m \<ge> n. List.find (is_hit rid ty) (collector_at batches m) = Some e
     | None \<Rightarrow> start + timeout_s \<le> clk n \<and> (\<forall>e \<in> set (collector_at batches n). \<not> is_hit rid ty e))"
proof -
  let ?look = "look_for (collector_at batches) rid (field_is ''eventType'' ty)"
  have look: "?look k = Inr (List.find (is_hit rid ty) (collector_at batches k))" for k
    by (rule look_for_object [OF objects])
  obtain n where n: "\<forall>i < n. ?look i = Inr None \<and> clk i < start + timeout_s"
    and r: "?look n \<noteq> Inr None \<and> look_then_test ?look clk (start + timeout_s) 0 = Some (?look n) \<or>
       ?look n = Inr None \<and> start + timeout_s \<le> clk n \<and> look_then_test ?look clk (start + timeout_s) 0 = Some (Inr None)"
    using look_then_test_spec [OF assms(1), of ?look "start + timeout_s"] by blast
  let ?r = "List.find (is_hit rid ty) (collector_at batches n)"
  have "wait_for_event (collector_at batches) start clk rid (field_is ''eventType'' ty) timeout_s = Some (Inr ?r)"
    using r unfolding look wait_for_event_def by auto
  moreover have "\<forall>i < n. clk i < start + timeout_s \<and> List.find (is_hit rid ty) (collector_at batches i) = None"
    using n unfolding look by simp
  moreover have "case ?r of
       Some e \<Rightarrow> \<forall>m \<ge> n. List.find (is_hit rid ty) (collector_at batches m) = Some e
     | None \<Rightarrow> start + timeout_s \<le> clk n \<and> (\<forall>e \<in> set (collector_at batches n). \<not> is_hit rid ty e)"
  proof (cases ?r)
    case None
    then have "\<forall>e \<in> set (collector_at batches n). \<not> is_hit rid ty e" by (auto simp: find_None_iff)
    with None show ?thesis using r unfolding look by simp
  next
    case (Some e)
    then show ?thesis using collector.find_stable [OF _ Some] by simp
  qed
  ultimately show ?thesis by blast
qed

text \<open>A poll every second; the event of interest arrives before the third poll.\<close>

definition demo_batches :: "nat \<Rightarrow> (int \<times> string) list" where
  "demo_batches k =
     (if k = 2 then [(0, json_dumps (\<lambda>_. []) (demo_event ''r'' EVENT_SENT))] else [])"

lemma event_payload_dumps: "dumpable v \<Longrightarrow> event_payload ret (json_dumps fl v) = v"
  by (simp add: event_payload_def utf8_decode_ascii ascii_dumps json_loads_dumps)

lemma demo_collector: "collector_at demo_batches k = (if k < 2 then [] else [demo_event ''r'' EVENT_SENT])"
proof (induction k)
  case 0
  show ?case by (simp add: collector_at_eq demo_batches_def)
next
  case (Suc k)
  have "event_payload 0 (json_dumps (\<lambda>_. []) (demo_event ''r'' EVENT_SENT)) = demo_event ''r'' EVENT_SENT"
    by (rule event_payload_dumps) (simp add: demo_event_def event_names byte_def)
  then show ?case using Suc by (auto simp: collector_at_eq demo_batches_def)
qed

theorem wait_for_event_correct_witness:
  "wait_for_event (collector_at demo_batches) 0 of_nat ''r'' is_sent_event 10 = Some (Inr (Some (demo_event ''r'' EVENT_SENT)))"
proof -
  have "\<And>k. list_all is_object (collector_at demo_batches k)" by (simp add: demo_collector)
  moreover have "sleeps 1 of_nat" by (simp add: sleeps_def)
  ultimately obtain r n where
    r: "wait_for_event (collector_at demo_batches) 0 of_nat ''r'' is_sent_event 10 = Some (Inr r)"
    and n: "\<forall>i < n. of_nat i < (0 + 10 :: rat) \<and> List.find (is_hit ''r'' EVENT_SENT) (collector_at demo_batches i) = None"
    and c: "case r of
       Some e \<Rightarrow> \<forall>m \<ge> n. List.find (is_hit ''r'' EVENT_SENT) (collector_at demo_batches m) = Some e
     | None \<Rightarrow> 0 + 10 \<le> (of_nat n :: rat) \<and> (\<forall>e \<in> set (collector_at demo_batches n). \<not> is_hit ''r'' EVENT_SENT e)"
    using wait_for_event_correct [of 1 of_nat demo_batches 0 "''r''" EVENT_SENT 10] unfolding is_sent_event_def by blast
  have hit: "List.find (is_hit ''r'' EVENT_SENT) (collector_at demo_batches m) = (if m < 2 then None else Some (demo_event ''r'' EVENT_SENT))" for m
    by (simp add: demo_collector is_hit_def)
  have "n \<le> 2" using n hit [of 2] by (metis linorder_not_less nat_less_le option.distinct(1))
  then have "r \<noteq> None" using c by (cases r) auto
  then obtain e where e: "r = Some e" by blast
  then have "List.find (is_hit ''r'' EVENT_SENT) (collector_at demo_batches (max n 2)) = Some e" using c by simp
  then have "e = demo_event ''r'' EVENT_SENT" unfolding hit by simp
  with r e show ?thesis by simp
qed

section \<open>Mesh health\<close>

text \<open>A health report: the topic and the health.\<close>

definition health_report :: "pyval \<Rightarrow> (string \<times> pyval) option" where
  "health_report e =
     (if has_field ''eventType'' EVENT_TOPIC_HEALTH_CHANGE e then
        (case (py_get ''pubsubTopic'' e, py_get ''topicHealth'' e) of
           (Inr (PStr t), Inr h) \<Rightarrow> Some (t, h)
         | _ \<Rightarrow> None)
      else None)"

definition topic_named :: "pyval \<Rightarrow> bool" where
  "topic_named e \<longleftrightarrow> is_object e \<and> (has_field ''eventType'' EVENT_TOPIC_HEALTH_CHANGE e \<longrightarrow> health_report e \<noteq> None)"

text \<open>The latest report of each topic.\<close>

definition latest_report :: "pyval list \<Rightarrow> string \<Rightarrow> pyval option" where
  "latest_report evs t = map_of (rev (List.map_filter health_report evs)) t"

lemma latest_report_Cons:
  "health_report e = Some (t, v) \<Longrightarrow> latest_report (e # evs) t' =
     (case latest_report evs t' of Some x \<Rightarrow> Some x | None \<Rightarrow> if t' = t then Some v else None)"
  by (simp add: latest_report_def List.map_filter_simps map_add_def split: option.splits)

lemma latest_health_spec:
  assumes "list_all topic_named evs" "distinct (map fst h)" "fst ` set h \<subseteq> range PStr"
  shows "\<exists>h'. latest_health h evs = Inr h' \<and> distinct (map fst h') \<and> fst ` set h' \<subseteq> range PStr \<and>
    (\<forall>t. map_of h' (PStr t) = (case latest_report evs t of Some v \<Rightarrow> Some v | None \<Rightarrow> map_of h (PStr t)))"
  using assms
proof (induction evs arbitrary: h)
  case Nil
  then show ?case by (simp add: latest_report_def List.map_filter_def)
next
  case (Cons e evs)
  have f: "field_is ''eventType'' EVENT_TOPIC_HEALTH_CHANGE e = Inr (has_field ''eventType'' EVENT_TOPIC_HEALTH_CHANGE e)"
    using Cons.prems by (simp add: topic_named_def field_is_object)
  show ?case
  proof (cases "health_report e")
    case None
    then have "\<not> has_field ''eventType'' EVENT_TOPIC_HEALTH_CHANGE e"
      using Cons.prems by (auto simp: topic_named_def)
    then show ?thesis using Cons None f by (simp add: latest_report_def List.map_filter_simps)
  next
    case (Some p)
    then obtain t v where p: "p = (t, v)" "has_field ''eventType'' EVENT_TOPIC_HEALTH_CHANGE e"
        "py_get ''pubsubTopic'' e = Inr (PStr t)" "py_get ''topicHealth'' e = Inr v"
      by (auto simp: health_report_def split: if_splits sum.splits pyval.splits)
    have "fst ` set (AList.update (PStr t) v h) \<subseteq> range PStr"
      using Cons.prems(3) by (auto simp: dom_update)
    then have "\<exists>h'. latest_health (AList.update (PStr t) v h) evs = Inr h' \<and> distinct (map fst h') \<and>
      fst ` set h' \<subseteq> range PStr \<and> (\<forall>t'. map_of h' (PStr t') =
        (case latest_report evs t' of Some v \<Rightarrow> Some v | None \<Rightarrow> map_of (AList.update (PStr t) v h) (PStr t')))"
      using Cons.prems by (intro Cons.IH) (auto simp: distinct_update)
    then obtain h' where h': "latest_health (AList.update (PStr t) v h) evs = Inr h'" "distinct (map fst h')"
        "fst ` set h' \<subseteq> range PStr" and m: "\<And>t'. map_of h' (PStr t') =
        (case latest_report evs t' of Some v \<Rightarrow> Some v | None \<Rightarrow> map_of (AList.update (PStr t) v h) (PStr t'))"
      by blast
    have "map_of h' (PStr t') = (case latest_report (e # evs) t' of Some v \<Rightarrow> Some v | None \<Rightarrow> map_of h (PStr t'))" for t'
      using Some p(1) by (cases "latest_report evs t'") (simp_all add: m latest_report_Cons update_conv')
    moreover have "latest_health h (e # evs) = Inr h'" using h'(1) p f by (simp add: hash_key_def)
    ultimately show ?thesis using h'(2,3) by blast
  qed
qed


text \<open>Some topic's latest report says that the mesh has a peer.\<close>

definition mesh_up :: "pyval list \<Rightarrow> bool" where
  "mesh_up evs \<longleftrightarrow> (\<exists>t. latest_report evs t \<in> Some ` PStr ` set MESH_TOPIC_HEALTH)"

lemma mesh_check_iff:
  assumes "list_all topic_named evs"
  shows "mesh_check evs = Inr (if mesh_up evs then Some () else None)"
proof -
  obtain h where h: "latest_health [] evs = Inr h" "distinct (map fst h)" "fst ` set h \<subseteq> range PStr"
    and c: "\<forall>t. map_of h (PStr t) = (case latest_report evs t of Some v \<Rightarrow> Some v | None \<Rightarrow> map_of [] (PStr t))"
    using latest_health_spec [OF assms, of "[]"] by auto
  have m: "map_of h (PStr t) = latest_report evs t" for t
    using c by (cases "latest_report evs t") simp_all
  have "list_ex (\<lambda>v. v \<in> A) (map snd h) \<longleftrightarrow> (\<exists>t. latest_report evs t \<in> Some ` A)" for A
  proof -
    have "list_ex (\<lambda>v. v \<in> A) (map snd h) \<longleftrightarrow> (\<exists>k v. (k, v) \<in> set h \<and> v \<in> A)"
      by (force simp: list_ex_iff)
    also have "\<dots> \<longleftrightarrow> (\<exists>t v. map_of h (PStr t) = Some v \<and> v \<in> A)"
      using h(2,3) by (force simp: map_of_eq_Some_iff)
    finally show ?thesis unfolding m by auto
  qed
  then show ?thesis by (simp add: mesh_check_def h mesh_up_def)
qed

text \<open>C13: \<open>wait_for_mesh\<close> ends, and answers \<open>True\<close> exactly when a poll before the deadline sees a
  topic whose latest health report says that its mesh has a peer; a report that a later one for the
  same topic has replaced does not count.\<close>

theorem wait_for_mesh_correct:
  assumes "sleeps poll_interval_s clk" and named: "\<And>k. list_all topic_named (snap k)"
  shows "wait_for_mesh snap start clk timeout_s =
    Some (Inr (\<exists>n. mesh_up (snap n) \<and> clk n < start + timeout_s))"
proof -
  let ?look = "\<lambda>k. mesh_check (snap k)" and ?d = "start + timeout_s"
  have look: "?look k = Inr (if mesh_up (snap k) then Some () else None)" for k
    by (rule mesh_check_iff [OF named])
  obtain n where n: "\<forall>i < n. ?look i = Inr None \<and> clk i < ?d"
    and r: "clk n < ?d \<and> ?look n \<noteq> Inr None \<and> test_then_look ?look clk ?d 0 = Some (?look n) \<or>
       ?d \<le> clk n \<and> test_then_look ?look clk ?d 0 = Some (Inr None)"
    using test_then_look_spec [OF assms(1), of ?look ?d] by blast
  have late: "\<not> clk m < ?d" if "?d \<le> clk n" "n \<le> m" for m
    using sleeps_mono [OF assms(1) that(2)] that(1) by simp
  have early: "\<not> mesh_up (snap i)" if "i < n" for i using n that by (auto simp: look split: if_splits)
  from r show ?thesis
  proof
    assume "clk n < ?d \<and> ?look n \<noteq> Inr None \<and> test_then_look ?look clk ?d 0 = Some (?look n)"
    then show ?thesis by (auto simp: wait_for_mesh_def look split: if_splits)
  next
    assume "?d \<le> clk n \<and> test_then_look ?look clk ?d 0 = Some (Inr None)"
    then show ?thesis using late early by (auto simp: wait_for_mesh_def) (meson not_le)
  qed
qed

definition health_event :: "string \<Rightarrow> string \<Rightarrow> pyval" where
  "health_event t h = PDict [(''eventType'', PStr EVENT_TOPIC_HEALTH_CHANGE), (''pubsubTopic'', PStr t), (''topicHealth'', PStr h)]"

lemma health_report_event [simp]: "health_report (health_event t h) = Some (t, PStr h)"
  by (simp add: health_report_def has_field_def health_event_def event_names)

theorem wait_for_mesh_correct_witness:
  "wait_for_mesh (\<lambda>_. [health_event ''s0'' ''MinimallyHealthy'', health_event ''s0'' ''Unhealthy'']) 0 of_nat 10 = Some (Inr False) \<and>
   wait_for_mesh (\<lambda>_. [health_event ''s0'' ''MinimallyHealthy'', health_event ''s1'' ''Unhealthy'']) 0 of_nat 10 = Some (Inr True)"
proof -
  let ?a = "[health_event ''s0'' ''MinimallyHealthy'', health_event ''s0'' ''Unhealthy'']"
    and ?b = "[health_event ''s0'' ''MinimallyHealthy'', health_event ''s1'' ''Unhealthy'']"
  have s: "sleeps 1 of_nat" by (simp add: sleeps_def)
  have "list_all topic_named ?a" "list_all topic_named ?b"
    by (simp_all add: topic_named_def) (simp_all add: is_object_def health_event_def)
  moreover have "\<not> mesh_up ?a"
    by (auto simp: mesh_up_def latest_report_def List.map_filter_simps MESH_TOPIC_HEALTH_def)
  moreover have "mesh_up ?b"
    by (auto simp: mesh_up_def latest_report_def List.map_filter_simps MESH_TOPIC_HEALTH_def)
  moreover have "\<exists>n. (of_nat n :: rat) < 0 + 10" by (rule exI [of _ 0]) simp
  ultimately show ?thesis
    using wait_for_mesh_correct [OF s, of "\<lambda>_. ?a" 0 10] wait_for_mesh_correct [OF s, of "\<lambda>_. ?b" 0 10] by simp
qed


section \<open>Node records\<close>

text \<open>The text form of a node record, \<open>enr:\<close> and unpadded URL-safe base64, and the RLP form of a
  port: a single byte below 128, otherwise a length byte and the big-endian bytes.\<close>

definition enr_text :: "string \<Rightarrow> string" where
  "enr_text payload =
     ''enr:'' @ replace_char (CHR ''/'') (CHR ''_'') (replace_char (CHR ''+'') (CHR ''-'')
       (rstrip_char (CHR ''='') (b64encode payload)))"

definition rlp_port :: "nat \<Rightarrow> string" where
  "rlp_port p =
     (if p = 0 then [char_of (128 :: nat)] else if p < 128 then [char_of p]
      else if p < 256 then char_of (129 :: nat) # be_bytes 1 p else char_of (130 :: nat) # be_bytes 2 p)"

definition b64_digit :: "char \<Rightarrow> bool" where
  "b64_digit c \<longleftrightarrow> (\<exists>n < 64. c = b64_char n)"

lemma b64_digit_char: "n < 64 \<Longrightarrow> b64_digit (b64_char n)"
  by (auto simp: b64_digit_def)

lemma b64_digit_other: "b64_digit c \<Longrightarrow> c \<noteq> CHR ''='' \<and> c \<noteq> CHR ''-'' \<and> c \<noteq> CHR ''_''"
proof -
  have "b64_val (CHR ''='') = None" "b64_val (CHR ''-'') = None" "b64_val (CHR ''_'') = None" by code_simp+
  then show "b64_digit c \<Longrightarrow> c \<noteq> CHR ''='' \<and> c \<noteq> CHR ''-'' \<and> c \<noteq> CHR ''_''"
    by (metis b64_digit_def b64_val_char option.distinct(1))
qed

lemma four_dvd: "4 dvd Suc (Suc (Suc (Suc n))) \<longleftrightarrow> 4 dvd n"
  by presburger

lemma b64encode_shape:
  "\<exists>body k. b64encode s = body @ replicate k (CHR ''='') \<and> list_all b64_digit body \<and> k < 4 \<and> 4 dvd length body + k"
proof (induction s rule: b64encode.induct)
  case 1
  show ?case by (rule exI [of _ "[]"]) simp
next
  case (2 a)
  show ?case
    using b64_ranges [of "of_char a" 0 0]
    by (intro exI [of _ "[b64_char (of_char a div 4), b64_char (of_char a mod 4 * 16)]"] exI [of _ "Suc (Suc 0)"])
       (simp add: Let_def b64_digit_char four_dvd)
next
  case (3 a b)
  show ?case
    using b64_ranges [of "of_char a" "of_char b" 0]
    by (intro exI [of _ "butlast (b64encode [a, b])"] exI [of _ "Suc 0"])
       (simp add: Let_def b64_digit_char four_dvd)
next
  case (4 a b c rest)
  then obtain body k where IH: "b64encode rest = body @ replicate k (CHR ''='')" "list_all b64_digit body" "k < 4"
      "4 dvd length body + k"
    by blast
  show ?case
    using b64_ranges [of "of_char a" "of_char b" "of_char c"] IH
    by (intro exI [of _ "b64_char (of_char a div 4) # b64_char (of_char a mod 4 * 16 + of_char b div 16) #
          b64_char (of_char b mod 16 * 4 + of_char c div 64) # b64_char (of_char c mod 64) # body"] exI [of _ k])
       (simp add: Let_def b64_digit_char four_dvd)
qed

lemma rstrip_pads: "list_all b64_digit body \<Longrightarrow> rstrip_char (CHR ''='') (body @ replicate k (CHR ''='')) = body"
  by (cases body rule: rev_cases) (auto simp: rstrip_char_def dropWhile_append b64_digit_other)

lemma pad_count:
  assumes "k < 4" "4 dvd length body + k"
  shows "nat ((- int (length body)) mod 4) = k"
proof -
  obtain m where "length body + k = 4 * m" using assms(2) by (auto elim: dvdE)
  then have "- int (length body) = int k + 4 * (- int m)" by linarith
  then have "(- int (length body)) mod 4 = int k mod 4" by (metis mod_mult_self2)
  then show ?thesis using assms(1) by simp
qed


lemma replace_back:
  assumes "list_all b64_digit body"
  shows "replace_char (CHR ''_'') (CHR ''/'') (replace_char (CHR ''-'') (CHR ''+'')
     (replace_char (CHR ''/'') (CHR ''_'') (replace_char (CHR ''+'') (CHR ''-'') body) @ replicate k (CHR ''=''))) =
     body @ replicate k (CHR ''='')"
  using assms
proof (induction body)
  case (Cons c body)
  then have "c \<noteq> CHR ''-''" "c \<noteq> CHR ''_''" using b64_digit_other by simp_all
  with Cons show ?case by (simp add: replace_char_def)
qed (simp add: replace_char_def)

lemma enr_payload:
  "urlsafe_b64decode (drop 4 (enr_text p) @ replicate (nat ((- int (length (drop 4 (enr_text p)))) mod 4)) (CHR ''='')) = Inr p"
proof -
  obtain body k where b: "b64encode p = body @ replicate k (CHR ''='')" "list_all b64_digit body" "k < 4"
      "4 dvd length body + k"
    using b64encode_shape by blast
  have t: "drop 4 (enr_text p) = replace_char (CHR ''/'') (CHR ''_'') (replace_char (CHR ''+'') (CHR ''-'') body)"
    using b by (simp add: enr_text_def rstrip_pads)
  have "length (drop 4 (enr_text p)) = length body" unfolding t by (simp add: replace_char_def)
  then have "nat ((- int (length (drop 4 (enr_text p)))) mod 4) = k" using pad_count [OF b(3,4)] by simp
  then show ?thesis
    using replace_back [OF b(2), of k] b64decode_b64encode [of p] by (simp add: urlsafe_b64decode_def t b(1))
qed

lemma enr_udp_port_payload:
  assumes "str_find p udp_key = Some k" "k + 4 < length p"
  shows "enr_udp_port (enr_text p) =
    (let pre = of_char (p ! (k + 4)) :: nat in
     if pre < 128 then Inr pre else Inr (from_bytes (slice p (k + 5) (k + 5 + (pre - 128)))))"
proof -
  have "startswith (enr_text p) ''enr:''" by (simp add: enr_text_def)
  then show ?thesis using assms unfolding enr_udp_port_def Let_def enr_payload by simp
qed

lemma be_bytes_2: "p < 65536 \<Longrightarrow> from_bytes (be_bytes 2 p) = p"
  by (rule from_bytes_be_bytes) simp

text \<open>C14: \<open>enr_udp_port\<close> reads back the port of a node record: for a record whose first \<open>udp\<close> key is
  followed by the RLP form of the port, it returns that port, for every 16-bit port and both forms.\<close>

theorem enr_udp_port_roundtrip:
  assumes "port < 65536" "str_find (pre @ udp_key @ rlp_port port @ rest) udp_key = Some (length pre)"
  shows "enr_udp_port (enr_text (pre @ udp_key @ rlp_port port @ rest)) = Inr port"
proof -
  let ?p = "pre @ udp_key @ rlp_port port @ rest"
  have key: "length udp_key = 4" by (simp add: udp_key_def)
  moreover have "rlp_port port \<noteq> []" by (simp add: rlp_port_def)
  ultimately have "enr_udp_port (enr_text ?p) =
    (let pre' = of_char (?p ! (length pre + 4)) :: nat in
     if pre' < 128 then Inr pre' else Inr (from_bytes (slice ?p (length pre + 5) (length pre + 5 + (pre' - 128)))))"
    by (intro enr_udp_port_payload [OF assms(2)]) (cases "rlp_port port", simp_all)
  moreover have "?p ! (length pre + 4) = (rlp_port port @ rest) ! 0"
    using key by (simp add: nth_append)
  moreover have "drop (length pre + 5) ?p = drop 1 (rlp_port port @ rest)"
    using key by (simp add: drop_append)
  ultimately show ?thesis
    using assms(1) be_bytes_2 [OF assms(1)] from_bytes_be_bytes [of port 1]
    by (auto simp: slice_def rlp_port_def Let_def from_bytes_def)
qed

theorem enr_udp_port_roundtrip_witness:
  "enr_udp_port (enr_text (''key'' @ udp_key @ rlp_port 9000 @ ''x'')) = Inr 9000"
  by (rule enr_udp_port_roundtrip) (simp_all add: udp_key_def)

end
