(* ===== verification/Lpt_Supervisor.thy ===== *)
theory Lpt_Supervisor
  imports Py_Prelude
begin

text \<open>
  \<open>apps/liteprotocoltester/lpt_supervisor.py\<close>: the supervisor that runs the protocol tester at fixed
  intervals. The environment file is the outcome of opening and reading it, its text or an exception; a run of the
  tester is the function \<open>system\<close>, which gets the environment and the command and returns the exit code and the
  time when it ended. The function \<open>resume\<close> gives the clock at which the loop goes on after sleeping from a time for
  a number of seconds. The endless loop is a function of the number of rounds.
\<close>

section \<open>The environment file\<close>

text \<open>\<open>key, value = line.strip().split('=', 1)\<close> raises \<open>ValueError\<close> on a line without \<open>=\<close>.\<close>

fun load_env_from :: "(string, string) dict \<Rightarrow> string list \<Rightarrow> (string, string) dict res" where
  "load_env_from d [] = Inr d"
| "load_env_from d (line # ls) =
     (if strip line \<noteq> [] \<and> \<not> startswith line ''#'' then
        (case split_once (CHR ''='') (strip line) of
           [key, value] \<Rightarrow> load_env_from (AList.update key value d) ls
         | _ \<Rightarrow> Inl (Exn ValueError ''not enough values to unpack (expected 2, got 1)''))
      else load_env_from d ls)"

definition load_env :: "string res \<Rightarrow> (string, string) dict res" where
  "load_env file = res_bind file (\<lambda>text. load_env_from [] (file_lines text))"

section \<open>The loop\<close>

type_synonym system_fun = "(string, string) dict \<Rightarrow> string \<Rightarrow> rat \<Rightarrow> int \<times> rat"

text \<open>\<open>run_tester_node\<close>: the file's variables override the inherited ones.\<close>

definition tester_cmd :: "string \<Rightarrow> string" where
  "tester_cmd role = ''/usr/bin/run_tester_node_at_infra.sh /usr/bin/liteprotocoltester '' @ role"

text \<open>\<open>os.environ[key] = value\<close>: an empty name and a NUL byte are refused.\<close>

definition set_environ :: "string \<times> string \<Rightarrow> (string, string) dict \<Rightarrow> (string, string) dict res" where
  "set_environ = (\<lambda>(key, value) environ.
     if char_of (0 :: nat) \<in> set (key @ value) then Inl (Exn ValueError ''embedded null byte'')
     else if key = [] then Inl (Exn OSError ''Invalid argument'')
     else Inr (AList.update key value environ))"

fun override_environ :: "(string, string) dict \<Rightarrow> (string, string) dict \<Rightarrow> (string, string) dict res" where
  "override_environ [] environ = Inr environ"
| "override_environ (kv # kvs) environ = res_bind (set_environ kv environ) (override_environ kvs)"

definition run_tester_node ::
    "system_fun \<Rightarrow> string \<Rightarrow> (string, string) dict \<Rightarrow> (string, string) dict \<Rightarrow> rat \<Rightarrow>
     ((int \<times> rat) \<times> (string, string) dict) res" where
  "run_tester_node system role predefined environ start =
     res_bind (override_environ predefined environ) (\<lambda>environ'.
       Inr (system environ' (tester_cmd role) start, environ'))"

definition valid_role :: "string list \<Rightarrow> bool" where
  "valid_role argv \<longleftrightarrow> 2 \<le> length argv \<and> argv ! 1 \<in> set [''RECEIVER'', ''SENDER'', ''SENDERV3'']"

text \<open>\<open>int(env.get('TEST_INTERVAL_MINUTES', 60))\<close>\<close>

definition test_interval_minutes :: "(string, string) dict \<Rightarrow> int res" where
  "test_interval_minutes env =
     (case map_of env ''TEST_INTERVAL_MINUTES'' of
        None \<Rightarrow> Inr 60
      | Some s \<Rightarrow> (case parse_int s of Some i \<Rightarrow> Inr i | None \<Rightarrow> Inl (Exn ValueError ''invalid literal for int()'')))"

definition sleep_time :: "int \<Rightarrow> rat \<Rightarrow> rat" where
  "sleep_time minutes run_time = max (5 * 60) (of_int (minutes * 60) - run_time)"

record round =
  r_start :: rat
  r_end :: rat
  r_exit :: int
  r_sleep :: rat

type_synonym resume_fun = "rat \<Rightarrow> rat \<Rightarrow> rat"

text \<open>\<open>n\<close> turns of the \<open>while True\<close> loop from time \<open>now\<close>: the rounds and the environment they leave.\<close>

fun supervise ::
    "system_fun \<Rightarrow> resume_fun \<Rightarrow> string \<Rightarrow> (string, string) dict \<Rightarrow> int \<Rightarrow> nat \<Rightarrow> (string, string) dict \<Rightarrow> rat \<Rightarrow>
     round list res" where
  "supervise system resume role predefined minutes 0 environ now = Inr []"
| "supervise system resume role predefined minutes (Suc n) environ now =
     res_bind (run_tester_node system role predefined environ now) (\<lambda>((code, fin), environ').
       let pause = sleep_time minutes (fin - now) in
       res_bind (supervise system resume role predefined minutes n environ' (resume fin pause)) (\<lambda>rounds.
         Inr (\<lparr>r_start = now, r_end = fin, r_exit = code, r_sleep = pause\<rparr> # rounds)))"

text \<open>The program: exit code 1 for a bad role, otherwise the file is read and the loop runs.\<close>

definition supervisor ::
    "system_fun \<Rightarrow> resume_fun \<Rightarrow> string list \<Rightarrow> string res \<Rightarrow> (string, string) dict \<Rightarrow> rat \<Rightarrow> nat \<Rightarrow>
     int + round list res" where
  "supervisor system resume argv infra_env environ now n =
     (if \<not> valid_role argv then Inl 1
      else Inr (res_bind (load_env infra_env) (\<lambda>predefined.
        res_bind (test_interval_minutes predefined) (\<lambda>minutes.
          supervise system resume (argv ! 1) predefined minutes n environ now))))"

section \<open>Properties\<close>

lemma sleep_time_bounds: "300 \<le> sleep_time minutes t" "of_int (minutes * 60) \<le> t + sleep_time minutes t"
  by (simp_all add: sleep_time_def)

lemma supervise_SucE:
  assumes "supervise system resume role pre minutes (Suc n) environ now = Inr rs"
  obtains code fin environ' rs' where
    "rs = \<lparr>r_start = now, r_end = fin, r_exit = code, r_sleep = sleep_time minutes (fin - now)\<rparr> # rs'"
    "supervise system resume role pre minutes n environ' (resume fin (sleep_time minutes (fin - now))) = Inr rs'"
  using assms by (auto simp: res_bind_Inr_iff Let_def)

lemma supervise_start: "supervise system resume role pre minutes n environ now = Inr (r # rs) \<Longrightarrow> r_start r = now"
  by (cases n) (auto elim: supervise_SucE simp del: supervise.simps(2))

lemma supervise_rounds:
  assumes "supervise system resume role pre minutes n environ now = Inr rs" "Suc i < length rs"
  shows "r_start (rs ! Suc i) =
    resume (r_end (rs ! i)) (sleep_time minutes (r_end (rs ! i) - r_start (rs ! i)))"
  using assms
proof (induction n arbitrary: environ now rs i)
  case (Suc n)
  from Suc.prems(1) obtain code fin environ' rs' where
    rs: "rs = \<lparr>r_start = now, r_end = fin, r_exit = code, r_sleep = sleep_time minutes (fin - now)\<rparr> # rs'"
    and rest: "supervise system resume role pre minutes n environ' (resume fin (sleep_time minutes (fin - now))) = Inr rs'"
    by (rule supervise_SucE)
  show ?case
  proof (cases i)
    case 0
    with Suc.prems(2) rs obtain q qs where "rs' = q # qs" by (cases rs') auto
    then show ?thesis using supervise_start rest rs 0 by auto
  next
    case (Suc j)
    then show ?thesis using Suc.IH [OF rest, of j] Suc.prems(2) rs by simp
  qed
qed simp

text \<open>C18: consecutive test runs start at least the configured interval apart, and at least five minutes
  after the previous run ended, for any number of rounds, when a sleep lasts at least as long as asked for.\<close>

theorem supervisor_interval:
  assumes "\<And>t secs. t + secs \<le> resume t secs"
    and "supervise system resume role pre minutes n environ now = Inr rs" "Suc i < length rs"
  shows "r_start (rs ! i) + of_int (minutes * 60) \<le> r_start (rs ! Suc i) \<and>
    r_end (rs ! i) + 300 \<le> r_start (rs ! Suc i)"
  using supervise_rounds [OF assms(2,3)] sleep_time_bounds [of minutes "r_end (rs ! i) - r_start (rs ! i)"]
    assms(1) [of "r_end (rs ! i)" "sleep_time minutes (r_end (rs ! i) - r_start (rs ! i))"] by simp

theorem supervisor_interval_witness:
  "\<exists>rs. supervise (\<lambda>_ _ t. (0, t + 7000)) (\<lambda>t secs. t + secs + 1) ''SENDER'' [(''A'', ''1'')] 60 2 [] 0 = Inr rs \<and>
     r_start (rs ! 1) \<ge> 7300"
proof -
  obtain r r' where run: "supervise (\<lambda>_ _ t. (0, t + 7000)) (\<lambda>t secs. t + secs + 1) ''SENDER'' [(''A'', ''1'')] 60 2 [] 0 =
      Inr [r, r']" "r_end r = 7000"
    by (simp add: eval_nat_numeral run_tester_node_def set_environ_def char_of_def Let_def)
  then show ?thesis using supervisor_interval [OF _ run(1), of 0] by auto
qed

text \<open>A round that runs leaves the file's variables in the environment of the tester, and the others as they were;
  the rounds all run when the file sets no variable that the system refuses.\<close>

lemma map_of_dict_update_rev: "map_of (dict_update d xs) = map_of d ++ map_of (rev xs)" for d xs :: "(string, string) dict"
  by (induction xs arbitrary: d) (auto simp: dict_update_def update_conv' split: prod.splits)

lemma override_environ_lookup:
  "override_environ kvs environ = Inr environ' \<Longrightarrow> map_of environ' = map_of environ ++ map_of (dict_update [] kvs)"
  unfolding map_of_dict_update_rev
  by (induction kvs arbitrary: environ)
    (auto simp: set_environ_def update_conv' map_add_def fun_eq_iff split: if_splits option.splits)

lemma supervise_runs:
  assumes "list_all (\<lambda>(k, v). k \<noteq> [] \<and> char_of (0 :: nat) \<notin> set (k @ v)) pre"
  shows "\<exists>rs. supervise system resume role pre minutes n environ now = Inr rs \<and> length rs = n"
proof -
  have env: "\<exists>environ'. override_environ pre environ = Inr environ'" for environ
    using assms by (induction pre arbitrary: environ) (auto simp: set_environ_def)
  show ?thesis
  proof (induction n arbitrary: environ now)
    case (Suc n)
    obtain environ' where e: "override_environ pre environ = Inr environ'" using env by blast
    obtain code fin where "system environ' (tester_cmd role) now = (code, fin)" by fastforce
    with e Suc.IH [of environ' "resume fin (sleep_time minutes (fin - now))"] show ?case
      by (auto simp: run_tester_node_def Let_def)
  qed simp
qed

text \<open>A file made of lines of three kinds: blank ones, comments, and settings with space around them. Its lines end
  in \<open>eol\<close>, one of the three line ends of text files; the last line may lack it.\<close>

datatype env_entry = Blank string | Comment string | Setting string string string string

primrec entry_text :: "env_entry \<Rightarrow> string" where
  "entry_text (Blank w) = w"
| "entry_text (Comment t) = ''#'' @ t"
| "entry_text (Setting w k v w') = w @ k @ ''='' @ v @ w'"

primrec setting :: "env_entry \<Rightarrow> (string \<times> string) list" where
  "setting (Blank w) = []"
| "setting (Comment t) = []"
| "setting (Setting w k v w') = [(k, v)]"

primrec env_entry_ok :: "env_entry \<Rightarrow> bool" where
  "env_entry_ok (Blank w) = list_all is_space w"
| "env_entry_ok (Comment t) = True"
| "env_entry_ok (Setting w k v w') =
     (list_all is_space w \<and> list_all is_space w' \<and> CHR ''='' \<notin> set k \<and> strip (k @ ''='' @ v) = k @ ''='' @ v \<and>
      \<not> startswith (w @ k) ''#'')"

definition one_line :: "string \<Rightarrow> bool" where
  "one_line s \<longleftrightarrow> newline \<notin> set s \<and> char_of (13 :: nat) \<notin> set s"

definition env_file :: "string \<Rightarrow> env_entry list \<Rightarrow> string" where
  "env_file eol es = join eol (map entry_text es)"

lemma newlines_from_LF: "newline \<notin> set s \<Longrightarrow> newlines_from b s = replace_char (char_of (13 :: nat)) newline s"
  by (induction b s rule: newlines_from.induct) (auto simp: replace_char_def)

lemma replace_join: "replace_char a b (join s ls) = join (replace_char a b s) (map (replace_char a b) ls)"
  by (induction s ls rule: join.induct) (auto simp: replace_char_def)

lemma replace_char_id: "a \<notin> set s \<Longrightarrow> replace_char a b s = s"
  by (induction s) (auto simp: replace_char_def)

lemma set_join: "set (join s ls) \<subseteq> set s \<union> \<Union> (set ` set ls)"
  by (induction s ls rule: join.induct) auto

lemma newlines_from_prefix: "one_line l \<Longrightarrow> newlines_from False (l @ s) = l @ newlines_from False s"
  by (induction l) (auto simp: one_line_def)

lemma newline_not_cr: "newline \<noteq> char_of (13 :: nat)" "char_of (13 :: nat) \<noteq> newline"
  by (simp_all add: newline_def)

lemma universal_newlines_join:
  assumes "list_all one_line ls" "eol \<in> {[newline], [char_of (13 :: nat)], [char_of (13 :: nat), newline]}"
  shows "universal_newlines (join eol ls) = join [newline] ls"
proof -
  consider "eol = [newline]" | "eol = [char_of (13 :: nat)]" | "eol = [char_of (13 :: nat), newline]" using assms(2) by auto
  then show ?thesis
  proof cases
    case 1
    then show ?thesis
      using assms(1) set_join [of eol ls] newline_not_cr by (intro trans [OF universal_newlines_id]) (auto simp: one_line_def list_all_iff)
  next
    case 2
    have "newline \<notin> set (join eol ls)" using assms(1) set_join [of eol ls] 2 newline_not_cr by (auto simp: one_line_def list_all_iff)
    moreover have "map (replace_char (char_of (13 :: nat)) newline) ls = ls"
      using assms(1) by (intro map_idI replace_char_id) (auto simp: one_line_def list_all_iff)
    ultimately show ?thesis using 2
      by (simp add: universal_newlines_def newlines_from_LF replace_join) (simp add: replace_char_def)
  next
    case 3
    with assms(1) show ?thesis unfolding universal_newlines_def
      by (induction eol ls rule: join.induct)
        (use newlines_from_prefix [of _ "[]"] in \<open>auto simp: newlines_from_prefix newline_not_cr\<close>)
  qed
qed

lemma dropWhile_pad: "list_all P w \<Longrightarrow> dropWhile P (w @ s) = dropWhile P s"
  by (induction w) auto

lemma strip_blank:
  "list_all is_space w \<Longrightarrow> strip w = []"
proof -
  assume "list_all is_space w"
  then have "dropWhile is_space w = []" using dropWhile_pad [of is_space w "[]"] by simp
  then show ?thesis by (simp only: strip_def lstrip_def rstrip_def dropWhile.simps rev.simps)
qed

lemma strip_pad:
  assumes "list_all is_space w" "list_all is_space w'" "strip m = m" "m \<noteq> []"
  shows "strip (w @ m @ w') = m"
proof -
  have m: "rev (dropWhile is_space (rev (dropWhile is_space m))) = m" using assms(3) by (simp add: strip_def lstrip_def rstrip_def)
  then have "length m \<le> length (dropWhile is_space m)" by (metis length_dropWhile_le length_rev)
  then have l: "dropWhile is_space m = m" 
  proof (cases m)
    case (Cons c cs)
    then show ?thesis using \<open>length m \<le> _\<close> length_dropWhile_le [of is_space cs] by (auto split: if_splits)
  qed simp
  with assms(4) have "dropWhile is_space (m @ w') = m @ w'" by (cases m) (auto split: if_splits simp: l dest: dropWhile_eq_Cons_conv [THEN iffD1])
  moreover have "dropWhile is_space (rev w' @ rev m) = rev m"
    using assms(2) m l by (simp add: dropWhile_pad list_all_rev rev_swap)
  ultimately show ?thesis using assms(1) by (simp add: strip_def lstrip_def rstrip_def dropWhile_pad)
qed

lemma is_space_newline: "is_space newline"
  by (simp add: is_space_def newline_def)

text \<open>A line of the file, with its newline or without.\<close>

lemma load_env_entry:
  assumes "env_entry_ok e" "list_all is_space nl" "entry_text e @ nl \<noteq> []"
  shows "load_env_from d ((entry_text e @ nl) # ls) = load_env_from (dict_update d (setting e)) ls"
proof (cases e)
  case (Blank w)
  then show ?thesis using assms by (simp add: strip_blank)
next
  case (Comment t)
  then show ?thesis by simp
next
  case (Setting w k v w')
  with assms have "strip (w @ (k @ ''='' @ v) @ w' @ nl) = k @ ''='' @ v" by (intro strip_pad) auto
  moreover have "\<not> startswith (w @ k @ CHR ''='' # v @ w' @ nl) ''#''"
    using assms(1) Setting by (cases w; cases k) auto
  ultimately show ?thesis using assms(1) Setting by (simp add: split_once_append)
qed

lemma load_env_entries:
  assumes "list_all (\<lambda>e. env_entry_ok e \<and> one_line (entry_text e)) es"
  shows "load_env_from d (split_lines (join [newline] (map entry_text es))) = Inr (dict_update d (concat (map setting es)))"
  using assms
proof (induction es arbitrary: d rule: induct_list012)
  case 1
  show ?case by simp
next
  case (2 e)
  have l: "split_lines s = (if s = [] then [] else [s])" if "newline \<notin> set s" for s using that by (induction s) auto
  show ?case
  proof (cases "entry_text e = []")
    case True
    then have "setting e = []" by (cases e) auto
    then show ?thesis using True by simp
  next
    case False
    then show ?thesis using load_env_entry [of e "[]" d "[]"] 2 l [of "entry_text e"] by (simp add: one_line_def)
  qed
next
  case (3 e e' es)
  have "load_env_from d (split_lines (join [newline] (map entry_text (e # e' # es)))) =
      load_env_from d ((entry_text e @ [newline]) # split_lines (join [newline] (map entry_text (e' # es))))"
    using 3 by (simp add: split_lines_line one_line_def)
  also have "\<dots> = load_env_from (dict_update d (setting e)) (split_lines (join [newline] (map entry_text (e' # es))))"
    using 3 by (intro load_env_entry) (auto simp: is_space_newline)
  also have "\<dots> = Inr (dict_update (dict_update d (setting e)) (concat (map setting (e' # es))))"
    using 3 by simp
  finally show ?case by (simp add: dict_update_def)
qed

text \<open>C19: reading an environment file of blank lines, comments and \<open>KEY=value\<close> settings with space around them, whose
  lines end in any of the line ends of text files, gives back exactly the settings, without that space and without
  the line ends, the last one winning for a repeated key; a value may contain further equals signs.\<close>

theorem load_env_roundtrip:
  assumes "list_all (\<lambda>e. env_entry_ok e \<and> one_line (entry_text e)) es"
    and "eol \<in> {[newline], [char_of (13 :: nat)], [char_of (13 :: nat), newline]}"
  shows "load_env (Inr (env_file eol es)) = Inr (dict_update [] (concat (map setting es)))"
proof -
  have "universal_newlines (env_file eol es) = join [newline] (map entry_text es)"
    unfolding env_file_def using assms by (intro universal_newlines_join) (auto simp: list_all_iff)
  then show ?thesis using load_env_entries [OF assms(1)] by (simp add: load_env_def file_lines_def)
qed

theorem load_env_roundtrip_witness:
  "load_env (Inr (''A=1'' @ [newline] @ ''# B=2'' @ [newline, newline] @ ''  B=x=y '' @ [newline] @ ''A=2'')) =
     Inr [(''A'', ''2''), (''B'', ''x=y'')]"
proof -
  let ?es = "[Setting [] ''A'' ''1'' [], Comment '' B=2'', Blank [], Setting ''  '' ''B'' ''x=y'' '' '', Setting [] ''A'' ''2'' []]"
  have "list_all (\<lambda>e. env_entry_ok e \<and> one_line (entry_text e)) ?es" by code_simp
  from load_env_roundtrip [OF this, of "[newline]"] show ?thesis by (simp add: env_file_def)
qed

end
