(* ===== verification/Wrapper_Manager.thy ===== *)
theory Wrapper_Manager
  imports Py_Prelude
begin

text \<open>
  \<open>tests-e2e/src/node/wrappers_manager.py\<close>: the manager of a native node. The class it wraps,
  \<open>NodeWrapper\<close> of the language bindings, lives in a git submodule and is the record \<open>node_lib\<close> of
  its methods over a world \<open>'w\<close>: \<open>'h\<close> is a node handle, \<open>'cb\<close> an event callback, and a \<open>Result\<close> is
  a sum, \<open>Inl\<close> the text of \<open>Err\<close> and \<open>Inr\<close> the value of \<open>Ok\<close>.
\<close>

type_synonym ('w, 'a) call = "'w \<Rightarrow> (string + 'a) \<times> 'w"

record ('w, 'h, 'cb) node_lib =
  lib_create_node :: "(string, pyval) dict \<Rightarrow> 'cb option \<Rightarrow> rat \<Rightarrow> ('w, 'h) call"
  lib_create_and_start :: "(string, pyval) dict \<Rightarrow> 'cb option \<Rightarrow> rat \<Rightarrow> ('w, 'h) call"
  lib_start_node :: "'h \<Rightarrow> rat \<Rightarrow> ('w, int) call"
  lib_stop_node :: "'h \<Rightarrow> rat \<Rightarrow> ('w, int) call"
  lib_destroy :: "'h \<Rightarrow> rat \<Rightarrow> ('w, int) call"
  lib_stop_and_destroy :: "'h \<Rightarrow> rat \<Rightarrow> ('w, int) call"
  lib_destroy_keep_ctx :: "'h \<Rightarrow> rat \<Rightarrow> ('w, int) call"
  lib_subscribe_content_topic :: "'h \<Rightarrow> string \<Rightarrow> rat \<Rightarrow> ('w, int) call"
  lib_unsubscribe_content_topic :: "'h \<Rightarrow> string \<Rightarrow> rat \<Rightarrow> ('w, int) call"
  lib_send_message :: "'h \<Rightarrow> (string, pyval) dict \<Rightarrow> rat \<Rightarrow> ('w, string) call"
  lib_channel_create :: "'h \<Rightarrow> string \<Rightarrow> string \<Rightarrow> string \<Rightarrow> rat \<Rightarrow> ('w, string) call"
  lib_channel_send :: "'h \<Rightarrow> string \<Rightarrow> (string, pyval) dict \<Rightarrow> rat \<Rightarrow> ('w, string) call"
  lib_channel_close :: "'h \<Rightarrow> string \<Rightarrow> rat \<Rightarrow> ('w, string) call"
  lib_get_available_node_info_ids :: "'h \<Rightarrow> rat \<Rightarrow> ('w, string list) call"
  lib_get_node_info :: "'h \<Rightarrow> string \<Rightarrow> rat \<Rightarrow> ('w, string) call"
  lib_get_available_configs :: "'h \<Rightarrow> rat \<Rightarrow> ('w, (string, pyval) dict) call"

record 'h WrapperManager =
  wrapped :: 'h

text \<open>The default of every \<open>timeout_s\<close>.\<close>

definition default_timeout_s :: rat where
  "default_timeout_s = 20"

text \<open>The module puts the directory of the bindings in front of the search path, once. Paths are lists of parts;
  \<open>Path(__file__).resolve().parents[2]\<close> is the file's path without its last three parts.\<close>

definition bindings_path :: "string list \<Rightarrow> string list" where
  "bindings_path file = take (length file - 3) file @ [''vendor'', ''logos-delivery-python-bindings'', ''logosdelivery'']"

definition search_path :: "string list \<Rightarrow> string list list \<Rightarrow> string list list" where
  "search_path file sys_path = (if bindings_path file \<in> set sys_path then sys_path else bindings_path file # sys_path)"

lemma search_path_idem: "search_path file (search_path file p) = search_path file p"
  by (simp add: search_path_def)

section \<open>Creation\<close>

definition manage :: "('w, 'h) call \<Rightarrow> ('w, 'h WrapperManager) call" where
  "manage m w = (case m w of (Inl e, w') \<Rightarrow> (Inl e, w') | (Inr h, w') \<Rightarrow> (Inr \<lparr>wrapped = h\<rparr>, w'))"

definition wm_create ::
    "('w, 'h, 'cb) node_lib \<Rightarrow> (string, pyval) dict \<Rightarrow> 'cb option \<Rightarrow> rat \<Rightarrow> ('w, 'h WrapperManager) call" where
  "wm_create L config event_cb timeout_s = manage (lib_create_node L config event_cb timeout_s)"

definition wm_create_and_start ::
    "('w, 'h, 'cb) node_lib \<Rightarrow> (string, pyval) dict \<Rightarrow> 'cb option \<Rightarrow> rat \<Rightarrow> ('w, 'h WrapperManager) call" where
  "wm_create_and_start L config event_cb timeout_s = manage (lib_create_and_start L config event_cb timeout_s)"

section \<open>Operations\<close>

definition wm_start_node where
  "wm_start_node L m timeout_s = lib_start_node L (wrapped m) timeout_s"
definition wm_stop_node where
  "wm_stop_node L m timeout_s = lib_stop_node L (wrapped m) timeout_s"
definition wm_destroy where
  "wm_destroy L m timeout_s = lib_destroy L (wrapped m) timeout_s"
definition wm_stop_and_destroy where
  "wm_stop_and_destroy L m timeout_s = lib_stop_and_destroy L (wrapped m) timeout_s"
definition wm_destroy_keep_ctx where
  "wm_destroy_keep_ctx L m timeout_s = lib_destroy_keep_ctx L (wrapped m) timeout_s"
definition wm_subscribe_content_topic where
  "wm_subscribe_content_topic L m content_topic timeout_s =
     lib_subscribe_content_topic L (wrapped m) content_topic timeout_s"
definition wm_unsubscribe_content_topic where
  "wm_unsubscribe_content_topic L m content_topic timeout_s =
     lib_unsubscribe_content_topic L (wrapped m) content_topic timeout_s"
definition wm_send_message where
  "wm_send_message L m msg timeout_s = lib_send_message L (wrapped m) msg timeout_s"
definition wm_channel_create where
  "wm_channel_create L m channel_id content_topic sender_id timeout_s =
     lib_channel_create L (wrapped m) channel_id content_topic sender_id timeout_s"
definition wm_channel_send where
  "wm_channel_send L m channel_id msg timeout_s = lib_channel_send L (wrapped m) channel_id msg timeout_s"
definition wm_channel_close where
  "wm_channel_close L m channel_id timeout_s = lib_channel_close L (wrapped m) channel_id timeout_s"
definition wm_get_available_node_info_ids where
  "wm_get_available_node_info_ids L m timeout_s = lib_get_available_node_info_ids L (wrapped m) timeout_s"
definition wm_get_node_info where
  "wm_get_node_info L m node_info_id timeout_s = lib_get_node_info L (wrapped m) node_info_id timeout_s"
definition wm_get_available_configs where
  "wm_get_available_configs L m timeout_s = lib_get_available_configs L (wrapped m) timeout_s"

definition wm_enter :: "'h WrapperManager \<Rightarrow> 'h WrapperManager" where
  "wm_enter m = m"

text \<open>\<open>__exit__\<close>: the \<open>Result\<close> of the teardown is not looked at.\<close>

definition wm_exit :: "('w, 'h, 'cb) node_lib \<Rightarrow> 'h WrapperManager \<Rightarrow> 'w \<Rightarrow> 'w" where
  "wm_exit L m w = snd (wm_stop_and_destroy L m default_timeout_s w)"

end
