(* ===== verification/Channel_Process.thy ===== *)
theory Channel_Process
  imports Wrapper_Helpers Wrapper_Manager
begin

text \<open>
  \<open>tests-e2e/src/node/subprocess_node.py\<close>: a channel peer in a process of its own. The parent and the
  worker share three queues and a stop event. Every step of either process is an executable function
  on the state of the pair, and the relation \<open>step\<close> interleaves them with the callback thread of the
  native node; its labels record the commands issued, executed and acknowledged.
\<close>

section \<open>Queues\<close>

definition q_put :: "'a list \<Rightarrow> 'a \<Rightarrow> 'a list" where
  "q_put q x = q @ [x]"

definition q_get :: "'a list \<Rightarrow> ('a \<times> 'a list) option" where
  "q_get q = (case q of [] \<Rightarrow> None | x # xs \<Rightarrow> Some (x, xs))"

text \<open>What a reader may rely on: items come out in the order they were put in, each once.\<close>

locale fifo =
  fixes put :: "'q \<Rightarrow> 'a \<Rightarrow> 'q"
    and get :: "'q \<Rightarrow> ('a \<times> 'q) option"
    and contents :: "'q \<Rightarrow> 'a list"
  assumes contents_put: "contents (put q x) = contents q @ [x]"
    and contents_get: "get q = Some (x, q') \<Longrightarrow> contents q = x # contents q'"
    and get_none: "get q = None \<longleftrightarrow> contents q = []"
begin

lemma contents_puts: "contents (foldl put q xs) = contents q @ xs"
  by (induction xs arbitrary: q) (simp_all add: contents_put)

lemma transfer_puts: "taken @ contents q = sent \<Longrightarrow> taken @ contents (foldl put q xs) = sent @ xs"
  by (simp add: contents_puts)

lemma transfer_get: "get q = Some (x, q') \<Longrightarrow> taken @ contents q = sent \<Longrightarrow> (taken @ [x]) @ contents q' = sent"
  by (simp add: contents_get)

end

interpretation mpq: fifo q_put q_get "\<lambda>q. q"
  by unfold_locales (auto simp: q_put_def q_get_def split: list.splits)

section \<open>State\<close>

definition CMD_SEND :: string where "CMD_SEND = ''send''"
definition CMD_RECREATE :: string where "CMD_RECREATE = ''recreate''"

text \<open>A command is a pair of an operation and an argument; a reply is the address of the ready peer or
  the outcome of a step, \<open>None\<close> for success.\<close>

type_synonym cmd = "string \<times> pyval"

datatype reply = Ready string | Outcome "string option"

record chan_args =
  ca_config :: "(string, pyval) dict"
  ca_content_topic :: string
  ca_channel_id :: string
  ca_sender_id :: string
  ca_payload_b64 :: "pyval option"
  ca_storage_dir :: string

text \<open>Where the worker is: before the start, in the two waits of the setup and the parts after each,
  at the head of the serve loop or blocked on the command queue (both with the number of forwarded
  events), returned, or terminated by the parent.\<close>

datatype 'h worker_at =
    Unspawned | Starting | Connecting "'h WrapperManager" | Subscribing "'h WrapperManager"
  | Meshing "'h WrapperManager" | FirstSend "'h WrapperManager"
  | Serving "'h WrapperManager" nat | Polling "'h WrapperManager" nat | Finished | Terminated

datatype parent_at = NotEntered | Entering | Idle | AwaitAck cmd | Exited

record ('w, 'h) pair_state =
  native :: 'w
  collector :: EventCollector
  worker :: "'h worker_at"
  result_q :: "reply list"
  cmd_q :: "cmd list"
  evt_q :: "pyval list"
  stop_evt :: bool
  parent :: parent_at
  received :: "pyval list"
  multiaddr :: "string option"

text \<open>\<open>__init__\<close>\<close>

definition new_pair :: "'w \<Rightarrow> ('w, 'h) pair_state" where
  "new_pair w = \<lparr>native = w, collector = new_collector, worker = Unspawned, result_q = [], cmd_q = [], evt_q = [],
     stop_evt = False, parent = NotEntered, received = [], multiaddr = None\<rparr>"

section \<open>The worker\<close>

definition chan_send ::
    "('w, 'h, 'cb) node_lib \<Rightarrow> 'h WrapperManager \<Rightarrow> string \<Rightarrow> pyval \<Rightarrow> 'w \<Rightarrow> string option \<times> 'w" where
  "chan_send L sender channel_id payload_b64 w =
     (case wm_channel_send L sender channel_id (create_message_bindings [(''payload'', payload_b64)]) default_timeout_s w of
        (Inl e, w') \<Rightarrow> (Some (''sender channel_send failed: '' @ e), w')
      | (Inr v, w') \<Rightarrow>
          (if v = [] then Some (''sender channel_send returned an empty handle: '' @ repr_str v) else None, w'))"

definition chan_recreate ::
    "('w, 'h, 'cb) node_lib \<Rightarrow> 'h WrapperManager \<Rightarrow> string \<Rightarrow> string \<Rightarrow> string \<Rightarrow> 'w \<Rightarrow> string option \<times> 'w" where
  "chan_recreate L sender channel_id content_topic sender_id w =
     (case wm_channel_close L sender channel_id default_timeout_s w of
        (Inl e, w') \<Rightarrow> (Some (''sender channel_close failed: '' @ e), w')
      | (Inr _, w') \<Rightarrow>
          (case wm_channel_create L sender channel_id content_topic sender_id default_timeout_s w' of
             (Inl e, w'') \<Rightarrow> (Some (''sender channel_create failed: '' @ e), w'')
           | (Inr _, w'') \<Rightarrow> (None, w'')))"

text \<open>The end of the \<open>with\<close> block, by return or by an exception.\<close>

definition leave ::
    "('w, 'h, 'cb) node_lib \<Rightarrow> 'h WrapperManager \<Rightarrow> ('w, 'h) pair_state \<Rightarrow> ('w, 'h) pair_state" where
  "leave L m s = s\<lparr>native := wm_exit L m (native s), worker := Finished\<rparr>"

definition put_reply :: "reply \<Rightarrow> ('w, 'h) pair_state \<Rightarrow> ('w, 'h) pair_state" where
  "put_reply r s = s\<lparr>result_q := q_put (result_q s) r\<rparr>"

definition fail_setup ::
    "('w, 'h, 'cb) node_lib \<Rightarrow> 'h WrapperManager \<Rightarrow> string \<Rightarrow> ('w, 'h) pair_state \<Rightarrow> ('w, 'h) pair_state" where
  "fail_setup L m msg s = leave L m (put_reply (Outcome (Some msg)) s)"

definition worker_config :: "chan_args \<Rightarrow> (string, pyval) dict" where
  "worker_config a =
     dict_update (ca_config a) (map (\<lambda>(k, v). (k, PStr v)) (local_storage_config (ca_storage_dir a)))"

definition has_staticnodes :: "chan_args \<Rightarrow> bool" where
  "has_staticnodes a = (case map_of (worker_config a) ''staticnodes'' of None \<Rightarrow> False | Some v \<Rightarrow> truthy v)"

definition worker_start ::
    "('w, 'h, 'cb) node_lib \<Rightarrow> chan_args \<Rightarrow> 'cb \<Rightarrow> ('w, 'h) pair_state \<Rightarrow> ('w, 'h) pair_state" where
  "worker_start L a cb s =
     (case wm_create_and_start L (worker_config a) (Some cb) default_timeout_s (native s) of
        (Inl e, w) \<Rightarrow> put_reply (Outcome (Some (''sender start failed: '' @ e))) s\<lparr>native := w, worker := Finished\<rparr>
      | (Inr m, w) \<Rightarrow> s\<lparr>native := w, worker := (if has_staticnodes a then Connecting m else Subscribing m)\<rparr>)"

text \<open>One poll of \<open>wait_for_connected\<close> before its deadline, and its return after it.\<close>

definition worker_connect_poll ::
    "('w, 'h, 'cb) node_lib \<Rightarrow> 'h WrapperManager \<Rightarrow> ('w, 'h) pair_state \<Rightarrow> ('w, 'h) pair_state" where
  "worker_connect_poll L m s =
     (case find_res is_connected_event (snapshot (collector s)) of
        Inl _ \<Rightarrow> leave L m s
      | Inr None \<Rightarrow> s
      | Inr (Some _) \<Rightarrow> s\<lparr>worker := Subscribing m\<rparr>)"

definition worker_connect_timeout ::
    "('w, 'h, 'cb) node_lib \<Rightarrow> 'h WrapperManager \<Rightarrow> ('w, 'h) pair_state \<Rightarrow> ('w, 'h) pair_state" where
  "worker_connect_timeout L m s = fail_setup L m ''sender did not reach Connected/PartiallyConnected state'' s"

definition worker_subscribe ::
    "('w, 'h, 'cb) node_lib \<Rightarrow> chan_args \<Rightarrow> 'h WrapperManager \<Rightarrow> ('w, 'h) pair_state \<Rightarrow> ('w, 'h) pair_state" where
  "worker_subscribe L a m s =
     (case wm_subscribe_content_topic L m (ca_content_topic a) default_timeout_s (native s) of
        (Inl e, w) \<Rightarrow> fail_setup L m (''sender subscribe_content_topic failed: '' @ e) (s\<lparr>native := w\<rparr>)
      | (Inr _, w) \<Rightarrow>
          (case wm_channel_create L m (ca_channel_id a) (ca_content_topic a) (ca_sender_id a) default_timeout_s w of
             (Inl e, w') \<Rightarrow> fail_setup L m (''sender channel_create failed: '' @ e) (s\<lparr>native := w'\<rparr>)
           | (Inr _, w') \<Rightarrow> s\<lparr>native := w', worker := (if has_staticnodes a then Meshing m else FirstSend m)\<rparr>))"

definition worker_mesh_poll ::
    "('w, 'h, 'cb) node_lib \<Rightarrow> 'h WrapperManager \<Rightarrow> ('w, 'h) pair_state \<Rightarrow> ('w, 'h) pair_state" where
  "worker_mesh_poll L m s =
     (case mesh_check (snapshot (collector s)) of
        Inl _ \<Rightarrow> leave L m s
      | Inr None \<Rightarrow> s
      | Inr (Some _) \<Rightarrow> s\<lparr>worker := FirstSend m\<rparr>)"

definition worker_mesh_timeout ::
    "('w, 'h, 'cb) node_lib \<Rightarrow> 'h WrapperManager \<Rightarrow> ('w, 'h) pair_state \<Rightarrow> ('w, 'h) pair_state" where
  "worker_mesh_timeout L m s = fail_setup L m ''sender gossipsub mesh has no peer'' s"

text \<open>\<open>get_node_multiaddr\<close> asks the node for the one item \<open>Multiaddrs\<close>.\<close>

definition signal_ready ::
    "('w, 'h, 'cb) node_lib \<Rightarrow> 'h WrapperManager \<Rightarrow> ('w, 'h) pair_state \<Rightarrow> ('w, 'h) pair_state" where
  "signal_ready L m s =
     (case wm_get_node_info L m ''Multiaddrs'' default_timeout_s (native s) of
        (info, w) \<Rightarrow>
          (case get_node_multiaddr (\<lambda>_. info) of
             Inl _ \<Rightarrow> leave L m (s\<lparr>native := w\<rparr>)
           | Inr addr \<Rightarrow> put_reply (Ready addr) s\<lparr>native := w, worker := Serving m 0\<rparr>))"

definition worker_first_send ::
    "('w, 'h, 'cb) node_lib \<Rightarrow> chan_args \<Rightarrow> 'h WrapperManager \<Rightarrow> ('w, 'h) pair_state \<Rightarrow> ('w, 'h) pair_state" where
  "worker_first_send L a m s =
     (case ca_payload_b64 a of
        None \<Rightarrow> signal_ready L m s
      | Some p \<Rightarrow>
          (case chan_send L m (ca_channel_id a) p (native s) of
             (Some e, w) \<Rightarrow> fail_setup L m e (s\<lparr>native := w\<rparr>)
           | (None, w) \<Rightarrow> signal_ready L m (s\<lparr>native := w\<rparr>)))"

text \<open>The serve loop: the test of the stop event, the forwarding of new events, a command.\<close>

definition is_channel_event :: "string \<Rightarrow> pyval \<Rightarrow> bool res" where
  "is_channel_event channel_id e =
     res_bind (field_is ''eventType'' EVENT_CHANNEL_RECEIVED e) (\<lambda>b.
       if b then field_is ''channelId'' channel_id e else Inr False)"

definition serve_forward ::
    "('w, 'h, 'cb) node_lib \<Rightarrow> chan_args \<Rightarrow> 'h WrapperManager \<Rightarrow> nat \<Rightarrow> ('w, 'h) pair_state \<Rightarrow> ('w, 'h) pair_state" where
  "serve_forward L a m forwarded s =
     (if stop_evt s then leave L m s
      else case filter_res (is_channel_event (ca_channel_id a)) (snapshot (collector s)) of
             Inl _ \<Rightarrow> leave L m s
           | Inr rcv \<Rightarrow> s\<lparr>evt_q := foldl q_put (evt_q s) (drop forwarded rcv), worker := Polling m (length rcv)\<rparr>)"

definition exec_cmd ::
    "('w, 'h, 'cb) node_lib \<Rightarrow> chan_args \<Rightarrow> 'h WrapperManager \<Rightarrow> cmd \<Rightarrow> 'w \<Rightarrow> string option \<times> 'w" where
  "exec_cmd L a m c w =
     (if fst c = CMD_SEND then chan_send L m (ca_channel_id a) (snd c) w
      else chan_recreate L m (ca_channel_id a) (ca_content_topic a) (ca_sender_id a) w)"

definition serve_command ::
    "('w, 'h, 'cb) node_lib \<Rightarrow> chan_args \<Rightarrow> 'h WrapperManager \<Rightarrow> nat \<Rightarrow> cmd \<Rightarrow> cmd list \<Rightarrow> ('w, 'h) pair_state \<Rightarrow>
     ('w, 'h) pair_state" where
  "serve_command L a m forwarded c rest s =
     (case exec_cmd L a m c (native s) of
        (out, w) \<Rightarrow> put_reply (Outcome out) s\<lparr>native := w, cmd_q := rest, worker := Serving m forwarded\<rparr>)"

section \<open>The parent\<close>

definition parent_spawn :: "('w, 'h) pair_state \<Rightarrow> ('w, 'h) pair_state" where
  "parent_spawn s = s\<lparr>worker := Starting, parent := Entering\<rparr>"

text \<open>\<open>__exit__\<close> asks the worker to stop and, when the join times out, terminates it.\<close>

definition parent_exit :: "('w, 'h) pair_state \<Rightarrow> ('w, 'h) pair_state" where
  "parent_exit s = s\<lparr>stop_evt := True, parent := Exited\<rparr>"

definition parent_terminate :: "('w, 'h) pair_state \<Rightarrow> ('w, 'h) pair_state" where
  "parent_terminate s = (if worker s = Finished then s else s\<lparr>worker := Terminated\<rparr>)"

definition parent_entered :: "reply \<Rightarrow> reply list \<Rightarrow> ('w, 'h) pair_state \<Rightarrow> ('w, 'h) pair_state" where
  "parent_entered r rest s =
     (case r of
        Ready addr \<Rightarrow> s\<lparr>result_q := rest, multiaddr := Some addr, parent := Idle\<rparr>
      | Outcome _ \<Rightarrow> parent_exit (s\<lparr>result_q := rest\<rparr>))"

text \<open>\<open>_run\<close>: the command is put, then its reply awaited. Every reply but \<open>None\<close> is raised.\<close>

definition parent_issue :: "cmd \<Rightarrow> ('w, 'h) pair_state \<Rightarrow> ('w, 'h) pair_state" where
  "parent_issue c s = s\<lparr>cmd_q := q_put (cmd_q s) c, parent := AwaitAck c\<rparr>"

definition send_cmd :: "pyval \<Rightarrow> cmd" where
  "send_cmd payload_b64 = (CMD_SEND, payload_b64)"

definition recreate_cmd :: cmd where
  "recreate_cmd = (CMD_RECREATE, PNone)"

definition run_result :: "reply \<Rightarrow> unit res" where
  "run_result r =
     (case r of Outcome None \<Rightarrow> Inr () | Outcome (Some e) \<Rightarrow> Inl (Exn AssertionError e)
      | Ready addr \<Rightarrow> Inl (Exn AssertionError addr))"

definition parent_acked :: "reply list \<Rightarrow> ('w, 'h) pair_state \<Rightarrow> ('w, 'h) pair_state" where
  "parent_acked rest s = s\<lparr>result_q := rest, parent := Idle\<rparr>"

definition parent_take :: "pyval \<Rightarrow> pyval list \<Rightarrow> ('w, 'h) pair_state \<Rightarrow> ('w, 'h) pair_state" where
  "parent_take e rest s = s\<lparr>evt_q := rest, received := received s @ [e]\<rparr>"

text \<open>\<open>wait_for_received\<close>: \<open>arr k\<close> is the outcome of the \<open>k\<close>-th \<open>get\<close>, \<open>None\<close> for \<open>Empty\<close>, and \<open>clk k\<close> the
  clock at the \<open>k\<close>-th test of the loop.\<close>

partial_function (option) wait_for_received ::
    "(nat \<Rightarrow> 'e option) \<Rightarrow> (nat \<Rightarrow> rat) \<Rightarrow> rat \<Rightarrow> nat \<Rightarrow> 'e list \<Rightarrow> nat \<Rightarrow> 'e list option" where
  "wait_for_received arr clk deadline count rcv k =
     (if length rcv < count \<and> clk k < deadline then
        (case arr k of
           Some e \<Rightarrow> wait_for_received arr clk deadline count (rcv @ [e]) (Suc k)
         | None \<Rightarrow> wait_for_received arr clk deadline count rcv (Suc k))
      else Some rcv)"

declare wait_for_received.simps [code]

section \<open>The two processes together\<close>

datatype label =
    Internal
  | Issued cmd
  | Executed cmd "string option"
  | Acked cmd reply
  | Unacked cmd

text \<open>\<open>get(timeout=...)\<close> may raise \<open>Empty\<close> although an item was put: it can still be with the feeder
  thread of the queue. So the three timeouts have no condition on the queue.\<close>

inductive step ::
    "('w, 'h, 'cb) node_lib \<Rightarrow> chan_args \<Rightarrow> 'cb \<Rightarrow> ('w, 'h) pair_state \<Rightarrow> label \<Rightarrow> ('w, 'h) pair_state \<Rightarrow> bool"
  for L a cb where
  callback: "step L a cb s Internal (s\<lparr>collector := event_callback ret raw (collector s)\<rparr>)"
| w_start: "worker s = Starting \<Longrightarrow> step L a cb s Internal (worker_start L a cb s)"
| w_connect: "worker s = Connecting m \<Longrightarrow> step L a cb s Internal (worker_connect_poll L m s)"
| w_connect_timeout: "worker s = Connecting m \<Longrightarrow> step L a cb s Internal (worker_connect_timeout L m s)"
| w_subscribe: "worker s = Subscribing m \<Longrightarrow> step L a cb s Internal (worker_subscribe L a m s)"
| w_mesh: "worker s = Meshing m \<Longrightarrow> step L a cb s Internal (worker_mesh_poll L m s)"
| w_mesh_timeout: "worker s = Meshing m \<Longrightarrow> step L a cb s Internal (worker_mesh_timeout L m s)"
| w_first_send: "worker s = FirstSend m \<Longrightarrow> step L a cb s Internal (worker_first_send L a m s)"
| w_forward: "worker s = Serving m n \<Longrightarrow> step L a cb s Internal (serve_forward L a m n s)"
| w_command: "worker s = Polling m n \<Longrightarrow> q_get (cmd_q s) = Some (c, rest) \<Longrightarrow>
    step L a cb s (Executed c (fst (exec_cmd L a m c (native s)))) (serve_command L a m n c rest s)"
| w_no_command: "worker s = Polling m n \<Longrightarrow> step L a cb s Internal (s\<lparr>worker := Serving m n\<rparr>)"
| p_spawn: "parent s = NotEntered \<Longrightarrow> worker s = Unspawned \<Longrightarrow> step L a cb s Internal (parent_spawn s)"
| p_entered: "parent s = Entering \<Longrightarrow> q_get (result_q s) = Some (r, rest) \<Longrightarrow>
    step L a cb s Internal (parent_entered r rest s)"
| p_enter_timeout: "parent s = Entering \<Longrightarrow> step L a cb s Internal (parent_exit s)"
| p_issue: "parent s = Idle \<Longrightarrow> step L a cb s (Issued c) (parent_issue c s)"
| p_acked: "parent s = AwaitAck c \<Longrightarrow> q_get (result_q s) = Some (r, rest) \<Longrightarrow>
    step L a cb s (Acked c r) (parent_acked rest s)"
| p_ack_timeout: "parent s = AwaitAck c \<Longrightarrow> step L a cb s (Unacked c) (s\<lparr>parent := Idle\<rparr>)"
| p_take: "parent s = Idle \<Longrightarrow> q_get (evt_q s) = Some (e, rest) \<Longrightarrow>
    step L a cb s Internal (parent_take e rest s)"
| p_exit: "parent s = Idle \<Longrightarrow> step L a cb s Internal (parent_exit s)"
| p_terminate: "parent s = Exited \<Longrightarrow> worker s \<noteq> Unspawned \<Longrightarrow> step L a cb s Internal (parent_terminate s)"

inductive run ::
    "('w, 'h, 'cb) node_lib \<Rightarrow> chan_args \<Rightarrow> 'cb \<Rightarrow> ('w, 'h) pair_state \<Rightarrow> label list \<Rightarrow> ('w, 'h) pair_state \<Rightarrow> bool"
  for L a cb s where
  run_nil: "run L a cb s [] s"
| run_snoc: "run L a cb s tr s' \<Longrightarrow> step L a cb s' l s'' \<Longrightarrow> run L a cb s (tr @ [l]) s''"

section \<open>Events reach the parent in order\<close>

lemmas worker_defs = leave_def put_reply_def fail_setup_def worker_start_def worker_connect_poll_def
  worker_connect_timeout_def worker_subscribe_def worker_mesh_poll_def worker_mesh_timeout_def
  signal_ready_def worker_first_send_def
lemmas parent_defs = parent_spawn_def parent_exit_def parent_terminate_def parent_entered_def
  parent_issue_def parent_acked_def parent_take_def

definition channel_events :: "chan_args \<Rightarrow> ('w, 'h) pair_state \<Rightarrow> pyval list" where
  "channel_events a s = filter (\<lambda>e. is_channel_event (ca_channel_id a) e = Inr True) (events (collector s))"

text \<open>How many events the worker has forwarded, when that is known from where it is.\<close>

fun forwarded_at :: "'h worker_at \<Rightarrow> nat option" where
  "forwarded_at (Serving m n) = Some n"
| "forwarded_at (Polling m n) = Some n"
| "forwarded_at Finished = None"
| "forwarded_at Terminated = None"
| "forwarded_at _ = Some 0"

definition in_order :: "chan_args \<Rightarrow> ('w, 'h) pair_state \<Rightarrow> bool" where
  "in_order a s \<longleftrightarrow>
     (\<exists>n \<le> length (channel_events a s). received s @ evt_q s = take n (channel_events a s) \<and>
        forwarded_at (worker s) \<in> {None, Some n})"

text \<open>A step that keeps the events and their queue, and that keeps or forgets the count.\<close>

lemma in_order_same:
  assumes "in_order a s" "collector s' = collector s" "received s' = received s" "evt_q s' = evt_q s"
    and "forwarded_at (worker s') \<in> {None, forwarded_at (worker s)}"
  shows "in_order a s'"
  using assms unfolding in_order_def channel_events_def by auto

lemma in_order_forward:
  assumes "in_order a s" "worker s = Serving m n"
  shows "in_order a (serve_forward L a m n s)"
proof -
  let ?evs = "channel_events a s"
  consider "stop_evt s" | x where "filter_res (is_channel_event (ca_channel_id a)) (snapshot (collector s)) = Inl x"
    | rcv where "\<not> stop_evt s" "filter_res (is_channel_event (ca_channel_id a)) (snapshot (collector s)) = Inr rcv"
    by (cases "filter_res (is_channel_event (ca_channel_id a)) (snapshot (collector s))") auto
  then show ?thesis
  proof cases
    case 3
    then have rcv: "rcv = ?evs" by (auto simp: channel_events_def snapshot_def dest: filter_res_filter)
    have "received s @ evt_q s = take n ?evs" "n \<le> length ?evs" using assms by (auto simp: in_order_def)
    then have "received s @ foldl q_put (evt_q s) (drop n ?evs) = ?evs"
      using mpq.transfer_puts [of "received s" "evt_q s" "take n ?evs" "drop n ?evs"] by simp
    with 3 rcv show ?thesis unfolding in_order_def
      by (intro exI [of _ "length ?evs"]) (simp add: serve_forward_def channel_events_def)
  qed (rule in_order_same [OF assms(1)]; simp add: serve_forward_def leave_def)+
qed

lemma in_order_step:
  assumes "step L a cb s l s'" "in_order a s"
  shows "in_order a s'"
  using assms
proof cases
  case (callback ret raw)
  then obtain new where new: "channel_events a s' = channel_events a s @ new"
    by (simp add: channel_events_def event_callback_def)
  obtain n where "n \<le> length (channel_events a s)" "received s @ evt_q s = take n (channel_events a s)"
    "forwarded_at (worker s) \<in> {None, Some n}"
    using assms(2) by (auto simp: in_order_def)
  with callback new show ?thesis unfolding in_order_def by (intro exI [of _ n]) auto
next
  case (w_forward m n)
  with assms(2) show ?thesis by (simp add: in_order_forward)
next
  case (p_take e rest)
  then have "evt_q s = e # rest" by (auto dest: mpq.contents_get)
  with p_take assms(2) show ?thesis by (simp add: in_order_def channel_events_def parent_take_def)
qed (rule in_order_same [OF assms(2)];
     auto simp: worker_defs parent_defs serve_command_def split: sum.splits prod.splits option.splits reply.splits)+


lemma in_order_run: "run L a cb (new_pair w) tr s \<Longrightarrow> in_order a s"
proof (induction rule: run.induct)
  case run_nil
  show ?case by (simp add: in_order_def new_pair_def)
next
  case (run_snoc tr s l s')
  then show ?case by (blast intro: in_order_step)
qed

section \<open>Acknowledgements\<close>

fun issued :: "label list \<Rightarrow> cmd list" where
  "issued [] = []"
| "issued (Issued c # tr) = c # issued tr"
| "issued (_ # tr) = issued tr"

fun executed :: "label list \<Rightarrow> (cmd \<times> reply) list" where
  "executed [] = []"
| "executed (Executed c o' # tr) = (c, Outcome o') # executed tr"
| "executed (_ # tr) = executed tr"

fun acked :: "label list \<Rightarrow> (cmd \<times> reply) list" where
  "acked [] = []"
| "acked (Acked c r # tr) = (c, r) # acked tr"
| "acked (_ # tr) = acked tr"

lemma issued_append [simp]: "issued (xs @ ys) = issued xs @ issued ys"
  by (induction xs rule: issued.induct) auto

lemma executed_append [simp]: "executed (xs @ ys) = executed xs @ executed ys"
  by (induction xs rule: executed.induct) auto

lemma acked_append [simp]: "acked (xs @ ys) = acked xs @ acked ys"
  by (induction xs rule: acked.induct) auto

fun in_setup :: "'h worker_at \<Rightarrow> bool" where
  "in_setup (Serving m n) = False"
| "in_setup (Polling m n) = False"
| "in_setup Finished = False"
| "in_setup Terminated = False"
| "in_setup _ = True"

text \<open>Without a timed-out acknowledgement, at most one command is on its way: in the command queue
  or answered in the result queue.\<close>

fun paired :: "parent_at \<Rightarrow> bool \<Rightarrow> label list \<Rightarrow> cmd list \<Rightarrow> reply list \<Rightarrow> bool" where
  "paired NotEntered b tr cq rq \<longleftrightarrow> b \<and> cq = [] \<and> rq = [] \<and> issued tr = [] \<and> executed tr = [] \<and> acked tr = []"
| "paired Entering b tr cq rq \<longleftrightarrow>
     cq = [] \<and> (if b then rq = [] else length rq \<le> 1) \<and> issued tr = [] \<and> executed tr = [] \<and> acked tr = []"
| "paired Idle b tr cq rq \<longleftrightarrow> \<not> b \<and> cq = [] \<and> rq = [] \<and> executed tr = acked tr \<and> issued tr = map fst (acked tr)"
| "paired (AwaitAck c) b tr cq rq \<longleftrightarrow>
     \<not> b \<and> issued tr = map fst (acked tr) @ [c] \<and>
     (cq = [c] \<and> rq = [] \<and> executed tr = acked tr \<or>
      cq = [] \<and> (\<exists>r. rq = [r] \<and> executed tr = acked tr @ [(c, r)]))"
| "paired Exited b tr cq rq \<longleftrightarrow> cq = [] \<and> executed tr = acked tr \<and> issued tr = map fst (acked tr)"

abbreviation paired_at :: "label list \<Rightarrow> ('w, 'h) pair_state \<Rightarrow> bool" where
  "paired_at tr s \<equiv> paired (parent s) (in_setup (worker s)) tr (cmd_q s) (result_q s)"


lemma paired_step:
  assumes "step L a cb s l s'" "paired_at tr s" "\<And>c. l \<noteq> Unacked c"
    and "parent s = NotEntered \<longleftrightarrow> worker s = Unspawned"
  shows "paired_at (tr @ [l]) s' \<and> (parent s' = NotEntered \<longleftrightarrow> worker s' = Unspawned)"
  using assms(1)
proof cases
  case (w_forward m n)
  with assms(2-) show ?thesis
    by (cases "parent s") (auto simp: serve_forward_def leave_def split: sum.splits)
next
  case (w_command m n c rest)
  with assms(2-) show ?thesis
    by (cases "parent s")
      (auto simp: serve_command_def put_reply_def mpq.contents_put split: prod.splits dest: mpq.contents_get)
next
  case (p_acked c r rest)
  with assms(2-) show ?thesis by (auto simp: parent_acked_def dest: mpq.contents_get)
next
  case (p_entered r rest)
  with assms(2-) show ?thesis
    by (auto simp: parent_entered_def parent_exit_def split: reply.splits if_splits dest: mpq.contents_get)
qed (insert assms(2-), cases "parent s",
     (auto simp: worker_defs parent_defs mpq.contents_put split: sum.splits prod.splits option.splits)[5])+


lemma paired_run:
  "run L a cb (new_pair w) tr s \<Longrightarrow> (\<And>c. Unacked c \<notin> set tr) \<Longrightarrow>
   paired_at tr s \<and> (parent s = NotEntered \<longleftrightarrow> worker s = Unspawned)"
proof (induction rule: run.induct)
  case run_nil
  show ?case by (simp add: new_pair_def)
next
  case (run_snoc tr s l s')
  then show ?case using paired_step [OF run_snoc.hyps(2), of tr] by auto
qed

lemma paired_prefix:
  "paired p b tr cq rq \<Longrightarrow> prefix (acked tr) (executed tr) \<and> prefix (map fst (executed tr)) (issued tr)"
  by (cases p) auto

section \<open>Scripted runs\<close>

text \<open>A schedule picks one enabled step at a time, so that a run can be computed.\<close>

datatype choice = Fire int string | Work | Expire | Spawn | Hear | Lapse | Issue cmd | Take | Exit | Kill

fun work_step ::
    "('w, 'h, 'cb) node_lib \<Rightarrow> chan_args \<Rightarrow> 'cb \<Rightarrow> ('w, 'h) pair_state \<Rightarrow> 'h worker_at \<Rightarrow> (label \<times> ('w, 'h) pair_state) option" where
  "work_step L a cb s Starting = Some (Internal, worker_start L a cb s)"
| "work_step L a cb s (Connecting m) = Some (Internal, worker_connect_poll L m s)"
| "work_step L a cb s (Subscribing m) = Some (Internal, worker_subscribe L a m s)"
| "work_step L a cb s (Meshing m) = Some (Internal, worker_mesh_poll L m s)"
| "work_step L a cb s (FirstSend m) = Some (Internal, worker_first_send L a m s)"
| "work_step L a cb s (Serving m n) = Some (Internal, serve_forward L a m n s)"
| "work_step L a cb s (Polling m n) =
     map_option (\<lambda>(c, rest). (Executed c (fst (exec_cmd L a m c (native s))), serve_command L a m n c rest s))
       (q_get (cmd_q s))"
| "work_step L a cb s _ = None"

fun take_step ::
    "('w, 'h, 'cb) node_lib \<Rightarrow> chan_args \<Rightarrow> 'cb \<Rightarrow> choice \<Rightarrow> ('w, 'h) pair_state \<Rightarrow> (label \<times> ('w, 'h) pair_state) option" where
  "take_step L a cb (Fire ret raw) s = Some (Internal, s\<lparr>collector := event_callback ret raw (collector s)\<rparr>)"
| "take_step L a cb Work s = work_step L a cb s (worker s)"
| "take_step L a cb Expire s =
     (case worker s of
        Connecting m \<Rightarrow> Some (Internal, worker_connect_timeout L m s)
      | Meshing m \<Rightarrow> Some (Internal, worker_mesh_timeout L m s)
      | Polling m n \<Rightarrow> Some (Internal, s\<lparr>worker := Serving m n\<rparr>)
      | _ \<Rightarrow> None)"
| "take_step L a cb Spawn s =
     (if parent s = NotEntered \<and> forwarded_at (worker s) = Some 0 then
        (case worker s of Unspawned \<Rightarrow> Some (Internal, parent_spawn s) | _ \<Rightarrow> None) else None)"
| "take_step L a cb Hear s =
     (case (parent s, q_get (result_q s)) of
        (Entering, Some (r, rest)) \<Rightarrow> Some (Internal, parent_entered r rest s)
      | (AwaitAck c, Some (r, rest)) \<Rightarrow> Some (Acked c r, parent_acked rest s)
      | _ \<Rightarrow> None)"
| "take_step L a cb Lapse s =
     (case parent s of
        Entering \<Rightarrow> Some (Internal, parent_exit s)
      | AwaitAck c \<Rightarrow> Some (Unacked c, s\<lparr>parent := Idle\<rparr>)
      | _ \<Rightarrow> None)"
| "take_step L a cb (Issue c) s = (if parent s = Idle then Some (Issued c, parent_issue c s) else None)"
| "take_step L a cb Take s =
     (if parent s = Idle then map_option (\<lambda>(e, rest). (Internal, parent_take e rest s)) (q_get (evt_q s)) else None)"
| "take_step L a cb Exit s = (if parent s = Idle then Some (Internal, parent_exit s) else None)"
| "take_step L a cb Kill s =
     (if parent s = Exited then (case worker s of Unspawned \<Rightarrow> None | _ \<Rightarrow> Some (Internal, parent_terminate s)) else None)"

fun play ::
    "('w, 'h, 'cb) node_lib \<Rightarrow> chan_args \<Rightarrow> 'cb \<Rightarrow> choice list \<Rightarrow> ('w, 'h) pair_state \<Rightarrow> (label list \<times> ('w, 'h) pair_state) option" where
  "play L a cb [] s = Some ([], s)"
| "play L a cb (c # cs) s =
     (case take_step L a cb c s of
        None \<Rightarrow> None
      | Some (l, s') \<Rightarrow> map_option (\<lambda>(tr, s''). (l # tr, s'')) (play L a cb cs s'))"

lemma work_step_sound: "work_step L a cb s (worker s) = Some (l, s') \<Longrightarrow> step L a cb s l s'"
  by (cases "worker s") (auto intro: step.intros)

lemma take_step_sound: "take_step L a cb c s = Some (l, s') \<Longrightarrow> step L a cb s l s'"
  by (cases c) (auto intro: step.intros work_step_sound split: worker_at.splits parent_at.splits option.splits if_splits)

lemma run_trans: "run L a cb s' tr' s'' \<Longrightarrow> run L a cb s tr s' \<Longrightarrow> run L a cb s (tr @ tr') s''"
proof (induction rule: run.induct)
  case (run_snoc tr' u l v)
  then show ?case by (metis append_assoc run.run_snoc)
qed simp

lemma play_run: "play L a cb cs s = Some (tr, s') \<Longrightarrow> run L a cb s tr s'"
proof (induction cs arbitrary: s tr)
  case Nil
  then show ?case by (auto intro: run_nil)
next
  case (Cons c cs)
  then obtain l u tr' where u: "take_step L a cb c s = Some (l, u)" "play L a cb cs u = Some (tr', s')" "tr = [l] @ tr'"
    by (auto split: option.splits)
  have "run L a cb s [l] u" using run_snoc [OF run_nil take_step_sound [OF u(1)]] by simp
  then have "run L a cb s ([l] @ tr') s'" by (rule run_trans [OF Cons.IH [OF u(2)]])
  with u(3) show ?case by simp
qed

section \<open>Properties\<close>

text \<open>C25: whatever the interleaving of the two processes and of the native callbacks, what the parent has
  received, followed by what is still in the event queue, is an initial part of the channel events that
  the worker's collector holds: nothing is lost, repeated or reordered on the way.\<close>

theorem channel_events_in_order:
  assumes "run L a cb (new_pair w) tr s"
  shows "prefix (received s @ evt_q s) (channel_events a s)"
  using in_order_run [OF assms] by (auto simp: in_order_def take_is_prefix)

text \<open>C26: as long as no acknowledgement times out, the reply that a caller of \<open>send\<close> or
  \<open>close_and_recreate\<close> gets is the outcome of that very command, and commands are executed in the order
  in which they were issued, each at most once.\<close>

theorem acks_match_commands:
  assumes "run L a cb (new_pair w) tr s" "\<And>c. Unacked c \<notin> set tr"
  shows "prefix (acked tr) (executed tr) \<and> prefix (map fst (executed tr)) (issued tr)"
  using paired_run [OF assms] paired_prefix by blast

text \<open>C28: after an acknowledgement that timed out, the late outcome of the first command is taken for the
  outcome of the next one, which has not been executed yet.\<close>

theorem late_ack_is_misattributed:
  assumes "parent s = Idle" "worker s = Polling m n" "cmd_q s = []" "result_q s = []"
  shows "\<exists>s'. run L a cb s [Issued c1, Unacked c1, Issued c2, Executed c1 (fst (exec_cmd L a m c1 (native s))),
                 Acked c2 (Outcome (fst (exec_cmd L a m c1 (native s))))] s' \<and> cmd_q s' = [c2] \<and> parent s' = Idle"
proof -
  obtain out w where ex: "exec_cmd L a m c1 (native s) = (out, w)" by fastforce
  with assms obtain s' where "play L a cb [Issue c1, Lapse, Issue c2, Work, Hear] s =
      Some ([Issued c1, Unacked c1, Issued c2, Executed c1 out, Acked c2 (Outcome out)], s')"
    and "cmd_q s' = [c2]" "parent s' = Idle"
    by (simp add: parent_issue_def serve_command_def parent_acked_def put_reply_def q_put_def q_get_def)
  then show ?thesis unfolding ex fst_conv by (blast intro: play_run)
qed

text \<open>A native library that counts the sends and accepts only the first one.\<close>

definition sim_lib :: "(nat, unit, unit) node_lib" where
  "sim_lib = \<lparr>
     lib_create_node = (\<lambda>_ _ _ w. (Inr (), w)), lib_create_and_start = (\<lambda>_ _ _ w. (Inr (), w)),
     lib_start_node = (\<lambda>_ _ w. (Inr 0, w)), lib_stop_node = (\<lambda>_ _ w. (Inr 0, w)), lib_destroy = (\<lambda>_ _ w. (Inr 0, w)),
     lib_stop_and_destroy = (\<lambda>_ _ w. (Inr 0, w)), lib_destroy_keep_ctx = (\<lambda>_ _ w. (Inr 0, w)),
     lib_subscribe_content_topic = (\<lambda>_ _ _ w. (Inr 0, w)), lib_unsubscribe_content_topic = (\<lambda>_ _ _ w. (Inr 0, w)),
     lib_send_message = (\<lambda>_ _ _ w. (Inr ''r'', w)), lib_channel_create = (\<lambda>_ _ _ _ _ w. (Inr ''c'', w)),
     lib_channel_send = (\<lambda>_ _ _ _ w. (if w = 0 then Inr ''m'' else Inl ''closed'', Suc w)),
     lib_channel_close = (\<lambda>_ _ _ w. (Inr ''c'', w)), lib_get_available_node_info_ids = (\<lambda>_ _ w. (Inr [], w)),
     lib_get_node_info = (\<lambda>_ _ _ w. (Inr ''/ip4/10.0.0.1/tcp/60000'', w)), lib_get_available_configs = (\<lambda>_ _ w. (Inr [], w))\<rparr>"

definition sim_args :: chan_args where
  "sim_args = \<lparr>ca_config = [], ca_content_topic = ''/t'', ca_channel_id = ''c'', ca_sender_id = ''s'',
     ca_payload_b64 = None, ca_storage_dir = ''/tmp/d''\<rparr>"

definition sim_event :: pyval where
  "sim_event = PDict [(''eventType'', PStr EVENT_CHANNEL_RECEIVED), (''channelId'', PStr ''c'')]"

definition boot :: "choice list" where
  "boot = [Spawn, Work, Work, Work, Hear, Work]"

lemma sim_event_payload: "event_payload 0 (json_dumps (\<lambda>_. []) sim_event) = sim_event"
  by (rule event_payload_dumps) (simp add: sim_event_def EVENT_CHANNEL_RECEIVED_def ascii_def byte_def)

lemma sim_event_is_channel: "is_channel_event ''c'' sim_event = Inr True"
  by (simp add: is_channel_event_def sim_event_def field_is_def)

lemma sim_address: "get_node_multiaddr (\<lambda>_. Inr ''/ip4/10.0.0.1/tcp/60000'') = Inr ''/ip4/10.0.0.1/tcp/60000''"
  by code_simp

lemma sim_no_staticnodes: "has_staticnodes sim_args = False"
  by code_simp

lemma sim_args_fields: "ca_payload_b64 sim_args = None" "ca_channel_id sim_args = ''c''"
  by (simp_all add: sim_args_def)

lemmas sim_defs = boot_def new_pair_def sim_lib_def parent_defs worker_defs sim_no_staticnodes sim_address sim_args_fields
  wm_create_and_start_def wm_subscribe_content_topic_def wm_channel_create_def wm_get_node_info_def
  wm_channel_send_def wm_stop_and_destroy_def wm_exit_def manage_def q_put_def q_get_def serve_forward_def
  serve_command_def snapshot_def new_collector_def

lemma sim_boot:
  "play sim_lib sim_args () boot (new_pair 0) =
     Some ([Internal, Internal, Internal, Internal, Internal, Internal],
           (new_pair 0)\<lparr>worker := Polling \<lparr>wrapped = ()\<rparr> 0, parent := Idle, multiaddr := Some ''/ip4/10.0.0.1/tcp/60000''\<rparr>)"
  by (simp add: sim_defs)


theorem channel_events_in_order_witness:
  "\<exists>tr s. run sim_lib sim_args () (new_pair 0) tr s \<and> received s = [sim_event] \<and>
     prefix (received s @ evt_q s) (channel_events sim_args s)"
proof -
  obtain tr s where "play sim_lib sim_args ()
      (boot @ [Fire 0 (json_dumps (\<lambda>_. []) sim_event), Expire, Work, Take]) (new_pair 0) = Some (tr, s)"
    and s: "received s = [sim_event]"
    by (simp add: sim_defs event_callback_def sim_event_payload sim_event_is_channel)
  then have r: "run sim_lib sim_args () (new_pair 0) tr s" by (simp add: play_run)
  with s channel_events_in_order [OF r] show ?thesis by blast
qed

theorem acks_match_commands_witness:
  "\<exists>tr s. run sim_lib sim_args () (new_pair 0) tr s \<and> acked tr = [(send_cmd (PStr ''a''), Outcome None)] \<and>
     prefix (acked tr) (executed tr) \<and> prefix (map fst (executed tr)) (issued tr)"
proof -
  let ?c = "send_cmd (PStr ''a'')"
  obtain tr s where "play sim_lib sim_args () (boot @ [Issue ?c, Work, Hear]) (new_pair 0) = Some (tr, s)"
    and tr: "tr = replicate 6 Internal @ [Issued ?c, Executed ?c None, Acked ?c (Outcome None)]"
    by (simp add: sim_defs send_cmd_def exec_cmd_def chan_send_def eval_nat_numeral)
  then have "run sim_lib sim_args () (new_pair 0) tr s" by (simp add: play_run)
  moreover have "Unacked c \<notin> set tr" for c by (simp add: tr)
  moreover have "acked tr = [(?c, Outcome None)]" by (simp add: tr eval_nat_numeral)
  ultimately show ?thesis using acks_match_commands [of sim_lib sim_args "()" 0 tr s] by blast
qed

text \<open>In the simulated library the first send succeeds and the second fails; the caller of the second
  hears that it succeeded.\<close>

theorem late_ack_is_misattributed_witness:
  "\<exists>s s'. run sim_lib sim_args () s
     [Issued (send_cmd (PStr ''a'')), Unacked (send_cmd (PStr ''a'')), Issued (send_cmd (PStr ''b'')),
      Executed (send_cmd (PStr ''a'')) None, Acked (send_cmd (PStr ''b'')) (Outcome None)] s' \<and> cmd_q s' = [send_cmd (PStr ''b'')]"
proof -
  let ?s = "(new_pair 0)\<lparr>worker := Polling \<lparr>wrapped = ()\<rparr> 0, parent := Idle\<rparr> :: (nat, unit) pair_state"
  have "fst (exec_cmd sim_lib sim_args \<lparr>wrapped = ()\<rparr> (send_cmd (PStr ''a'')) (native ?s)) = None"
    by (simp add: exec_cmd_def send_cmd_def chan_send_def wm_channel_send_def sim_lib_def new_pair_def)
  then show ?thesis
    using late_ack_is_misattributed [of ?s "\<lparr>wrapped = ()\<rparr>" 0 sim_lib sim_args "()" "send_cmd (PStr ''a'')" "send_cmd (PStr ''b'')"]
    by (auto simp: new_pair_def)
qed

section \<open>Waiting for events returns\<close>

text \<open>The items that the first \<open>n\<close> looks found.\<close>

definition arrivals :: "(nat \<Rightarrow> 'e option) \<Rightarrow> nat \<Rightarrow> nat \<Rightarrow> 'e list" where
  "arrivals arr k n = List.map_filter arr [k..<n]"

lemma arrivals_step:
  assumes "k < n"
  shows "arrivals arr k n = (case arr k of Some e \<Rightarrow> e # arrivals arr (Suc k) n | None \<Rightarrow> arrivals arr (Suc k) n)"
  using assms by (simp add: arrivals_def upt_conv_Cons map_filter_simps split: option.splits)

text \<open>The polls that are left: every empty poll takes a fifth of a second, every other one finds an item.\<close>

definition polls_left :: "(nat \<Rightarrow> rat) \<Rightarrow> rat \<Rightarrow> nat \<Rightarrow> 'e list \<Rightarrow> nat \<Rightarrow> nat" where
  "polls_left clk deadline count rcv k = nat \<lceil>(deadline - clk k) * 5\<rceil> + (count - length rcv)"

lemma wait_for_received_ends:
  assumes "\<And>k. clk k \<le> clk (Suc k)" "\<And>k. arr k = None \<Longrightarrow> clk k + 1 / 5 \<le> clk (Suc k)"
  shows "\<exists>n \<ge> k. wait_for_received arr clk deadline count rcv k = Some (rcv @ arrivals arr k n) \<and>
    (count \<le> length (rcv @ arrivals arr k n) \<or> deadline \<le> clk n) \<and>
    (length rcv \<le> count \<longrightarrow> length (rcv @ arrivals arr k n) \<le> count)"
proof (induction "polls_left clk deadline count rcv k" arbitrary: k rcv rule: less_induct)
  case less
  show ?case
  proof (cases "length rcv < count \<and> clk k < deadline")
    case False
    then show ?thesis
      by (intro exI [of _ k]) (subst wait_for_received.simps, auto simp: arrivals_def map_filter_simps)
  next
    case True
    show ?thesis
    proof (cases "arr k")
      case None
      have "(deadline - clk (Suc k)) * 5 \<le> (deadline - clk k) * 5 - 1" using assms(2) [OF None] by simp
      then have "\<lceil>(deadline - clk (Suc k)) * 5\<rceil> \<le> \<lceil>(deadline - clk k) * 5\<rceil> - 1"
        using ceiling_mono [of "(deadline - clk (Suc k)) * 5" "(deadline - clk k) * 5 - 1"] by simp
      moreover have "0 < \<lceil>(deadline - clk k) * 5\<rceil>" using True by simp
      ultimately have "polls_left clk deadline count rcv (Suc k) < polls_left clk deadline count rcv k"
        by (simp add: polls_left_def)
      from less [OF this] obtain n where n: "Suc k \<le> n"
        "wait_for_received arr clk deadline count rcv (Suc k) = Some (rcv @ arrivals arr (Suc k) n)"
        "count \<le> length (rcv @ arrivals arr (Suc k) n) \<or> deadline \<le> clk n"
        "length rcv \<le> count \<longrightarrow> length (rcv @ arrivals arr (Suc k) n) \<le> count" by blast
      with True None show ?thesis
        by (intro exI [of _ n]) (subst wait_for_received.simps, simp add: arrivals_step [of k n])
    next
      case (Some e)
      have "(deadline - clk (Suc k)) * 5 \<le> (deadline - clk k) * 5" using assms(1) [of k] by simp
      then have "\<lceil>(deadline - clk (Suc k)) * 5\<rceil> \<le> \<lceil>(deadline - clk k) * 5\<rceil>" by (rule ceiling_mono)
      then have "polls_left clk deadline count (rcv @ [e]) (Suc k) < polls_left clk deadline count rcv k"
        using True nat_mono unfolding polls_left_def by (intro add_le_less_mono) auto
      from less [OF this] obtain n where n: "Suc k \<le> n"
        "wait_for_received arr clk deadline count (rcv @ [e]) (Suc k) = Some ((rcv @ [e]) @ arrivals arr (Suc k) n)"
        "count \<le> length ((rcv @ [e]) @ arrivals arr (Suc k) n) \<or> deadline \<le> clk n"
        "length (rcv @ [e]) \<le> count \<longrightarrow> length ((rcv @ [e]) @ arrivals arr (Suc k) n) \<le> count" by blast
      with True Some show ?thesis
        by (intro exI [of _ n]) (subst wait_for_received.simps, simp add: arrivals_step [of k n])
    qed
  qed
qed

text \<open>C27: \<open>wait_for_received\<close> returns, with what it had plus the next arrivals in order; it stops short of the
  wanted count only once the deadline has passed, and it never takes more than the wanted count from the
  queue.\<close>

theorem wait_for_received_returns:
  assumes "\<And>k. clk k \<le> clk (Suc k)" "\<And>k. arr k = None \<Longrightarrow> clk k + 1 / 5 \<le> clk (Suc k)"
    and "length rcv \<le> count"
  shows "\<exists>n. wait_for_received arr clk deadline count rcv 0 = Some (rcv @ arrivals arr 0 n) \<and>
    length (rcv @ arrivals arr 0 n) \<le> count \<and>
    (length (rcv @ arrivals arr 0 n) < count \<longrightarrow> deadline \<le> clk n)"
  using wait_for_received_ends [of clk arr 0 deadline count rcv] assms by fastforce

theorem wait_for_received_returns_witness:
  "\<exists>xs. wait_for_received (\<lambda>k. if k = 1 then Some ''e'' else None) of_nat 5 1 [] 0 = Some xs \<and> length xs \<le> 1"
proof -
  have "of_nat k \<le> (of_nat (Suc k) :: rat)" "of_nat k + 1 / 5 \<le> (of_nat (Suc k) :: rat)" for k by simp_all
  then show ?thesis
    using wait_for_received_returns [of of_nat "\<lambda>k. if k = 1 then Some ''e'' else None" "[]" 1 5] by auto
qed

end
