(* ===== verification/Py_Retry.thy ===== *)
theory Py_Retry
  imports Py_Prelude
begin

text \<open>
  The documented behaviour of \<open>tenacity.retry(..., reraise=True)\<close>, which the sources use as a
  decorator and which is not part of them. A run calls the function; an exception may lead, after a
  sleep, to another attempt, if the decorator retries on that exception; when the decorator stops, the
  outcome of the last attempt is the outcome of the call. When it stops is a matter of time and left
  open: a value of type \<open>retrier\<close> is any function whose calls are such runs.
\<close>

inductive retry_run :: "(exn \<Rightarrow> bool) \<Rightarrow> ('w \<Rightarrow> 'w) \<Rightarrow> ('w, 'a) io \<Rightarrow> 'w \<Rightarrow> 'a res \<times> 'w \<Rightarrow> bool"
  for again :: "exn \<Rightarrow> bool" and sleep :: "'w \<Rightarrow> 'w" and f :: "('w, 'a) io" where
  retry_return: "f w = (Inr a, w') \<Longrightarrow> retry_run again sleep f w (Inr a, w')"
| retry_stop: "f w = (Inl e, w') \<Longrightarrow> retry_run again sleep f w (Inl e, w')"
| retry_again: "f w = (Inl e, w') \<Longrightarrow> again e \<Longrightarrow> retry_run again sleep f (sleep w') out \<Longrightarrow> retry_run again sleep f w out"

inductive_cases retry_run_cases: "retry_run again sleep f w out"

type_synonym ('w, 'a) retrier = "('w, 'a) io \<Rightarrow> ('w, 'a) io"

definition retries :: "(exn \<Rightarrow> bool) \<Rightarrow> ('w \<Rightarrow> 'w) \<Rightarrow> ('w, 'a) retrier \<Rightarrow> bool" where
  "retries again sleep rt \<longleftrightarrow> (\<forall>f w. retry_run again sleep f w (rt f w))"

text \<open>A retrier for concrete runs: at most \<open>n\<close> further attempts.\<close>

fun attempts :: "nat \<Rightarrow> (exn \<Rightarrow> bool) \<Rightarrow> ('w \<Rightarrow> 'w) \<Rightarrow> ('w, 'a) retrier" where
  "attempts 0 again sleep f w = f w"
| "attempts (Suc n) again sleep f w =
     (case f w of (Inr a, w') \<Rightarrow> (Inr a, w')
      | (Inl e, w') \<Rightarrow> if again e then attempts n again sleep f (sleep w') else (Inl e, w'))"

section \<open>Lemmas\<close>

lemma retries_attempts: "retries again sleep (attempts n again sleep :: ('w, 'a) retrier)"
proof -
  have "retry_run again sleep f w (attempts n again sleep f w)" for f :: "('w, 'a) io" and w
  proof (induction n arbitrary: w)
    case 0
    show ?case by (cases "f w"; cases "fst (f w)") (auto intro: retry_return retry_stop)
  next
    case (Suc n)
    then show ?case
      by (auto split: prod.split sum.split intro: retry_return retry_stop retry_again)
  qed
  then show ?thesis by (simp add: retries_def)
qed

text \<open>What every attempt and every sleep keep, a run keeps; the outcome is that of a last attempt made
  in a world where the kept property held.\<close>

lemma retry_run_invariant:
  assumes "retry_run again sleep f w out" "I w"
    and "\<And>v. I v \<Longrightarrow> I (snd (f v))" "\<And>v. I v \<Longrightarrow> I (sleep v)"
  shows "I (snd out) \<and> (\<exists>v. I v \<and> out = f v)"
  using assms
proof (induction rule: retry_run.induct)
  case (retry_again w e w' out)
  have "I w'" using retry_again.hyps(1) retry_again.prems by (metis snd_conv)
  then show ?case using retry_again by blast
qed (metis snd_conv)+

lemma retries_last:
  assumes "retries again sleep rt" "rt f w = out"
  shows "\<exists>v. out = f v"
  using retry_run_invariant [of again sleep f w out "\<lambda>_. True"] assms by (auto simp: retries_def)

lemma retries_invariant:
  assumes "retries again sleep rt" "I w" "\<And>v. I v \<Longrightarrow> I (snd (f v))" "\<And>v. I v \<Longrightarrow> I (sleep v)"
  shows "I (snd (rt f w))"
  using retry_run_invariant [of again sleep f w "rt f w" I] assms by (auto simp: retries_def)

text \<open>A function that does not raise is called once.\<close>

lemma retries_once:
  assumes "retries again sleep rt" "f w = (Inr a, w')"
  shows "rt f w = (Inr a, w')"
proof -
  have "retry_run again sleep f w (rt f w)" using assms(1) by (simp add: retries_def)
  then show ?thesis by (rule retry_run_cases) (use assms(2) in auto)
qed

text \<open>An exception on which the decorator does not retry is raised at once.\<close>

lemma retries_fatal:
  assumes "retries again sleep rt" "f w = (Inl e, w')" "\<not> again e"
  shows "rt f w = (Inl e, w')"
proof -
  have "retry_run again sleep f w (rt f w)" using assms(1) by (simp add: retries_def)
  then show ?thesis by (rule retry_run_cases) (use assms(2,3) in auto)
qed


text \<open>Every attempt starts in a world with a property that failing attempts and sleeps keep.\<close>

lemma retry_run_attempts:
  assumes "retry_run again sleep f w out" "I w"
    and "\<And>v e v'. I v \<Longrightarrow> f v = (Inl e, v') \<Longrightarrow> I v'" "\<And>v. I v \<Longrightarrow> I (sleep v)"
  shows "\<exists>v. I v \<and> out = f v"
  using assms by (induction rule: retry_run.induct) metis+

lemma retries_attempt:
  assumes "retries again sleep rt" "I w" "rt f w = out"
    and "\<And>v e v'. I v \<Longrightarrow> f v = (Inl e, v') \<Longrightarrow> I v'" "\<And>v. I v \<Longrightarrow> I (sleep v)"
  shows "\<exists>v. I v \<and> out = f v"
proof -
  have "retry_run again sleep f w out" using assms(1,3) by (auto simp: retries_def)
  then show ?thesis using assms(2,4,5) by (rule retry_run_attempts)
qed

section \<open>Properties that programs keep\<close>

named_theorems keeps_rules \<open>programs that keep a property of the world\<close>

definition keeps :: "('w \<Rightarrow> bool) \<Rightarrow> ('w, 'a) io \<Rightarrow> bool" where
  "keeps I m \<longleftrightarrow> (\<forall>w. I w \<longrightarrow> I (snd (m w)))"

lemma keeps_return [keeps_rules]: "keeps I (io_return a)"
  by (simp add: keeps_def io_defs)

lemma keeps_raise [keeps_rules]: "keeps I (io_raise e)"
  by (simp add: keeps_def io_defs)

lemma keeps_lift [keeps_rules]: "keeps I (io_lift r)"
  by (simp add: keeps_def io_defs)

lemma keeps_bind [keeps_rules]:
  assumes "keeps I m" "\<And>a. keeps I (f a)"
  shows "keeps I (io_bind m f)"
proof -
  have "I (snd (io_bind m f w))" if "I w" for w
  proof (cases "m w")
    case (Pair r w')
    then have "I w'" using assms(1) that unfolding keeps_def by (metis snd_conv)
    then show ?thesis using Pair assms(2) by (cases r) (simp_all add: keeps_def io_defs)
  qed
  then show ?thesis by (simp add: keeps_def)
qed

lemma keeps_try [keeps_rules]:
  assumes "keeps I m" "\<And>e. keeps I (h e)"
  shows "keeps I (io_try m h)"
proof -
  have "I (snd (io_try m h w))" if "I w" for w
  proof (cases "m w")
    case (Pair r w')
    then have "I w'" using assms(1) that unfolding keeps_def by (metis snd_conv)
    then show ?thesis using Pair assms(2) by (cases r) (simp_all add: keeps_def io_defs)
  qed
  then show ?thesis by (simp add: keeps_def)
qed

lemma keeps_if [keeps_rules]: "(b \<Longrightarrow> keeps I m) \<Longrightarrow> (\<not> b \<Longrightarrow> keeps I n) \<Longrightarrow> keeps I (if b then m else n)"
  by simp

lemma keeps_retry:
  assumes "retries again sleep rt" "keeps I f" "\<And>v. I v \<Longrightarrow> I (sleep v)"
  shows "keeps I (rt f)"
  using retries_invariant [OF assms(1), of I _ f] assms(2,3) by (auto simp: keeps_def)

end
