(* ===== verification/E2e_Common.thy ===== *)
theory E2e_Common
  imports Py_Retry Py_Codec
begin

text \<open>
  The shared helpers of the end-to-end tests: \<open>tests-e2e/src/env_vars.py\<close>, \<open>libs/common.py\<close> and the
  constants of \<open>test_data.py\<close>. The environment is the function \<open>env\<close> that \<open>os.getenv\<close> reads (after
  \<open>load_dotenv\<close>).
\<close>

section \<open>Environment\<close>

type_synonym environ = "string \<Rightarrow> string option"

text \<open>A variable is a string; a default may be any value.\<close>

definition get_env_var :: "environ \<Rightarrow> string \<Rightarrow> pyval \<Rightarrow> pyval" where
  "get_env_var env var_name dflt =
     (let env_var = (case env var_name of Some s \<Rightarrow> PStr s | None \<Rightarrow> dflt) in
      if env_var = PNone \<or> env_var = PStr [] then dflt else env_var)"

abbreviation env_str :: "environ \<Rightarrow> string \<Rightarrow> string \<Rightarrow> string" where
  "env_str env name d \<equiv> (case get_env_var env name (PStr d) of PStr s \<Rightarrow> s | _ \<Rightarrow> d)"

definition DEFAULT_NWAKU where "DEFAULT_NWAKU env = env_str env ''DEFAULT_NWAKU'' ''quay.io/wakuorg/nwaku-pr:nightly''"
definition NODE_1 where "NODE_1 env = env_str env ''NODE_1'' (DEFAULT_NWAKU env)"
definition NODE_2 where "NODE_2 env = env_str env ''NODE_2'' (DEFAULT_NWAKU env)"
definition ADDITIONAL_NODES where
  "ADDITIONAL_NODES env = env_str env ''ADDITIONAL_NODES''
     (DEFAULT_NWAKU env @ '','' @ DEFAULT_NWAKU env @ '','' @ DEFAULT_NWAKU env)"
definition DOCKER_LOG_DIR where "DOCKER_LOG_DIR env = env_str env ''DOCKER_LOG_DIR'' ''./log/docker''"
definition NETWORK_NAME where "NETWORK_NAME env = env_str env ''NETWORK_NAME'' ''waku''"
definition SUBNET where "SUBNET env = env_str env ''SUBNET'' ''172.18.0.0/16''"
definition IP_RANGE where "IP_RANGE env = env_str env ''IP_RANGE'' ''172.18.0.0/24''"
definition GATEWAY where "GATEWAY env = env_str env ''GATEWAY'' ''172.18.0.1''"
definition API_REQUEST_TIMEOUT where "API_REQUEST_TIMEOUT env = get_env_var env ''API_REQUEST_TIMEOUT'' (PInt 20)"
definition PG_USER where "PG_USER env = env_str env ''POSTGRES_USER'' ''postgres''"
definition PG_PASS where "PG_PASS env = env_str env ''POSTGRES_PASSWORD'' ''test123''"

section \<open>Test data\<close>

definition DEFAULT_CLUSTER_ID :: string where "DEFAULT_CLUSTER_ID = ''198''"
definition DEFAULT_SHARD :: string where "DEFAULT_SHARD = ''0''"
definition FLEET_PRESET :: string where "FLEET_PRESET = ''logos.test''"
definition FLEET_SHARDS :: "string list" where "FLEET_SHARDS = [''6'']"
definition VALID_PUBSUB_TOPICS :: "string list" where
  "VALID_PUBSUB_TOPICS =
     map (\<lambda>s. ''/waku/2/rs/'' @ DEFAULT_CLUSTER_ID @ ''/'' @ s) [''0'', ''1'', ''9'', ''25'', ''1000'']"
definition CONTENT_TOPICS_DIFFERENT_SHARDS :: "string list" where
  "CONTENT_TOPICS_DIFFERENT_SHARDS =
     [''/myapp/1/latest/proto'', ''/waku/2/content/test.js'', ''/app/22/sometopic/someencoding'',
      ''/toychat/2/huilong/proto'', ''/statusim/1/community/cbor'', ''/app/27/sometopic/someencoding'',
      ''/app/29/sometopic/someencoding'', ''/app/20/sometopic/someencoding'']"

section \<open>Helpers\<close>

text \<open>\<open>to_base64\<close>: the bytes of a string, of the decimal text of an integer, or of the \<open>str\<close> of any other
  value (\<open>bytes\<close> and \<open>str\<close> are the same type here).\<close>

fun to_base64 :: "(pyval \<Rightarrow> string) \<Rightarrow> pyval \<Rightarrow> string" where
  "to_base64 str_of (PStr s) = b64encode s"
| "to_base64 str_of (PInt i) = b64encode (str_int i)"
| "to_base64 str_of (PBool b) = b64encode (if b then ''True'' else ''False'')"
| "to_base64 str_of v = b64encode (str_of v)"

text \<open>One call of \<open>poll\<close> inside \<open>wait_until\<close>, and \<open>wait_until\<close> under the retrier that the decorator
  builds (it retries on every \<open>Exception\<close>).\<close>

definition wait_message :: "string option \<Rightarrow> string \<Rightarrow> string" where
  "wait_message message timeout_text =
     (case message of
        Some (c # cs) \<Rightarrow> c # cs
      | _ \<Rightarrow> ''Condition not met within '' @ timeout_text @ '' seconds'')"

definition wait_poll :: "('a \<Rightarrow> bool) \<Rightarrow> string \<Rightarrow> ('w, 'a) io \<Rightarrow> ('w, 'a) io" where
  "wait_poll is_true msg condition =
     io_bind condition (\<lambda>result. if is_true result then io_return result else io_raise (Exn AssertionError msg))"

definition wait_until ::
    "('w, 'a) retrier \<Rightarrow> ('a \<Rightarrow> bool) \<Rightarrow> string \<Rightarrow> string option \<Rightarrow> ('w, 'a) io \<Rightarrow> ('w, 'a) io" where
  "wait_until rt is_true timeout_text message condition =
     rt (wait_poll is_true (wait_message message timeout_text) condition)"

section \<open>Properties\<close>

text \<open>A variable that is set and not empty wins over the default; otherwise the default does.\<close>

lemma get_env_var_cases:
  "get_env_var env k d = (case env k of Some s \<Rightarrow> if s = [] then d else PStr s | None \<Rightarrow> d)"
  by (auto simp: get_env_var_def split: option.splits)

text \<open>\<open>wait_until\<close> returns only a value that the condition has just produced and that is true; and an
  exception that it raises is one that the last call of the condition raised, or the assertion with the
  given message after a condition that was not met.\<close>

theorem wait_until_sound:
  assumes "retries again sleep rt" "wait_until rt is_true tt message condition w = (out, w')"
  shows "\<exists>v. case out of
      Inr a \<Rightarrow> is_true a \<and> condition v = (Inr a, w')
    | Inl e \<Rightarrow> condition v = (Inl e, w') \<or>
        (\<exists>a. condition v = (Inr a, w') \<and> \<not> is_true a \<and> e = Exn AssertionError (wait_message message tt))"
proof -
  obtain v where "(out, w') = wait_poll is_true (wait_message message tt) condition v"
    using retries_last [OF assms(1)] assms(2) unfolding wait_until_def by blast
  then show ?thesis
    by (intro exI [of _ v]) (auto simp: wait_poll_def io_defs split: prod.splits sum.splits if_splits)
qed

theorem wait_until_sound_witness:
  "wait_until (attempts 5 (\<lambda>_. True) Suc) (\<lambda>n. 2 < n) ''20'' None (\<lambda>w. (Inr w, w)) (0 :: nat) = (Inr 3, 3) \<and> (2 :: nat) < 3"
proof -
  have run: "wait_until (attempts 5 (\<lambda>_. True) Suc) (\<lambda>n. 2 < n) ''20'' None (\<lambda>w. (Inr w, w)) (0 :: nat) = (Inr 3, 3)"
    by (simp add: wait_until_def wait_poll_def io_defs eval_nat_numeral)
  then show ?thesis
    using wait_until_sound [OF retries_attempts run] by auto
qed

text \<open>a timeout set in the environment reaches the HTTP client as a string, not as a number: only the
  default is an integer.\<close>

theorem api_timeout_from_env_is_text:
  "API_REQUEST_TIMEOUT (\<lambda>_. None) = PInt 20 \<and>
   API_REQUEST_TIMEOUT ((\<lambda>_. None)(''API_REQUEST_TIMEOUT'' \<mapsto> ''30'')) = PStr ''30''"
  by (simp add: API_REQUEST_TIMEOUT_def get_env_var_cases)

end
