(* ===== verification/Rest_Client.thy ===== *)
theory Rest_Client
  imports Http_Model Py_Json Py_Codec
begin

text \<open>
  The REST client of the end-to-end tests: \<open>tests-e2e/src/node/api_clients/base_client.py\<close> and
  \<open>rest.py\<close>. The \<open>requests\<close> package is the field \<open>http\<close> of the client. Log lines are left out, but
  the text that \<open>log_request_as_curl\<close> logs is computed, because computing it can raise. The text of
  an exception keeps its fixed part. \<open>shown\<close> is Python's \<open>str\<close> for floats, lists and dicts, and
  \<open>float_text\<close> the text that \<open>json.dumps\<close> gives a float.
\<close>

section \<open>Requests\<close>

record 'w rest =
  rest_port :: string
  http :: "'w http_fun"
  api_timeout :: pyval
  float_text :: "rat \<Rightarrow> string"
  shown :: "pyval \<Rightarrow> string"

text \<open>\<open>str(v)\<close>\<close>

fun py_str :: "(pyval \<Rightarrow> string) \<Rightarrow> pyval \<Rightarrow> string" where
  "py_str sh PNone = ''None''"
| "py_str sh (PBool b) = (if b then ''True'' else ''False'')"
| "py_str sh (PInt i) = str_int i"
| "py_str sh (PStr s) = s"
| "py_str sh v = sh v"

text \<open>\<open>"timestamp" in v\<close>\<close>

fun py_contains :: "string \<Rightarrow> pyval \<Rightarrow> bool res" where
  "py_contains k (PDict d) = Inr (has_key d k)"
| "py_contains k (PList vs) = Inr (PStr k \<in> set vs)"
| "py_contains k (PStr s) = Inr (str_in k s)"
| "py_contains k _ = Inl (Exn TypeError ''argument of this type is not iterable'')"

text \<open>\<open>v[k] = x\<close> for a string key.\<close>

fun py_set_item :: "string \<Rightarrow> pyval \<Rightarrow> pyval \<Rightarrow> pyval res" where
  "py_set_item k x (PDict d) = Inr (PDict (AList.update k x d))"
| "py_set_item k x (PList _) = Inl (Exn TypeError ''list indices must be integers or slices, not str'')"
| "py_set_item k x _ = Inl (Exn TypeError ''object does not support item assignment'')"

text \<open>The data part of the logged command; the exception of a text that is not JSON is caught.\<close>

definition curl_data :: "(rat \<Rightarrow> string) \<Rightarrow> string \<Rightarrow> string res" where
  "curl_data fl data =
     (case json_loads data of
        Inl e \<Rightarrow> if isa e JSONDecodeError then Inr data else Inl e
      | Inr v \<Rightarrow>
          res_bind (py_contains ''timestamp'' v) (\<lambda>b.
          res_bind (if b then py_set_item ''timestamp'' (PStr ''TIMESTAMP_PLACEHOLDER'') v else Inr v) (\<lambda>v'.
            Inr (replace_str (quote_mark # ''TIMESTAMP_PLACEHOLDER'' @ [quote_mark])
                   (apostrophe # ''$(date +%s%N)'' @ [apostrophe]) (json_dumps fl v')))))"

definition log_request_as_curl ::
    "(rat \<Rightarrow> string) \<Rightarrow> string \<Rightarrow> string \<Rightarrow> (string \<times> string) list \<Rightarrow> string option \<Rightarrow> string res" where
  "log_request_as_curl fl meth url headers data =
     res_bind (case data of
         None \<Rightarrow> Inr ''None''
       | Some d \<Rightarrow> if d = [] then Inr [] else curl_data fl d) (\<lambda>text.
       Inr (''curl -v -X '' @ upper meth @ '' '' @ [quote_mark] @ url @ [quote_mark] @ '' '' @
         join '' '' (map (\<lambda>(k, v). ''-H '' @ [quote_mark] @ k @ '': '' @ v @ [quote_mark]) headers) @
         '' -d '' @ [apostrophe] @ text @ [apostrophe]))"

text \<open>Every failure of \<open>raise_for_status\<close> becomes a plain \<open>Exception\<close>.\<close>

definition checked_response :: "http_response \<Rightarrow> http_response res" where
  "checked_response r =
     (case raise_for_status r of
        None \<Rightarrow> Inr r
      | Some e \<Rightarrow>
          if isa e Exception
          then Inl (Exn Exception (''Error: '' @ text_of e @ '' with response: '' @ resp_text r))
          else Inl e)"

definition make_request ::
    "'w rest \<Rightarrow> string \<Rightarrow> string \<Rightarrow> (string \<times> string) list \<Rightarrow> string option \<Rightarrow> ('w, http_response) io" where
  "make_request c meth url headers data =
     io_bind (io_lift (log_request_as_curl (float_text c) meth url headers data)) (\<lambda>_.
     io_bind (http c \<lparr>req_method = upper meth, req_url = url, req_params = [], req_headers = headers,
                req_json = None, req_data = data, req_timeout = Some (api_timeout c)\<rparr>) (\<lambda>r.
       io_lift (checked_response r)))"

definition rest_url :: "'w rest \<Rightarrow> string \<Rightarrow> string" where
  "rest_url c endpoint = ''http://127.0.0.1:'' @ rest_port c @ ''/'' @ endpoint"

definition rest_call :: "'w rest \<Rightarrow> string \<Rightarrow> string \<Rightarrow> string option \<Rightarrow> ('w, http_response) io" where
  "rest_call c meth endpoint payload =
     make_request c meth (rest_url c endpoint) [(''Content-Type'', ''application/json'')] payload"

text \<open>\<open>self.rest_call(...).json()\<close> and \<open>.content\<close>, \<open>.text\<close>.\<close>

definition call_json :: "'w rest \<Rightarrow> string \<Rightarrow> string \<Rightarrow> string option \<Rightarrow> ('w, pyval) io" where
  "call_json c meth endpoint payload = io_bind (rest_call c meth endpoint payload) (\<lambda>r. io_lift (resp_json r))"

definition call_text :: "'w rest \<Rightarrow> string \<Rightarrow> string \<Rightarrow> string option \<Rightarrow> ('w, string) io" where
  "call_text c meth endpoint payload = io_bind (rest_call c meth endpoint payload) (\<lambda>r. io_return (resp_text r))"

abbreviation dumped :: "'w rest \<Rightarrow> pyval \<Rightarrow> string option" where
  "dumped c v \<equiv> Some (json_dumps (float_text c) v)"

section \<open>Endpoints\<close>

definition rest_info where "rest_info c = call_json c ''get'' ''debug/v1/info'' None"
definition rest_health where "rest_health c = call_text c ''get'' ''health'' None"
definition get_peers where "get_peers c = call_json c ''get'' ''admin/v1/peers'' None"
definition add_peers where "add_peers c peers = rest_call c ''post'' ''admin/v1/peers'' (dumped c peers)"
definition set_relay_subscriptions where
  "set_relay_subscriptions c topics = rest_call c ''post'' ''relay/v1/subscriptions'' (dumped c topics)"
definition set_relay_auto_subscriptions where
  "set_relay_auto_subscriptions c topics = rest_call c ''post'' ''relay/v1/auto/subscriptions'' (dumped c topics)"
definition delete_relay_auto_subscriptions where
  "delete_relay_auto_subscriptions c topics = rest_call c ''delete'' ''relay/v1/auto/subscriptions'' (dumped c topics)"
definition send_relay_message where
  "send_relay_message c message pubsub_topic =
     rest_call c ''post'' (''relay/v1/messages/'' @ quote [] pubsub_topic) (dumped c message)"
definition send_relay_auto_message where
  "send_relay_auto_message c message = rest_call c ''post'' ''relay/v1/auto/messages'' (dumped c message)"
definition send_light_push_message where
  "send_light_push_message c payload = rest_call c ''post'' ''lightpush/v3/message'' (dumped c payload)"
definition get_relay_messages where
  "get_relay_messages c pubsub_topic = call_json c ''get'' (''relay/v1/messages/'' @ quote [] pubsub_topic) None"
definition get_relay_auto_messages where
  "get_relay_auto_messages c content_topic = call_json c ''get'' (''relay/v1/auto/messages/'' @ quote [] content_topic) None"
definition set_filter_subscriptions where
  "set_filter_subscriptions c subscription = call_json c ''post'' ''filter/v2/subscriptions'' (dumped c subscription)"

definition filter_endpoint :: "string \<Rightarrow> string option \<Rightarrow> string" where
  "filter_endpoint content_topic pubsub_topic =
     (case pubsub_topic of
        Some p \<Rightarrow> ''filter/v2/messages/'' @ quote [] p @ ''/'' @ quote [] content_topic
      | None \<Rightarrow> ''filter/v2/messages/'' @ quote [] content_topic)"

definition get_filter_messages where
  "get_filter_messages c content_topic pubsub_topic = call_json c ''get'' (filter_endpoint content_topic pubsub_topic) None"

text \<open>The arguments of a store query. \<open>include_data\<close>, the times, the page size and the direction go
  into the URL as \<open>str\<close> writes them.\<close>

record store_query =
  peer_addr :: "string option"
  include_data :: "pyval option"
  pubsub_topic :: "string option"
  content_topics :: "string option"
  start_time :: "pyval option"
  end_time :: "pyval option"
  hashes :: "string option"
  cursor :: "string option"
  page_size :: "pyval option"
  ascending :: "pyval option"
  store_v :: string
  encode_pubsubtopic :: bool
  extra :: "(string \<times> pyval) list"

definition param :: "string \<Rightarrow> ('a \<Rightarrow> string) \<Rightarrow> 'a option \<Rightarrow> string list" where
  "param k f v = (case v of None \<Rightarrow> [] | Some x \<Rightarrow> [k @ ''='' @ f x])"

definition store_params :: "(pyval \<Rightarrow> string) \<Rightarrow> store_query \<Rightarrow> string list" where
  "store_params sh q =
     param ''peerAddr'' (quote []) (peer_addr q) @
     param ''includeData'' (py_str sh) (include_data q) @
     param ''pubsubTopic'' (if encode_pubsubtopic q then quote [] else id) (pubsub_topic q) @
     param ''contentTopics'' (quote []) (content_topics q) @
     param ''startTime'' (py_str sh) (start_time q) @
     param ''endTime'' (py_str sh) (end_time q) @
     param ''hashes'' (quote []) (hashes q) @
     param ''cursor'' (quote []) (cursor q) @
     param ''pageSize'' (py_str sh) (page_size q) @
     param ''ascending'' (py_str sh) (ascending q) @
     concat (map (\<lambda>(k, v). if v = PNone then [] else [k @ ''='' @ quote [] (py_str sh v)]) (extra q))"

definition store_endpoint :: "(pyval \<Rightarrow> string) \<Rightarrow> store_query \<Rightarrow> string" where
  "store_endpoint sh q =
     (let base = ''store/'' @ store_v q @ ''/messages''; ps = store_params sh q in
      if ps = [] then base else base @ ''?'' @ join ''&'' ps)"

definition get_store_messages :: "'w rest \<Rightarrow> store_query \<Rightarrow> ('w, pyval) io" where
  "get_store_messages c q = call_json c ''get'' (store_endpoint (shown c) q) None"

definition set_log_level where
  "set_log_level c log_level = rest_call c ''post'' (''admin/v1/log-level/'' @ quote ''/'' log_level) None"
definition get_relay_peers_on_shard where
  "get_relay_peers_on_shard c shard_id =
     call_json c ''get'' (''admin/v1/peers/relay/on/'' @ quote ''/'' (py_str (shown c) shard_id)) None"
definition get_mesh_peers_on_shard where
  "get_mesh_peers_on_shard c shard_id =
     call_json c ''get'' (''admin/v1/peers/mesh/on/'' @ quote ''/'' (py_str (shown c) shard_id)) None"
definition get_debug_version where
  "get_debug_version c = io_bind (call_text c ''get'' ''debug/v1/version'' None) (\<lambda>t. io_return (strip t))"
definition messaging_subscribe where
  "messaging_subscribe c topics = rest_call c ''post'' ''messaging/v1/subscriptions'' (dumped c topics)"
definition messaging_unsubscribe where
  "messaging_unsubscribe c topics = rest_call c ''delete'' ''messaging/v1/subscriptions'' (dumped c topics)"
definition messaging_send where
  "messaging_send c message = call_json c ''post'' ''messaging/v1/messages'' (dumped c message)"
definition messaging_send_events where
  "messaging_send_events c = call_json c ''get'' ''messaging/v1/events/send'' None"
definition messaging_send_events_by_id where
  "messaging_send_events_by_id c request_id =
     call_json c ''get'' (''messaging/v1/events/send/'' @ quote [] request_id) None"
definition messaging_received where
  "messaging_received c = call_json c ''get'' ''messaging/v1/events/received'' None"

section \<open>One request per call\<close>

text \<open>A call whose logging does not raise makes exactly one request, and its outcome is a function of
  the answer.\<close>

lemma rest_call_one_request:
  assumes "log_request_as_curl (float_text c) meth (rest_url c endpoint) [(''Content-Type'', ''application/json'')] payload = Inr t"
  shows "rest_call c meth endpoint payload w =
    (case http c \<lparr>req_method = upper meth, req_url = rest_url c endpoint, req_params = [],
        req_headers = [(''Content-Type'', ''application/json'')], req_json = None, req_data = payload,
        req_timeout = Some (api_timeout c)\<rparr> w of
      (r, w') \<Rightarrow> (res_bind r checked_response, w'))"
  using assms by (auto simp: rest_call_def make_request_def io_defs split: prod.splits sum.splits)

lemma log_no_payload: "\<exists>t. log_request_as_curl fl meth url headers None = Inr t"
  by (simp add: log_request_as_curl_def)

lemma dumps_nonempty: "dumpable v \<Longrightarrow> json_dumps fl v \<noteq> []"
  using dumps_start [of v fl] by auto

lemma log_object:
  assumes "dumpable (PDict d)"
  shows "\<exists>t. log_request_as_curl fl meth url headers (Some (json_dumps fl (PDict d))) = Inr t"
  using assms dumps_nonempty [OF assms, of fl]
  by (simp add: log_request_as_curl_def curl_data_def json_loads_dumps del: dumpable.simps json_dumps.simps)


section \<open>Reading a URL back\<close>

text \<open>What a server sees: the last path segment decoded, and the query as pairs of a name and a decoded
  value.\<close>

definition last_segment :: "string \<Rightarrow> string" where
  "last_segment url = unquote (last (split_char (CHR ''/'') url))"

definition parse_pair :: "string \<Rightarrow> string \<times> string" where
  "parse_pair s = (case split_once (CHR ''='') s of [k, v] \<Rightarrow> (k, unquote v) | _ \<Rightarrow> (s, []))"

definition parse_query :: "string \<Rightarrow> (string \<times> string) list" where
  "parse_query url =
     (case split_once (CHR ''?'') url of
        [_, q] \<Rightarrow> map parse_pair (split_char (CHR ''&'') q)
      | _ \<Rightarrow> [])"

lemma last_segment_quote: "last_segment (p @ CHR ''/'' # quote [] t) = t"
  using segment.enc_no_sep [OF reserved_not_quoted(1)]
  by (simp add: last_segment_def last_split_char_append unquote_quote)

text \<open>A text that needs no escaping inside a query.\<close>

definition plain_value :: "string \<Rightarrow> bool" where
  "plain_value s \<longleftrightarrow> CHR ''&'' \<notin> set s \<and> CHR ''%'' \<notin> set s"

lemma unquote_id: "CHR ''%'' \<notin> set s \<Longrightarrow> unquote s = s"
  by (induction s) (auto simp: unquote_plain)

lemma parse_pair_quote: "CHR ''='' \<notin> set k \<Longrightarrow> parse_pair (k @ CHR ''='' # quote [] v) = (k, v)"
  by (simp add: parse_pair_def split_once_append unquote_quote)

lemma parse_pair_plain: "CHR ''='' \<notin> set k \<Longrightarrow> CHR ''%'' \<notin> set v \<Longrightarrow> parse_pair (k @ CHR ''='' # v) = (k, v)"
  by (simp add: parse_pair_def split_once_append unquote_id)

lemma amp_not_quoted: "CHR ''&'' \<notin> set (quote [] v)"
  using segment.enc_no_sep [OF reserved_not_quoted(3)] .

text \<open>A list of parameters that is read back as the given pairs.\<close>

definition reads_as :: "string list \<Rightarrow> (string \<times> string) list \<Rightarrow> bool" where
  "reads_as ps kvs \<longleftrightarrow> map parse_pair ps = kvs \<and> (\<forall>p \<in> set ps. CHR ''&'' \<notin> set p)"

lemma reads_as_append: "reads_as ps a \<Longrightarrow> reads_as qs b \<Longrightarrow> reads_as (ps @ qs) (a @ b)"
  by (auto simp: reads_as_def)

definition pair_if :: "string \<Rightarrow> ('a \<Rightarrow> string) \<Rightarrow> 'a option \<Rightarrow> (string \<times> string) list" where
  "pair_if k f v = (case v of None \<Rightarrow> [] | Some x \<Rightarrow> [(k, f x)])"

lemma reads_quoted:
  "CHR ''='' \<notin> set k \<Longrightarrow> CHR ''&'' \<notin> set k \<Longrightarrow> reads_as (param k (quote []) v) (pair_if k id v)"
  by (auto simp: reads_as_def param_def pair_if_def parse_pair_quote amp_not_quoted split: option.splits)

lemma reads_plain:
  "CHR ''='' \<notin> set k \<Longrightarrow> CHR ''&'' \<notin> set k \<Longrightarrow> (\<And>x. v = Some x \<Longrightarrow> plain_value (f x)) \<Longrightarrow>
   reads_as (param k f v) (pair_if k f v)"
  by (auto simp: reads_as_def param_def pair_if_def parse_pair_plain plain_value_def split: option.splits)

lemma reads_extra:
  assumes "\<forall>(k, v) \<in> set kvs. CHR ''='' \<notin> set k \<and> CHR ''&'' \<notin> set k"
  shows "reads_as (concat (map (\<lambda>(k, v). if v = PNone then [] else [k @ ''='' @ quote [] (py_str sh v)]) kvs))
           (concat (map (\<lambda>(k, v). if v = PNone then [] else [(k, py_str sh v)]) kvs))"
  using assms by (induction kvs) (auto simp: reads_as_def parse_pair_quote amp_not_quoted split: prod.splits)

text \<open>The pairs a store query stands for, in the order in which they are sent.\<close>

definition query_pairs :: "(pyval \<Rightarrow> string) \<Rightarrow> store_query \<Rightarrow> (string \<times> string) list" where
  "query_pairs sh q =
     pair_if ''peerAddr'' id (peer_addr q) @ pair_if ''includeData'' (py_str sh) (include_data q) @
     pair_if ''pubsubTopic'' id (pubsub_topic q) @ pair_if ''contentTopics'' id (content_topics q) @
     pair_if ''startTime'' (py_str sh) (start_time q) @ pair_if ''endTime'' (py_str sh) (end_time q) @
     pair_if ''hashes'' id (hashes q) @ pair_if ''cursor'' id (cursor q) @
     pair_if ''pageSize'' (py_str sh) (page_size q) @ pair_if ''ascending'' (py_str sh) (ascending q) @
     concat (map (\<lambda>(k, v). if v = PNone then [] else [(k, py_str sh v)]) (extra q))"

definition query_ok :: "(pyval \<Rightarrow> string) \<Rightarrow> store_query \<Rightarrow> bool" where
  "query_ok sh q \<longleftrightarrow>
     encode_pubsubtopic q \<and> CHR ''?'' \<notin> set (store_v q) \<and>
     list_all (\<lambda>v. case v of None \<Rightarrow> True | Some x \<Rightarrow> plain_value (py_str sh x))
       [include_data q, start_time q, end_time q, page_size q, ascending q] \<and>
     list_all (\<lambda>(k, v). CHR ''='' \<notin> set k \<and> CHR ''&'' \<notin> set k) (extra q)"

lemma store_params_read:
  assumes "query_ok sh q"
  shows "reads_as (store_params sh q) (query_pairs sh q)"
proof -
  have e: "(if encode_pubsubtopic q then quote [] else id) = quote []" using assms by (simp add: query_ok_def)
  have x: "\<forall>(k, v) \<in> set (extra q). CHR ''='' \<notin> set k \<and> CHR ''&'' \<notin> set k"
    using assms by (simp add: query_ok_def list_all_iff)
  show ?thesis
    unfolding store_params_def query_pairs_def e
    by (intro reads_as_append reads_extra x; (rule reads_quoted | rule reads_plain))
       (use assms in \<open>auto simp: query_ok_def\<close>)
qed

section \<open>Properties\<close>

text \<open>C16: a store query reaches the server as the caller wrote it: the query string of the request's URL
  reads back as exactly the parameters that were given, in order, whatever characters the topics,
  hashes, cursors and addresses contain (the values that the client does not escape must not contain
  an ampersand or a percent sign).\<close>

theorem store_query_decodes:
  assumes "query_ok sh q"
  shows "parse_query (store_endpoint sh q) = query_pairs sh q"
proof (cases "store_params sh q = []")
  case True
  then have "query_pairs sh q = []" using store_params_read [OF assms] by (simp add: reads_as_def)
  moreover have "CHR ''?'' \<notin> set (''store/'' @ store_v q @ ''/messages'')" using assms by (simp add: query_ok_def)
  then have "parse_query (''store/'' @ store_v q @ ''/messages'') = []"
    unfolding parse_query_def by (subst split_once_no_sep) simp_all
  ultimately show ?thesis using True by (simp add: store_endpoint_def)
next
  case False
  let ?b = "''store/'' @ store_v q @ ''/messages''" and ?ps = "store_params sh q"
  have "CHR ''?'' \<notin> set ?b" using assms by (simp add: query_ok_def)
  then have "parse_query (?b @ CHR ''?'' # join ''&'' ?ps) = map parse_pair (split_char (CHR ''&'') (join ''&'' ?ps))"
    unfolding parse_query_def by (subst split_once_append) simp_all
  also have "split_char (CHR ''&'') (join ''&'' ?ps) = ?ps"
    using store_params_read [OF assms] False by (intro split_char_join) (auto simp: reads_as_def)
  finally show ?thesis
    using store_params_read [OF assms] False by (simp add: store_endpoint_def Let_def reads_as_def)
qed

definition demo_query :: store_query where
  "demo_query = \<lparr>peer_addr = Some ''/ip4/1.2.3.4/tcp/1/p2p/a'', include_data = Some (PStr ''true''),
     pubsub_topic = Some ''/waku/2/rs/3/0'', content_topics = Some ''/a/1/b&c=d/proto'', start_time = Some (PInt 5),
     end_time = None, hashes = None, cursor = None, page_size = Some (PInt 20), ascending = None, store_v = ''v3'',
     encode_pubsubtopic = True, extra = [(''x'', PNone), (''y'', PStr ''50%'')]\<rparr>"

theorem store_query_decodes_witness:
  "parse_query (store_endpoint (\<lambda>_. []) demo_query) =
     [(''peerAddr'', ''/ip4/1.2.3.4/tcp/1/p2p/a''), (''includeData'', ''true''), (''pubsubTopic'', ''/waku/2/rs/3/0''),
      (''contentTopics'', ''/a/1/b&c=d/proto''), (''startTime'', ''5''), (''pageSize'', ''20''), (''y'', ''50%'')]"
proof -
  have "query_ok (\<lambda>_. []) demo_query" by code_simp
  moreover have "query_pairs (\<lambda>_. []) demo_query =
     [(''peerAddr'', ''/ip4/1.2.3.4/tcp/1/p2p/a''), (''includeData'', ''true''), (''pubsubTopic'', ''/waku/2/rs/3/0''),
      (''contentTopics'', ''/a/1/b&c=d/proto''), (''startTime'', ''5''), (''pageSize'', ''20''), (''y'', ''50%'')]"
    by code_simp
  ultimately show ?thesis using store_query_decodes [of "\<lambda>_. []" demo_query] by simp
qed

text \<open>C15: publishing over the relay endpoint makes exactly one request, whose last path segment decodes to
  the pubsub topic, whatever characters it has, and whose body parses to the message; the outcome is the
  checked answer of that request.\<close>

theorem relay_message_sent_intact:
  assumes "dumpable (PDict message)"
  shows "\<exists>req. last_segment (req_url req) = topic \<and> req_method req = ''POST'' \<and>
    map_option json_loads (req_data req) = Some (Inr (PDict message)) \<and>
    (\<forall>w. send_relay_message c (PDict message) topic w =
       (case http c req w of (r, w') \<Rightarrow> (res_bind r checked_response, w')))"
proof -
  let ?req = "\<lparr>req_method = upper ''post'', req_url = rest_url c (''relay/v1/messages/'' @ quote [] topic), req_params = [],
      req_headers = [(''Content-Type'', ''application/json'')], req_json = None,
      req_data = dumped c (PDict message), req_timeout = Some (api_timeout c)\<rparr>"
  have "last_segment (req_url ?req) = topic"
    using last_segment_quote [of "''http://127.0.0.1:'' @ rest_port c @ ''/relay/v1/messages''" topic]
    by (simp add: rest_url_def)
  moreover have "upper ''post'' = ''POST''" by code_simp
  then have "req_method ?req = ''POST''" by simp
  moreover have "map_option json_loads (req_data ?req) = Some (Inr (PDict message))"
    using json_loads_dumps [OF assms, of "float_text c"] by (simp del: json_dumps.simps)
  moreover have "send_relay_message c (PDict message) topic w =
      (case http c ?req w of (r, w') \<Rightarrow> (res_bind r checked_response, w'))" for w
  proof -
    obtain t where "log_request_as_curl (float_text c) ''post'' (rest_url c (''relay/v1/messages/'' @ quote [] topic))
        [(''Content-Type'', ''application/json'')] (dumped c (PDict message)) = Inr t"
      using log_object [OF assms] by blast
    then show ?thesis unfolding send_relay_message_def by (rule rest_call_one_request)
  qed
  ultimately show ?thesis by blast
qed


definition echo_client :: "http_req list rest" where
  "echo_client = \<lparr>rest_port = ''8645'', http = (\<lambda>req w. (Inr \<lparr>status_code = 200, resp_text = [], resp_json = Inr PNone,
     raise_for_status = None\<rparr>, w @ [req])), api_timeout = PInt 20, float_text = (\<lambda>_. []), shown = (\<lambda>_. [])\<rparr>"

theorem relay_message_sent_intact_witness:
  "\<exists>req. last_segment (req_url req) = ''/waku/2/rs/3/0'' \<and>
     map_option json_loads (req_data req) = Some (Inr (PDict [(''payload'', PStr ''aGk='')])) \<and>
     snd (send_relay_message echo_client (PDict [(''payload'', PStr ''aGk='')]) ''/waku/2/rs/3/0'' []) = [req]"
proof -
  have "dumpable (PDict [(''payload'', PStr ''aGk='')])" by (simp add: byte_def)
  from relay_message_sent_intact [OF this, of "''/waku/2/rs/3/0''" echo_client]
  obtain req where "last_segment (req_url req) = ''/waku/2/rs/3/0''"
    "map_option json_loads (req_data req) = Some (Inr (PDict [(''payload'', PStr ''aGk='')]))"
    "send_relay_message echo_client (PDict [(''payload'', PStr ''aGk='')]) ''/waku/2/rs/3/0'' [] =
       (case http echo_client req [] of (r, w') \<Rightarrow> (res_bind r checked_response, w'))" by blast
  then show ?thesis by (intro exI [of _ req]) (simp add: echo_client_def)
qed

text \<open>the URLs from which filter messages are read keep different requests apart: the pubsub topic (or
  its absence) and the content topic are determined by the endpoint.\<close>

theorem filter_endpoint_inj:
  assumes "filter_endpoint c1 p1 = filter_endpoint c2 p2"
  shows "c1 = c2 \<and> p1 = p2"
proof -
  have shape: "filter_endpoint c p = ''filter/v2/messages/'' @ join ''/'' (map (quote []) (case p of None \<Rightarrow> [c] | Some x \<Rightarrow> [x, c]))" for c p
    by (simp add: filter_endpoint_def split: option.splits)
  have "(case p1 of None \<Rightarrow> [c1] | Some x \<Rightarrow> [x, c1]) = (case p2 of None \<Rightarrow> [c2] | Some x \<Rightarrow> [x, c2])"
    using assms unfolding shape
    by (intro segment.joined_inj [OF reserved_not_quoted(1)]) (auto split: option.splits)
  then show ?thesis by (auto split: option.splits)
qed

theorem filter_endpoint_inj_witness:
  "filter_endpoint ''/a/b'' (Some ''/c'') \<noteq> filter_endpoint ''b'' (Some ''/c/a'')"
  using filter_endpoint_inj [of "''/a/b''" "Some ''/c''" "''b''" "Some ''/c/a''"] by auto

text \<open>C17: the logging of a request can stop it: a call with a list as payload raises \<open>TypeError\<close> while the log line is
  built, and makes no request, exactly when the text \<open>timestamp\<close> is an element of the list (a content topic of
  that name); with any other list it makes one request.\<close>

theorem curl_log_blocks_request:
  assumes "dumpable (PList vs)"
  shows "rest_call c meth endpoint (dumped c (PList vs)) w =
    (if PStr ''timestamp'' \<in> set vs then (Inl (Exn TypeError ''list indices must be integers or slices, not str''), w)
     else (case http c \<lparr>req_method = upper meth, req_url = rest_url c endpoint, req_params = [],
         req_headers = [(''Content-Type'', ''application/json'')], req_json = None, req_data = dumped c (PList vs),
         req_timeout = Some (api_timeout c)\<rparr> w of
       (r, w') \<Rightarrow> (res_bind r checked_response, w')))"
proof -
  have data: "curl_data (float_text c) (json_dumps (float_text c) (PList vs)) =
      (if PStr ''timestamp'' \<in> set vs then Inl (Exn TypeError ''list indices must be integers or slices, not str'')
       else curl_data (float_text c) (json_dumps (float_text c) (PList vs)))"
    "PStr ''timestamp'' \<notin> set vs \<Longrightarrow> \<exists>t. curl_data (float_text c) (json_dumps (float_text c) (PList vs)) = Inr t"
    using json_loads_dumps [OF assms, of "float_text c"] by (simp_all add: curl_data_def del: json_dumps.simps)
  show ?thesis
  proof (cases "PStr ''timestamp'' \<in> set vs")
    case True
    then show ?thesis using data(1) dumps_nonempty [OF assms, of "float_text c"]
      by (simp add: rest_call_def make_request_def log_request_as_curl_def io_defs del: json_dumps.simps)
  next
    case False
    with data(2) obtain t where
      "log_request_as_curl (float_text c) meth (rest_url c endpoint) [(''Content-Type'', ''application/json'')] (dumped c (PList vs)) = Inr t"
      using dumps_nonempty [OF assms, of "float_text c"] by (auto simp: log_request_as_curl_def simp del: json_dumps.simps)
    from rest_call_one_request [OF this] False show ?thesis by simp
  qed
qed

theorem curl_log_blocks_request_witness:
  "messaging_subscribe echo_client (PList [PStr ''/a/1/b/proto'', PStr ''timestamp'']) [] =
     (Inl (Exn TypeError ''list indices must be integers or slices, not str''), []) \<and>
   length (snd (messaging_subscribe echo_client (PList [PStr ''/a/1/b/proto'']) [])) = 1"
proof -
  have d: "dumpable (PList [PStr ''/a/1/b/proto'', PStr ''timestamp''])" "dumpable (PList [PStr ''/a/1/b/proto''])"
    by (simp_all add: byte_def)
  show ?thesis
    using curl_log_blocks_request [OF d(1), of echo_client "''post''" "''messaging/v1/subscriptions''" "[]"]
      curl_log_blocks_request [OF d(2), of echo_client "''post''" "''messaging/v1/subscriptions''" "[]"]
    by (simp add: messaging_subscribe_def echo_client_def del: json_dumps.simps)
qed

end
