(* ===== verification/Docker_Manager.thy ===== *)
theory Docker_Manager
  imports E2e_Common Rest_Client
begin

text \<open>
  \<open>tests-e2e/src/node/docker_mananger.py\<close> and \<open>tests-e2e/src/postgres_setup.py\<close>. The Docker client is
  a record of operations on a world; containers and networks are named by their ids. Random numbers are
  arguments. The log thread is a function of the stream sessions that \<open>container.logs(stream=True)\<close>
  yields: each is a list of chunks, with the clock at which each is handled, and the way it ends.
  Messages of exceptions keep their fixed text.
\<close>

section \<open>The Docker client\<close>

record container_spec =
  spec_image :: string
  spec_command :: "string list"
  spec_ports :: "(string \<times> string) list"
  spec_auto_remove :: bool
  spec_volumes :: "string list"

record 'w docker =
  networks_list :: "string \<Rightarrow> ('w, string list) io"
  networks_create :: "string \<Rightarrow> string \<Rightarrow> string \<Rightarrow> string \<Rightarrow> ('w, string) io"
  networks_get :: "string \<Rightarrow> ('w, string) io"
  network_connect :: "string \<Rightarrow> string \<Rightarrow> string \<Rightarrow> ('w, unit) io"
  images_get :: "string \<Rightarrow> ('w, unit) io"
  images_pull :: "string \<Rightarrow> ('w, unit) io"
  containers_create :: "container_spec \<Rightarrow> ('w, string) io"
  containers_create_kw :: "string \<Rightarrow> (string, pyval) dict \<Rightarrow> ('w, string) io"
  container_start :: "string \<Rightarrow> ('w, unit) io"
  container_stop :: "string \<Rightarrow> ('w, unit) io"
  container_remove :: "string \<Rightarrow> ('w, unit) io"
  container_purge :: "string \<Rightarrow> ('w, unit) io"  \<comment> \<open>\<open>remove(v=True, force=True)\<close>\<close>
  container_restart :: "string \<Rightarrow> ('w, unit) io"
  container_pause :: "string \<Rightarrow> ('w, unit) io"
  container_unpause :: "string \<Rightarrow> ('w, unit) io"
  container_exec :: "string \<Rightarrow> string list \<Rightarrow> ('w, int \<times> string) io"

section \<open>Networks, images and containers\<close>

definition create_network :: "'w docker \<Rightarrow> environ \<Rightarrow> string \<Rightarrow> ('w, string) io" where
  "create_network d env network_name =
     io_bind (networks_list d network_name) (\<lambda>networks.
       case networks of
         n # _ \<Rightarrow> io_return n
       | [] \<Rightarrow> networks_create d network_name (SUBNET env) (IP_RANGE env) (GATEWAY env))"

definition pull_if_missing :: "'w docker \<Rightarrow> string \<Rightarrow> ('w, unit) io" where
  "pull_if_missing d image_name =
     io_try (images_get d image_name)
       (\<lambda>e. if isa e ImageNotFound then images_pull d image_name else io_raise e)"

text \<open>The command line: a list gives one option per item, \<open>None\<close> the bare key.\<close>

definition cli_arg :: "(pyval \<Rightarrow> string) \<Rightarrow> string \<times> pyval \<Rightarrow> string list" where
  "cli_arg sh = (\<lambda>(key, value).
     case value of
       PList items \<Rightarrow> map (\<lambda>item. ''--'' @ key @ ''='' @ py_str sh item) items
     | PNone \<Rightarrow> [key]
     | v \<Rightarrow> [''--'' @ key @ ''='' @ py_str sh v])"

definition cli_args :: "(pyval \<Rightarrow> string) \<Rightarrow> (string, pyval) dict \<Rightarrow> string list" where
  "cli_args sh args = concat (map (cli_arg sh) args)"

definition port_bindings :: "string list \<Rightarrow> (string \<times> string) list" where
  "port_bindings ports = dict_update [] (map (\<lambda>p. (p @ ''/tcp'', p)) ports)"

definition start_container ::
    "'w docker \<Rightarrow> environ \<Rightarrow> (pyval \<Rightarrow> string) \<Rightarrow> string \<Rightarrow> string list \<Rightarrow> (string, pyval) dict \<Rightarrow> string \<Rightarrow>
     string list \<Rightarrow> bool \<Rightarrow> ('w, string) io" where
  "start_container d env sh image_name ports args container_ip volumes remove_container =
     io_bind (pull_if_missing d image_name) (\<lambda>_.
     io_bind (containers_create d \<lparr>spec_image = image_name, spec_command = cli_args sh args,
                spec_ports = port_bindings ports, spec_auto_remove = remove_container, spec_volumes = volumes\<rparr>) (\<lambda>container.
     io_bind (networks_get d (NETWORK_NAME env)) (\<lambda>network.
     io_bind (network_connect d network container container_ip) (\<lambda>_.
     io_bind (container_start d container) (\<lambda>_. io_return container)))))"

section \<open>The log thread\<close>

datatype stream_end = Ended | Raised exn

record log_session =
  chunks :: "(string \<times> rat) list"
  ending :: stream_end

record log_state =
  retry_count :: nat
  start_time_s :: rat
  written :: string

text \<open>The inner loop; the flag says that it returned because nothing came for five seconds.\<close>

fun read_chunks :: "log_state \<Rightarrow> (string \<times> rat) list \<Rightarrow> bool \<times> log_state" where
  "read_chunks st [] = (False, st)"
| "read_chunks st ((chunk, now) # cs) =
     (if chunk \<noteq> [] then
        read_chunks (st\<lparr>written := written st @ chunk, start_time_s := now, retry_count := 0\<rparr>) cs
      else if now - start_time_s st > 5 then (True, st)
      else read_chunks st cs)"

text \<open>The outer loop over the sessions seen so far: whether the thread has returned. \<open>status\<close> is the
  attribute of the container object, which keeps the value it was loaded with.\<close>

fun log_container_output :: "string \<Rightarrow> log_state \<Rightarrow> log_session list \<Rightarrow> bool \<times> log_state" where
  "log_container_output status st [] = (status \<in> {''exited'', ''dead''}, st)"
| "log_container_output status st (s # ss) =
     (if status \<in> {''exited'', ''dead''} then (True, st)
      else
        (let (timed_out, st') = read_chunks st (chunks s) in
         if timed_out then (True, st')
         else case ending s of
           Ended \<Rightarrow> log_container_output status st' ss
         | Raised e \<Rightarrow>
             if isa e APIError \<or> isa e OSError then
               (let st'' = st'\<lparr>retry_count := retry_count st' + 1\<rparr> in
                if 5 \<le> retry_count st'' then (True, st'') else log_container_output status st'' ss)
             else (True, st')))"

section \<open>Ports, addresses and logs\<close>

text \<open>\<open>rnd\<close> is the result of \<open>random.randint(1024, 65535 - count)\<close>.\<close>

definition generate_ports :: "int option \<Rightarrow> int \<Rightarrow> nat \<Rightarrow> string list" where
  "generate_ports base_port rnd count =
     (let base = (case base_port of Some b \<Rightarrow> b | None \<Rightarrow> rnd) in map (\<lambda>i. str_int (base + int i)) [0..<count])"

definition generate_random_ext_ip :: "environ \<Rightarrow> nat \<Rightarrow> nat \<Rightarrow> string" where
  "generate_random_ext_ip env a b =
     join ''.'' (take 2 (split_char (CHR ''.'') (SUBNET env)) @ [str_nat a, str_nat b])"

text \<open>\<open>search\<close> stands for \<open>re.search(keyword, line, re.IGNORECASE)\<close>: what the pattern matches, or the \<open>re.error\<close> of a
  keyword that is no pattern. The log is the text of the file.\<close>

type_synonym search_fun = "string \<Rightarrow> (string \<Rightarrow> bool) res"

definition line_matches :: "search_fun \<Rightarrow> bool \<Rightarrow> string \<Rightarrow> string \<Rightarrow> bool res" where
  "line_matches search use_regex keyword line =
     (if use_regex then res_bind (search keyword) (\<lambda>matcher. Inr (matcher line))
      else Inr (str_in (lower keyword) (lower line)))"

definition note_match ::
    "search_fun \<Rightarrow> bool \<Rightarrow> string \<Rightarrow> string \<Rightarrow> (string, string list) dict \<Rightarrow> (string, string list) dict res" where
  "note_match search use_regex line keyword matches =
     res_bind (line_matches search use_regex keyword line) (\<lambda>found. Inr
       (if found
        then AList.update keyword ((case map_of matches keyword of None \<Rightarrow> [] | Some ls \<Rightarrow> ls) @ [strip line]) matches
        else matches))"

fun search_line ::
    "search_fun \<Rightarrow> bool \<Rightarrow> string \<Rightarrow> string list \<Rightarrow> (string, string list) dict \<Rightarrow> (string, string list) dict res" where
  "search_line search use_regex line [] matches = Inr matches"
| "search_line search use_regex line (keyword # keywords) matches =
     res_bind (note_match search use_regex line keyword matches) (search_line search use_regex line keywords)"

fun search_lines ::
    "search_fun \<Rightarrow> bool \<Rightarrow> string list \<Rightarrow> string list \<Rightarrow> (string, string list) dict \<Rightarrow> (string, string list) dict res" where
  "search_lines search use_regex keywords [] matches = Inr matches"
| "search_lines search use_regex keywords (line # ls) matches =
     res_bind (search_line search use_regex line keywords matches) (search_lines search use_regex keywords ls)"

definition search_log_for_keywords ::
    "search_fun \<Rightarrow> string \<Rightarrow> string list \<Rightarrow> bool \<Rightarrow> (string, string list) dict option res" where
  "search_log_for_keywords search log_text keywords use_regex =
     res_bind (search_lines search use_regex keywords (file_lines log_text) (dict_update [] (map (\<lambda>k. (k, [])) keywords)))
       (\<lambda>matches. Inr
         (if list_ex (\<lambda>k. case map_of matches k of Some (l # ls) \<Rightarrow> True | _ \<Rightarrow> False) keywords then Some matches else None))"

section \<open>Postgres\<close>

definition pg_ready :: "'w docker \<Rightarrow> environ \<Rightarrow> string \<Rightarrow> ('w, bool) io" where
  "pg_ready d env container =
     io_bind (container_exec d container [''pg_isready'', ''-h'', ''127.0.0.1'', ''-U'', PG_USER env])
       (\<lambda>(code, _). io_return (code = 0))"

definition stop_postgres :: "'w docker \<Rightarrow> string \<Rightarrow> ('w, unit) io" where
  "stop_postgres d container = container_purge d container"

text \<open>The keyword arguments of \<open>client.containers.create\<close>; the intervals are in nanoseconds.\<close>

definition pg_create_args :: "environ \<Rightarrow> (string, pyval) dict" where
  "pg_create_args env =
     [(''name'', PStr ''postgres''),
      (''environment'', PDict [(''POSTGRES_USER'', PStr (PG_USER env)), (''POSTGRES_PASSWORD'', PStr (PG_PASS env))]),
      (''command'', PStr ''postgres''),
      (''restart_policy'', PDict [(''Name'', PStr ''on-failure''), (''MaximumRetryCount'', PInt 5)]),
      (''healthcheck'', PDict
        [(''Test'', PList [PStr ''CMD-SHELL'', PStr ''pg_isready -U postgres -d postgres'']),
         (''Interval'', PInt 30000000000), (''Timeout'', PInt 60000000000), (''Retries'', PInt 5),
         (''StartPeriod'', PInt 80000000000)]),
      (''network_mode'', PStr (NETWORK_NAME env))]"

definition start_postgres :: "'w docker \<Rightarrow> environ \<Rightarrow> ('w, bool) retrier \<Rightarrow> ('w, string) io" where
  "start_postgres d env rt =
     (let image = ''postgres:15.4-alpine3.18'' in
     io_bind (create_network d env (NETWORK_NAME env)) (\<lambda>_.
     io_bind (pull_if_missing d image) (\<lambda>_.
     io_bind (containers_create_kw d image (pg_create_args env)) (\<lambda>container.
     io_bind
       (io_try
         (io_bind (container_start d container) (\<lambda>_.
          io_bind (wait_until rt id ''30'' (Some ''Postgres did not accept connections'') (pg_ready d env container))
            (\<lambda>_. io_return ())))
         (\<lambda>e. if isa e Exception then io_bind (stop_postgres d container) (\<lambda>_. io_raise e) else io_raise e))
       (\<lambda>_. io_return container)))))"

definition get_message_count :: "'w docker \<Rightarrow> environ \<Rightarrow> string \<Rightarrow> ('w, int) io" where
  "get_message_count d env container =
     io_bind (container_exec d container [''psql'', ''-U'', PG_USER env, ''-tAc'', ''SELECT count(*) FROM messages'']) (\<lambda>(code, output).
       io_lift (res_bind (utf8_decode output) (\<lambda>out.
         if code \<noteq> 0 then Inl (Exn AssertionError (''Could not count the stored messages: '' @ out))
         else case parse_int (strip out) of Some i \<Rightarrow> Inr i | None \<Rightarrow> Inl (Exn ValueError ''invalid literal for int()''))))"


section \<open>Properties\<close>

lemma str_int_inj: "0 \<le> i \<Longrightarrow> 0 \<le> j \<Longrightarrow> str_int i = str_int j \<Longrightarrow> i = j"
  by (metis int_nat_eq not_less str_int_def str_nat_inj)

text \<open>the ports of a node are as many different port numbers as asked for, all of them above the
  privileged range and valid, whatever base the random generator draws from its range.\<close>

theorem generated_ports_valid:
  assumes "1024 \<le> rnd" "rnd \<le> 65535 - int count"
  shows "distinct (generate_ports None rnd count) \<and> length (generate_ports None rnd count) = count \<and>
    (\<forall>p \<in> set (generate_ports None rnd count). \<exists>n. p = str_nat n \<and> 1024 \<le> n \<and> n < 65536)"
proof -
  have "distinct (map (\<lambda>i. str_int (rnd + int i)) [0..<count])"
    using assms(1) by (auto simp: distinct_map inj_on_def dest!: str_int_inj [rotated 2])
  moreover have "\<exists>n. str_int (rnd + int i) = str_nat n \<and> 1024 \<le> n \<and> n < 65536" if "i < count" for i
    using that assms by (intro exI [of _ "nat (rnd + int i)"]) (auto simp: str_int_def)
  ultimately show ?thesis by (auto simp: generate_ports_def)
qed

theorem generated_ports_valid_witness:
  "distinct (generate_ports None 65530 5) \<and> length (generate_ports None 65530 5) = 5"
  using generated_ports_valid [of 65530 5] by simp

lemma update_map:
  "k \<in> set ks \<Longrightarrow> distinct ks \<Longrightarrow>
   AList.update k v (map (\<lambda>k. (k, f k)) ks) = map (\<lambda>k'. (k', if k' = k then v else f k')) ks"
  by (induction ks) auto

lemma map_of_map_keys: "k \<in> set ks \<Longrightarrow> map_of (map (\<lambda>k. (k, f k)) ks) k = Some (f k)"
  by (induction ks) auto

text \<open>The lines a keyword is found in, when it is a pattern; and the first keyword that is none.\<close>

definition contains :: "search_fun \<Rightarrow> bool \<Rightarrow> string \<Rightarrow> string \<Rightarrow> bool" where
  "contains search use_regex keyword line =
     (if use_regex then (case search keyword of Inr matcher \<Rightarrow> matcher line | Inl _ \<Rightarrow> False)
      else str_in (lower keyword) (lower line))"

definition bad_pattern :: "search_fun \<Rightarrow> bool \<Rightarrow> string list \<Rightarrow> exn option" where
  "bad_pattern search use_regex keywords =
     (if use_regex then map_option projl (List.find isl (map search keywords)) else None)"

lemma bad_pattern_Cons:
  "bad_pattern search rx (k # ks) =
     (case line_matches search rx k l of Inl e \<Rightarrow> Some e | Inr _ \<Rightarrow> bad_pattern search rx ks)"
  by (cases "search k") (auto simp: bad_pattern_def line_matches_def)

lemma bad_pattern_Nil: "bad_pattern search rx [] = None"
  by (simp add: bad_pattern_def)

lemma line_matches_contains: "bad_pattern search rx ks = None \<Longrightarrow> k \<in> set ks \<Longrightarrow>
    line_matches search rx k line = Inr (contains search rx k line)"
  by (cases "search k") (auto simp: bad_pattern_def line_matches_def contains_def find_None_iff split: if_splits)

lemma search_line_bad: "bad_pattern search rx ks = Some e \<Longrightarrow> search_line search rx line ks ms = Inl e"
  by (induction ks arbitrary: ms)
    (auto simp: note_match_def bad_pattern_Cons [where l = line] bad_pattern_Nil split: sum.splits)

lemma note_match_map:
  assumes "k \<in> set ks" "distinct ks" "bad_pattern search rx ks = None"
  shows "note_match search rx line k (map (\<lambda>k. (k, f k)) ks) =
    Inr (map (\<lambda>k'. (k', f k' @ (if k' = k \<and> contains search rx k' line then [strip line] else []))) ks)"
  using assms by (auto simp: note_match_def line_matches_contains map_of_map_keys update_map)

lemma search_line_map:
  assumes "set xs \<subseteq> set ks" "distinct xs" "distinct ks" "bad_pattern search rx ks = None"
  shows "search_line search rx line xs (map (\<lambda>k. (k, f k)) ks) =
    Inr (map (\<lambda>k. (k, f k @ (if k \<in> set xs \<and> contains search rx k line then [strip line] else []))) ks)"
  using assms
proof (induction xs arbitrary: f)
  case (Cons x xs)
  then show ?case by (auto simp: note_match_map intro!: map_cong)
qed simp

lemma search_lines_map:
  assumes "distinct ks" "bad_pattern search rx ks = None"
  shows "search_lines search rx ks ls (map (\<lambda>k. (k, f k)) ks) =
    Inr (map (\<lambda>k. (k, f k @ map strip (filter (contains search rx k) ls))) ks)"
proof (induction ls arbitrary: f)
  case (Cons l ls)
  have "search_line search rx l ks (map (\<lambda>k. (k, f k)) ks) =
      Inr (map (\<lambda>k. (k, f k @ (if contains search rx k l then [strip l] else []))) ks)"
    using search_line_map [OF order_refl assms(1) assms, of l f] by (simp cong: map_cong)
  then show ?case using Cons [of "\<lambda>k. f k @ (if contains search rx k l then [strip l] else [])"]
    by (auto intro!: map_cong)
qed simp

lemma initial_matches: "distinct ks \<Longrightarrow> dict_update [] (map (\<lambda>k. (k, [])) ks) = map (\<lambda>k. (k, [])) ks"
  using dict_update_fresh [of "[]" "map (\<lambda>k. (k, [])) ks"] by (simp add: comp_def)

lemma any_found:
  "list_ex (\<lambda>k. case map_of (map (\<lambda>k. (k, f k)) keywords) k of Some (l # ls) \<Rightarrow> True | _ \<Rightarrow> False) keywords
    \<longleftrightarrow> (\<exists>k \<in> set keywords. f k \<noteq> [])"
  by (auto simp: list_ex_iff map_of_map_keys split: list.splits cong: bex_cong)

lemma search_log_some: "search_log_for_keywords search log_text keywords use_regex = Inr (Some ms) \<Longrightarrow> ms \<noteq> []"
  by (auto simp: search_log_for_keywords_def res_bind_Inr_iff list_ex_iff split: if_splits option.splits list.splits)

text \<open>What the search returns when the keywords are patterns, or are not used as such.\<close>

lemma search_log_found:
  assumes "distinct keywords" "bad_pattern search use_regex keywords = None"
  shows "search_log_for_keywords search log_text keywords use_regex = Inr
    (let found = (\<lambda>k. map strip (filter (contains search use_regex k) (file_lines log_text))) in
     if \<exists>k \<in> set keywords. found k \<noteq> [] then Some (map (\<lambda>k. (k, found k)) keywords) else None)"
  using search_lines_map [OF assms, of "file_lines log_text" "\<lambda>_. []"]
  by (simp add: search_log_for_keywords_def initial_matches [OF assms(1)] Let_def any_found)

text \<open>C20: searching a log returns, for each keyword, exactly the lines that contain it (ignoring case) or that it
  matches as a pattern, in order and stripped, and returns nothing when there is no such line for any of them; when a
  keyword is used as a pattern and is none, the search of a log that has a line raises the error of the first such keyword.\<close>

theorem search_log_correct:
  assumes "distinct keywords"
  shows "search_log_for_keywords search log_text keywords use_regex =
    (case bad_pattern search use_regex keywords of
       Some e \<Rightarrow> if file_lines log_text \<noteq> [] then Inl e else Inr None
     | None \<Rightarrow>
         let found = (\<lambda>k. map strip (filter (contains search use_regex k) (file_lines log_text))) in
         Inr (if \<exists>k \<in> set keywords. found k \<noteq> [] then Some (map (\<lambda>k. (k, found k)) keywords) else None))"
proof (cases "bad_pattern search use_regex keywords")
  case None
  then show ?thesis using search_log_found [OF assms None] by (simp add: Let_def)
next
  case (Some e)
  show ?thesis
  proof (cases "file_lines log_text")
    case Nil
    then show ?thesis using Some any_found [of "\<lambda>_. []" "keywords"]
      by (simp add: search_log_for_keywords_def initial_matches [OF assms])
  next
    case (Cons l ls)
    then show ?thesis using Some by (simp add: search_log_for_keywords_def search_line_bad)
  qed
qed

theorem search_log_correct_witness:
  "search_log_for_keywords (\<lambda>k. if k = ''('' then Inl (Exn PatternError ''unterminated subpattern'') else Inr (str_in k))
      (''ok'' @ [newline] @ '' PANIC now'' @ [newline]) [''crash'', ''panic''] False =
     Inr (Some [(''crash'', []), (''panic'', [''PANIC now''])]) \<and>
   search_log_for_keywords (\<lambda>k. if k = ''('' then Inl (Exn PatternError ''unterminated subpattern'') else Inr (str_in k))
      ''ok'' [''ok'', ''(''] True = Inl (Exn PatternError ''unterminated subpattern'')"
  by (simp add: search_log_correct) code_simp

text \<open>C21: the log thread does not notice that its container has exited: the status attribute keeps the
  value it was loaded with, so as long as the log stream ends without an error the thread reads it again,
  and the file holds the log once per reading.\<close>

theorem log_thread_rereads:
  assumes "status \<notin> {''exited'', ''dead''}" "chunk \<noteq> []"
  shows "log_container_output status st (replicate n \<lparr>chunks = [(chunk, t)], ending = Ended\<rparr>) =
    (False, if n = 0 then st else st\<lparr>written := written st @ concat (replicate n chunk), start_time_s := t, retry_count := 0\<rparr>)"
  using assms by (induction n arbitrary: st) (auto simp: Let_def)

theorem log_thread_rereads_witness:
  "log_container_output ''running'' \<lparr>retry_count = 0, start_time_s = 0, written = []\<rparr>
     (replicate 2 \<lparr>chunks = [(''x'', 1)], ending = Ended\<rparr>) =
   (False, \<lparr>retry_count = 0, start_time_s = 1, written = ''xx''\<rparr>)"
  using log_thread_rereads [of "''running''" "''x''" "\<lparr>retry_count = 0, start_time_s = 0, written = []\<rparr>" 2 1]
  by (simp add: eval_nat_numeral)

end
