(* ===== verification/Waku_Node.thy ===== *)
theory Waku_Node
  imports Docker_Manager
begin

text \<open>
  \<open>tests-e2e/src/node/waku_node.py\<close>: the node object of the end-to-end tests. Its attributes are a
  record, the global list \<open>DS.waku_nodes\<close> (\<open>data_storage.py\<close>) holds the identities of started nodes,
  and both live in a state \<open>sys\<close> beside the outer world on which the Docker and HTTP clients act. The
  decorators of \<open>tenacity\<close> are retriers of the configuration; random draws come from the outer world. Log lines are
  left out; texts of exceptions keep their fixed part.
\<close>

section \<open>State\<close>

record waku_node =
  node_id :: nat
  image_name :: string
  log_path :: string
  container :: "string option"
  start_args :: "(string, pyval) dict"
  ext_ip :: string
  ports :: "string list"
  node_rest_port :: string
  tcp_port :: string
  websocket_port :: string
  discv5_port :: string
  metrics_port :: string
  volumes :: "string list"
  info_response :: "pyval option"
  health_response :: "pyval option"

record 'w sys =
  self :: waku_node
  ds_nodes :: "nat list"
  outer :: 'w

record random_draw =
  ip_third :: nat
  ip_fourth :: nat
  base_port :: int
  key_picks :: "nat \<Rightarrow> nat"

record 'w config =
  docker_client :: "'w docker"
  environment :: environ
  requests :: "'w http_fun"
  request_timeout :: pyval
  number_text :: "rat \<Rightarrow> string"
  value_text :: "pyval \<Rightarrow> string"
  pass_time :: "rat \<Rightarrow> 'w \<Rightarrow> 'w"
  draw :: "'w \<Rightarrow> random_draw \<times> 'w"
  start_retry :: "('w sys, unit) retrier"
  stop_retry :: "('w sys, unit) retrier"
  ready_retry :: "int \<Rightarrow> ('w sys, unit) retrier"

text \<open>An action of the outer world, and reading and writing the node's attributes.\<close>

definition on_outer :: "('w, 'a) io \<Rightarrow> ('w sys, 'a) io" where
  "on_outer m s = (case m (outer s) of (r, w) \<Rightarrow> (r, s\<lparr>outer := w\<rparr>))"

definition set_self :: "(waku_node \<Rightarrow> waku_node) \<Rightarrow> ('w sys, unit) io" where
  "set_self f s = (Inr (), s\<lparr>self := f (self s)\<rparr>)"

definition get_self :: "('w sys, waku_node) io" where
  "get_self s = (Inr (self s), s)"

section \<open>Flags\<close>

text \<open>\<open>generate_random_nodekey\<close>: 64 draws from the lower case hexadecimal digits, in which the letters occur twice.\<close>

definition hex_chars :: string where
  "hex_chars = lower ''0123456789abcdefABCDEF''"

definition generate_random_nodekey :: "(nat \<Rightarrow> nat) \<Rightarrow> string" where
  "generate_random_nodekey picks = map (\<lambda>k. hex_chars ! (picks k mod length hex_chars)) [0..<64]"

definition sanitize_docker_flags :: "(string, pyval) dict \<Rightarrow> (string, pyval) dict" where
  "sanitize_docker_flags input_flags =
     dict_update [] (map (\<lambda>(k, v). (replace_char (CHR ''_'') (CHR ''-'') k, v)) input_flags)"

definition peer_info2multiaddr :: "pyval \<Rightarrow> bool \<Rightarrow> pyval res" where
  "peer_info2multiaddr peer is_nwaku =
     (if is_nwaku then py_key ''multiaddr'' peer
      else res_bind (py_key ''multiaddrs'' peer) (\<lambda>v.
        case v of
          PList xs \<Rightarrow> py_nth xs 0
        | PStr s \<Rightarrow> py_char s 0
        | PDict _ \<Rightarrow> Inl (Exn KeyError ''0'')
        | _ \<Rightarrow> Inl (Exn TypeError ''object is not subscriptable'')))"

text \<open>\<open>v.split("/")[-1]\<close>\<close>

fun last_part :: "pyval \<Rightarrow> string res" where
  "last_part (PStr s) = Inr (last (split_char (CHR ''/'') s))"
| "last_part _ = Inl (Exn AttributeError ''object has no attribute split'')"

definition peer_info2id :: "pyval \<Rightarrow> bool \<Rightarrow> string res" where
  "peer_info2id peer is_nwaku = res_bind (peer_info2multiaddr peer is_nwaku) last_part"

definition resolve_sharding_flags :: "(string, pyval) dict \<Rightarrow> (string, pyval) dict res" where
  "resolve_sharding_flags kwargs =
     (if has_key kwargs ''pubsub_topic''
      then Inl (Exn ValueError ''pubsub_topic is not a node flag, pass cluster_id and shard'')
      else if \<not> has_key kwargs ''shard'' \<and> \<not> has_key kwargs ''cluster_id''
      then Inr (AList.update ''shard'' (PStr DEFAULT_SHARD) kwargs)
      else Inr kwargs)"

definition is_nwaku :: "waku_node \<Rightarrow> bool" where
  "is_nwaku n = str_in ''nwaku'' (image_name n)"

definition default_args :: "waku_node \<Rightarrow> string \<Rightarrow> (string, pyval) dict" where
  "default_args n key =
     [(''listen-address'', PStr ''0.0.0.0''), (''rest'', PStr ''true''), (''rest-admin'', PStr ''true''),
      (''websocket-support'', PStr ''true''), (''log-level'', PStr ''TRACE''),
      (''rest-relay-cache-capacity'', PStr ''100''), (''websocket-port'', PStr (websocket_port n)),
      (''rest-port'', PStr (node_rest_port n)), (''tcp-port'', PStr (tcp_port n)),
      (''discv5-udp-port'', PStr (discv5_port n)), (''rest-address'', PStr ''0.0.0.0''),
      (''nat'', PStr (''extip:'' @ ext_ip n)), (''peer-exchange'', PStr ''true''),
      (''discv5-discovery'', PStr ''true''), (''cluster-id'', PStr DEFAULT_CLUSTER_ID), (''nodekey'', PStr key)]"

definition nwaku_args :: "waku_node \<Rightarrow> (string, pyval) dict" where
  "nwaku_args n =
     [(''metrics-server'', PStr ''true''), (''metrics-server-address'', PStr ''0.0.0.0''),
      (''metrics-server-port'', PStr (metrics_port n)), (''metrics-logging'', PStr ''true'')]"

text \<open>\<open>kwargs.pop("store_sync", "false").lower() == "true"\<close>\<close>

definition wants_store_sync :: "pyval \<Rightarrow> bool res" where
  "wants_store_sync v =
     (case v of PStr s \<Rightarrow> Inr (lower s = ''true'') | _ \<Rightarrow> Inl (Exn AttributeError ''object has no attribute lower''))"

text \<open>The store-sync part: the defaults with its flags, and the remaining keyword arguments.\<close>

definition store_sync_args ::
    "(string, pyval) dict \<Rightarrow> (string, pyval) dict \<Rightarrow> ((string, pyval) dict \<times> (string, pyval) dict) res" where
  "store_sync_args args kwargs =
     (let (sync, kw1) = dict_pop ''store_sync'' (PStr ''false'') kwargs in
      res_bind (wants_store_sync sync) (\<lambda>store_sync.
        let (range, kw2) = dict_pop ''store_sync_range'' PNone kw1;
            (interval, kw3) = dict_pop ''store_sync_interval'' PNone kw2;
            a1 = (if store_sync then dict_setdefault ''store'' (PStr ''true'') (AList.update ''store-sync'' (PStr ''true'') args) else args);
            a2 = (if truthy range then AList.update ''store-sync-range'' range a1 else a1);
            a3 = (if truthy interval then AList.update ''store-sync-interval'' interval a2 else a2)
        in Inr (a3, kw3)))"

text \<open>The arguments a node is started with, and whether its container removes itself.\<close>

definition start_context ::
    "waku_node \<Rightarrow> string \<Rightarrow> (string, pyval) dict \<Rightarrow> ((string, pyval) dict \<times> bool) res" where
  "start_context n key kwargs =
     (let args = (if has_key kwargs ''preset'' then AList.delete ''cluster-id'' (default_args n key) else default_args n key) in
      res_bind (store_sync_args args kwargs) (\<lambda>(args1, kw1).
        if \<not> is_nwaku n then Inl (Exn NotImplementedError ''Not implemented for this node type'')
        else
          (let args2 = dict_update args1 (nwaku_args n);
               (remove, kw2) = dict_pop ''remove_container'' (PBool True) kw1
           in res_bind (resolve_sharding_flags kw2) (\<lambda>kw3.
                Inr (dict_update args2 (sanitize_docker_flags kw3), truthy remove)))))"

section \<open>Life cycle\<close>

text \<open>\<open>os.path.join(a, b)\<close>\<close>

definition path_join :: "string \<Rightarrow> string \<Rightarrow> string" where
  "path_join a b =
     (if startswith b ''/'' then b else if a = [] \<or> endswith a ''/'' then a @ b else a @ ''/'' @ b)"

definition new_node :: "environ \<Rightarrow> nat \<Rightarrow> string \<Rightarrow> string \<Rightarrow> waku_node" where
  "new_node env i docker_image docker_log_prefix =
     \<lparr>node_id = i, image_name = docker_image,
      log_path = path_join (DOCKER_LOG_DIR env) (docker_log_prefix @ ''__'' @
        replace_char (CHR '':'') (CHR ''_'') (replace_char (CHR ''/'') (CHR ''_'') docker_image) @ ''.log''),
      container = None, start_args = [], ext_ip = [], ports = [], node_rest_port = [], tcp_port = [],
      websocket_port = [], discv5_port = [], metrics_port = [], volumes = [], info_response = None, health_response = None\<rparr>"

definition assign_network :: "environ \<Rightarrow> random_draw \<Rightarrow> waku_node \<Rightarrow> waku_node" where
  "assign_network env rnd n =
     (let ps = generate_ports None (base_port rnd) 5 in
      n\<lparr>ext_ip := generate_random_ext_ip env (ip_third rnd) (ip_fourth rnd), ports := ps,
        node_rest_port := ps ! 0, tcp_port := ps ! 1, websocket_port := ps ! 2, discv5_port := ps ! 3,
        metrics_port := ps ! 4, volumes := []\<rparr>)"

definition draw_random :: "'w config \<Rightarrow> ('w, random_draw) io" where
  "draw_random c w = (case draw c w of (rnd, w') \<Rightarrow> (Inr rnd, w'))"

definition prepare_start_context ::
    "'w config \<Rightarrow> (string, pyval) dict \<Rightarrow> ('w sys, (string, pyval) dict \<times> bool) io" where
  "prepare_start_context c kwargs =
     io_bind (on_outer (create_network (docker_client c) (environment c) (NETWORK_NAME (environment c)))) (\<lambda>_.
     io_bind (on_outer (draw_random c)) (\<lambda>rnd.
     io_bind (set_self (assign_network (environment c) rnd)) (\<lambda>_.
     io_bind get_self (\<lambda>n.
     io_bind (io_lift (start_context n (generate_random_nodekey (key_picks rnd)) kwargs)) (\<lambda>(args, remove).
     io_bind (set_self (\<lambda>n. n\<lparr>start_args := args\<rparr>)) (\<lambda>_.
       io_return (args, remove)))))))"

text \<open>The REST client of a node. It and the addresses are attributes that the first start sets; reading one of them
  before raises.\<close>

definition started :: "waku_node \<Rightarrow> bool" where
  "started n \<longleftrightarrow> ports n \<noteq> []"

definition not_started :: "string \<Rightarrow> exn" where
  "not_started a = Exn AttributeError (repr_str ''WakuNode'' @ '' object has no attribute '' @ repr_str a)"

definition api :: "'w config \<Rightarrow> waku_node \<Rightarrow> 'w rest" where
  "api c n = \<lparr>rest_port = node_rest_port n, http = requests c, api_timeout = request_timeout c,
     float_text = number_text c, shown = value_text c\<rparr>"

definition node_call :: "'w config \<Rightarrow> ('w rest \<Rightarrow> ('w, 'a) io) \<Rightarrow> ('w sys, 'a) io" where
  "node_call c f =
     io_bind get_self (\<lambda>n. if started n then on_outer (f (api c n)) else io_raise (not_started ''_api''))"

text \<open>\<open>json.loads\<close> of the bytes of an answer, which are decoded as UTF-8 after a byte order mark; texts in UTF-16 and
  UTF-32, which Python would detect by their zero bytes, are not modelled.\<close>

definition utf8_bom :: string where
  "utf8_bom = map char_of [239, 187, 191 :: nat]"

definition json_loads_bytes :: "string \<Rightarrow> pyval res" where
  "json_loads_bytes b = res_bind (utf8_decode (if startswith b utf8_bom then drop 3 b else b)) json_loads"

definition check_healthy :: "'w config \<Rightarrow> ('w sys, unit) io" where
  "check_healthy c =
     io_bind (node_call c rest_health) (\<lambda>t.
     io_bind (set_self (\<lambda>n. n\<lparr>health_response := Some (PStr t)\<rparr>)) (\<lambda>_.
     io_bind (io_lift (case json_loads_bytes t of Inr v \<Rightarrow> Inr v
         | Inl ex \<Rightarrow> Inl (Exn AttributeError (''Unknown health response format '' @ text_of ex)))) (\<lambda>v.
     io_bind (set_self (\<lambda>n. n\<lparr>health_response := Some v\<rparr>)) (\<lambda>_.
     io_lift (res_bind (py_get ''nodeHealth'' v) (\<lambda>h.
       py_assert (h = PStr ''READY'') ''Waiting for the node health status: READY''))))))"

definition check_ready :: "'w config \<Rightarrow> ('w sys, unit) io" where
  "check_ready c =
     io_bind (node_call c rest_info) (\<lambda>v. set_self (\<lambda>n. n\<lparr>info_response := Some v\<rparr>))"

definition ensure_ready :: "'w config \<Rightarrow> int \<Rightarrow> ('w sys, unit) io" where
  "ensure_ready c timeout_duration =
     io_bind get_self (\<lambda>n.
     io_bind (if is_nwaku n then ready_retry c timeout_duration (check_healthy c) else io_return ()) (\<lambda>_.
       ready_retry c timeout_duration (check_ready c)))"

text \<open>One attempt of \<open>stop\<close>; the result says whether the container was already gone.\<close>

definition stop_once :: "'w config \<Rightarrow> ('w sys, unit) io" where
  "stop_once c =
     io_bind get_self (\<lambda>n.
       case container n of
         None \<Rightarrow> io_return ()
       | Some ct \<Rightarrow>
           io_bind (io_try (io_bind (on_outer (container_stop (docker_client c) ct)) (\<lambda>_. io_return False))
                      (\<lambda>e. if isa e DockerNotFound
                           then io_bind (set_self (\<lambda>n. n\<lparr>container := None\<rparr>)) (\<lambda>_. io_return True)
                           else io_raise e)) (\<lambda>gone.
           if gone then io_return ()
           else io_bind (io_try (on_outer (container_remove (docker_client c) ct)) (\<lambda>_. io_return ())) (\<lambda>_.
                  set_self (\<lambda>n. n\<lparr>container := None\<rparr>))))"

definition stop :: "'w config \<Rightarrow> ('w sys, unit) io" where
  "stop c = stop_retry c (stop_once c)"

definition register_node :: "('w sys, unit) io" where
  "register_node s = (Inr (), s\<lparr>ds_nodes := ds_nodes s @ [node_id (self s)]\<rparr>)"

definition delay :: "'w config \<Rightarrow> rat \<Rightarrow> ('w sys, unit) io" where
  "delay c num_seconds s = (Inr (), s\<lparr>outer := pass_time c num_seconds (outer s)\<rparr>)"

definition start_docker :: "'w config \<Rightarrow> (string, pyval) dict \<Rightarrow> bool \<Rightarrow> int \<Rightarrow> ('w sys, unit) io" where
  "start_docker c args remove wait_for_node_sec =
     io_bind get_self (\<lambda>n.
     io_bind (on_outer (start_container (docker_client c) (environment c) (value_text c) (image_name n) (ports n) args
                (ext_ip n) (volumes n) remove)) (\<lambda>ct.
     io_bind (set_self (\<lambda>n. n\<lparr>container := Some ct\<rparr>)) (\<lambda>_.
     io_bind register_node (\<lambda>_.
     io_bind (delay c 1) (\<lambda>_.
     io_bind (io_try (ensure_ready c wait_for_node_sec)
                (\<lambda>ex. if isa ex Exception then
                    io_bind (io_try (stop c) (\<lambda>e. if isa e Exception then io_return () else io_raise e)) (\<lambda>_. io_raise ex)
                  else io_raise ex)) (\<lambda>_.
     io_try (io_bind (node_call c get_debug_version) (\<lambda>_. io_return ()))
       (\<lambda>e. if isa e Exception then io_return () else io_raise e)))))))"

definition start_once ::
    "'w config \<Rightarrow> int \<Rightarrow> (string, pyval) dict \<Rightarrow> ('w sys, unit) io" where
  "start_once c wait_for_node_sec kwargs =
     io_bind (prepare_start_context c kwargs) (\<lambda>(args, remove). start_docker c args remove wait_for_node_sec)"

definition start :: "'w config \<Rightarrow> int \<Rightarrow> (string, pyval) dict \<Rightarrow> ('w sys, unit) io" where
  "start c wait_for_node_sec kwargs = start_retry c (start_once c wait_for_node_sec kwargs)"

definition on_container :: "(string \<Rightarrow> ('w, unit) io) \<Rightarrow> ('w sys, bool) io" where
  "on_container f =
     io_bind get_self (\<lambda>n.
       case container n of None \<Rightarrow> io_return False | Some ct \<Rightarrow> io_bind (on_outer (f ct)) (\<lambda>_. io_return True))"

definition restart :: "'w config \<Rightarrow> int \<Rightarrow> ('w sys, unit) io" where
  "restart c wait_for_node_sec =
     io_bind (on_container (container_restart (docker_client c))) (\<lambda>there.
       if there \<and> wait_for_node_sec \<noteq> 0 then ensure_ready c wait_for_node_sec else io_return ())"

definition pause :: "'w config \<Rightarrow> ('w sys, unit) io" where
  "pause c = io_bind (on_container (container_pause (docker_client c))) (\<lambda>_. io_return ())"

definition unpause :: "'w config \<Rightarrow> ('w sys, unit) io" where
  "unpause c = io_bind (on_container (container_unpause (docker_client c))) (\<lambda>_. io_return ())"


section \<open>Reading the node\<close>

text \<open>\<open>self.info_response\<close>, an attribute that exists once the node has been ready.\<close>

definition info_of :: "waku_node \<Rightarrow> pyval res" where
  "info_of n = (case info_response n of Some v \<Rightarrow> Inr v | None \<Rightarrow> Inl (Exn AttributeError ''info_response''))"

text \<open>\<open>v[0]\<close>\<close>

fun py_first :: "pyval \<Rightarrow> pyval res" where
  "py_first (PList xs) = py_nth xs 0"
| "py_first (PStr s) = py_char s 0"
| "py_first (PDict _) = Inl (Exn KeyError ''0'')"
| "py_first _ = Inl (Exn TypeError ''object is not subscriptable'')"

definition as_attribute_error :: "string \<Rightarrow> 'a res \<Rightarrow> 'a res" where
  "as_attribute_error msg r =
     (case r of Inr a \<Rightarrow> Inr a
      | Inl ex \<Rightarrow> if isa ex Exception then Inl (Exn AttributeError (msg @ text_of ex)) else Inl ex)"

definition get_id :: "waku_node \<Rightarrow> string res" where
  "get_id n = as_attribute_error ''Could not find ID in the info call because of error: ''
     (res_bind (info_of n) (\<lambda>v. res_bind (py_key ''listenAddresses'' v) (\<lambda>a. res_bind (py_first a) last_part)))"

definition get_enr_uri :: "waku_node \<Rightarrow> pyval res" where
  "get_enr_uri n = as_attribute_error ''Could not find enrUri in the info call because of error: ''
     (res_bind (info_of n) (py_key ''enrUri''))"

definition get_tcp_address :: "waku_node \<Rightarrow> string res" where
  "get_tcp_address n =
     (if started n then Inr (''/ip4/'' @ ext_ip n @ ''/tcp/'' @ tcp_port n) else Inl (not_started ''_ext_ip''))"

text \<open>The first address without \<open>/ws\<close>; \<open>"/ws" not in addr\<close> needs a container or a text.\<close>

fun first_plain :: "pyval list \<Rightarrow> pyval option res" where
  "first_plain [] = Inr None"
| "first_plain (a # as) =
     res_bind (py_contains ''/ws'' a) (\<lambda>b. if b then first_plain as else Inr (Some a))"

definition get_multiaddr_with_id :: "waku_node \<Rightarrow> string res" where
  "get_multiaddr_with_id n =
     res_bind (info_of n) (\<lambda>v.
     res_bind (case v of PDict d \<Rightarrow> Inr (case map_of d ''listenAddresses'' of None \<Rightarrow> PList [] | Some a \<Rightarrow> a)
               | _ \<Rightarrow> Inl (Exn AttributeError ''object has no attribute get'')) (\<lambda>addresses.
     res_bind (py_iter addresses) (\<lambda>as.
     res_bind (first_plain as) (\<lambda>ws_address.
       case ws_address of
         Some (PStr (ch # t)) \<Rightarrow>
           res_bind (get_tcp_address n) (\<lambda>addr. Inr (addr @ ''/p2p/'' @ last (split_str ''/p2p/'' (ch # t))))
       | Some a \<Rightarrow> if truthy a then Inl (Exn AttributeError ''object has no attribute split'')
                   else Inl (Exn AttributeError (''No '' @ apostrophe # ''/ws'' @ apostrophe # '' address found''))
       | None \<Rightarrow> Inl (Exn AttributeError (''No '' @ apostrophe # ''/ws'' @ apostrophe # '' address found''))))))"

definition type_of :: "waku_node \<Rightarrow> string res" where
  "type_of n = (if is_nwaku n then Inr ''nwaku'' else Inl (Exn ValueError ''Unknown node type!!!''))"

text \<open>\<open>skipped\<close> is what \<open>pytest.skip\<close> raises; its text asks for the type, which raises for these nodes.\<close>

definition get_metrics :: "'w config \<Rightarrow> ('w sys, string) io" where
  "get_metrics c =
     io_bind get_self (\<lambda>n.
       if is_nwaku n \<and> \<not> started n then io_raise (not_started ''_metrics_port'')
       else if is_nwaku n then
         io_bind (on_outer (requests c \<lparr>req_method = ''GET'', req_url = ''http://localhost:'' @ metrics_port n @ ''/metrics'',
            req_params = [], req_headers = [], req_json = None, req_data = None, req_timeout = None\<rparr>)) (\<lambda>r.
         io_lift (case raise_for_status r of Some e \<Rightarrow> Inl e | None \<Rightarrow> utf8_decode (resp_text r)))
       else io_lift (res_bind (type_of n) (\<lambda>t. Inl (Exn Skipped (''This method doesn't exist for node '' @ t)))))"

definition LOG_ERROR_KEYWORDS :: "string list" where
  "LOG_ERROR_KEYWORDS =
     [''crash'', ''fatal'', ''panic'', ''abort'', ''segfault'', ''corrupt'', ''terminated'', ''unhandled'', ''stacktrace'',
      ''deadlock'', ''SIGSEGV'', ''SIGABRT'', ''stack overflow'', ''index out of bounds'', ''nil pointer dereference'',
      ''goroutine exit'', ''nil pointer'', ''runtime error'', ''goexit'', ''race condition'', ''double free'']"

definition error_keywords :: "string list \<Rightarrow> string list" where
  "error_keywords whitelist = filter (\<lambda>k. k \<notin> set whitelist) LOG_ERROR_KEYWORDS"

definition check_waku_log_errors :: "string \<Rightarrow> string list \<Rightarrow> unit res" where
  "check_waku_log_errors log_text whitelist =
     res_bind (search_log_for_keywords (\<lambda>_. Inr (\<lambda>_. False)) log_text (error_keywords whitelist) False) (\<lambda>matches.
       case matches of
         None \<Rightarrow> Inr ()
       | Some ms \<Rightarrow> py_assert (ms = []) ''Found errors'')"

section \<open>Calls of the REST interface\<close>

definition node_info where "node_info c = node_call c rest_info"
definition node_health where "node_health c = node_call c rest_health"
definition node_get_peers where "node_get_peers c = node_call c get_peers"
definition node_add_peers where "node_add_peers c ps = node_call c (\<lambda>a. add_peers a ps)"
definition node_set_relay_subscriptions where
  "node_set_relay_subscriptions c ts = node_call c (\<lambda>a. set_relay_subscriptions a ts)"
definition node_set_relay_auto_subscriptions where
  "node_set_relay_auto_subscriptions c ts = node_call c (\<lambda>a. set_relay_auto_subscriptions a ts)"
definition node_delete_relay_auto_subscriptions where
  "node_delete_relay_auto_subscriptions c ts = node_call c (\<lambda>a. delete_relay_auto_subscriptions a ts)"
definition node_send_relay_message where
  "node_send_relay_message c m t = node_call c (\<lambda>a. send_relay_message a m t)"
definition node_send_relay_auto_message where
  "node_send_relay_auto_message c m = node_call c (\<lambda>a. send_relay_auto_message a m)"
definition node_send_light_push_message where
  "node_send_light_push_message c m = node_call c (\<lambda>a. send_light_push_message a m)"
definition node_get_relay_messages where
  "node_get_relay_messages c t = node_call c (\<lambda>a. get_relay_messages a t)"
definition node_get_relay_auto_messages where
  "node_get_relay_auto_messages c t = node_call c (\<lambda>a. get_relay_auto_messages a t)"
definition node_set_filter_subscriptions where
  "node_set_filter_subscriptions c sub = node_call c (\<lambda>a. set_filter_subscriptions a sub)"
definition node_get_filter_messages where
  "node_get_filter_messages c ct pt = node_call c (\<lambda>a. get_filter_messages a ct pt)"
definition node_get_store_messages where
  "node_get_store_messages c q = node_call c (\<lambda>a. get_store_messages a q)"
definition node_messaging_subscribe where
  "node_messaging_subscribe c ts = node_call c (\<lambda>a. messaging_subscribe a ts)"
definition node_messaging_unsubscribe where
  "node_messaging_unsubscribe c ts = node_call c (\<lambda>a. messaging_unsubscribe a ts)"
definition node_messaging_send where
  "node_messaging_send c m = node_call c (\<lambda>a. messaging_send a m)"
definition node_messaging_send_events where
  "node_messaging_send_events c = node_call c messaging_send_events"
definition node_messaging_send_events_by_id where
  "node_messaging_send_events_by_id c i = node_call c (\<lambda>a. messaging_send_events_by_id a i)"
definition node_messaging_received where
  "node_messaging_received c = node_call c messaging_received"
definition node_set_log_level where
  "node_set_log_level c l = node_call c (\<lambda>a. set_log_level a l)"
definition node_get_relay_peers_on_shard where
  "node_get_relay_peers_on_shard c i = node_call c (\<lambda>a. get_relay_peers_on_shard a i)"
definition node_get_mesh_peers_on_shard where
  "node_get_mesh_peers_on_shard c i = node_call c (\<lambda>a. get_mesh_peers_on_shard a i)"
definition node_get_debug_version where
  "node_get_debug_version c = node_call c get_debug_version"


section \<open>The retriers\<close>

text \<open>What the decorators promise: \<open>start\<close> is not retried on \<open>ValueError\<close>, the others are retried on every
  \<open>Exception\<close>; waiting between attempts changes the outer world only.\<close>

definition sleeping :: "('w \<Rightarrow> 'w) \<Rightarrow> 'w sys \<Rightarrow> 'w sys" where
  "sleeping f s = s\<lparr>outer := f (outer s)\<rparr>"

definition config_ok :: "'w config \<Rightarrow> bool" where
  "config_ok c \<longleftrightarrow>
     (\<exists>f. retries (\<lambda>e. \<not> isa e ValueError) (sleeping f) (start_retry c)) \<and>
     (\<exists>f. retries (\<lambda>e. isa e Exception) (sleeping f) (stop_retry c)) \<and>
     (\<forall>t. \<exists>f. retries (\<lambda>e. isa e Exception) (sleeping f) (ready_retry c t))"

text \<open>A property of the node and the registry alone.\<close>

definition node_only :: "('w sys \<Rightarrow> bool) \<Rightarrow> bool" where
  "node_only I \<longleftrightarrow> (\<forall>s w. I (s\<lparr>outer := w\<rparr>) = I s)"

lemma keeps_on_outer [keeps_rules]: "node_only I \<Longrightarrow> keeps I (on_outer m)"
  by (auto simp: keeps_def on_outer_def node_only_def split: prod.splits)

lemma keeps_get_self [keeps_rules]: "keeps I get_self"
  by (simp add: keeps_def get_self_def)

lemma keeps_delay [keeps_rules]: "node_only I \<Longrightarrow> keeps I (delay c t)"
  by (simp add: keeps_def delay_def node_only_def)

lemma keeps_set_self:
  "(\<And>s. I s \<Longrightarrow> I (s\<lparr>self := f (self s)\<rparr>)) \<Longrightarrow> keeps I (set_self f)"
  by (simp add: keeps_def set_self_def)

lemma keeps_node_call [keeps_rules]: "node_only I \<Longrightarrow> keeps I (node_call c f)"
  unfolding node_call_def by (intro keeps_rules)

lemma node_only_sleeping: "node_only I \<Longrightarrow> I s \<Longrightarrow> I (sleeping f s)"
  by (simp add: node_only_def sleeping_def)

section \<open>Invariants of a node\<close>

text \<open>The operations of a node, as a test may call them in any order; an exception leaves the state as it is
  at that point.\<close>

datatype node_op = Start int "(string, pyval) dict" | Stop | Restart int | Pause | Unpause | Ready int

fun run_op :: "'w config \<Rightarrow> node_op \<Rightarrow> ('w sys, unit) io" where
  "run_op c (Start t kw) = start c t kw"
| "run_op c Stop = stop c"
| "run_op c (Restart t) = restart c t"
| "run_op c Pause = pause c"
| "run_op c Unpause = unpause c"
| "run_op c (Ready t) = ensure_ready c t"

definition run_ops :: "'w config \<Rightarrow> node_op list \<Rightarrow> 'w sys \<Rightarrow> 'w sys" where
  "run_ops c ops s = foldl (\<lambda>s op. snd (run_op c op s)) s ops"

text \<open>What the clients of the node object may rely on: a property that survives changes of the node which give it
  no container, and a new container together with the entry in the registry, survives every operation.\<close>

locale node_invariant =
  fixes I :: "'w sys \<Rightarrow> bool"
  assumes outer_free: "node_only I"
    and same_or_dropped: "I s \<Longrightarrow> node_id n = node_id (self s) \<Longrightarrow> log_path n = log_path (self s) \<Longrightarrow>
      container n = container (self s) \<or> container n = None \<Longrightarrow> I (s\<lparr>self := n\<rparr>)"
    and new_and_registered: "I s \<Longrightarrow>
      I (s\<lparr>self := (self s)\<lparr>container := Some ct\<rparr>, ds_nodes := ds_nodes s @ [node_id (self s)]\<rparr>)"
begin

lemma inv_set_self:
  assumes "\<And>n. node_id (f n) = node_id n" "\<And>n. log_path (f n) = log_path n" "\<And>n. container (f n) = container n \<or> container (f n) = None"
  shows "keeps I (set_self f)"
  by (rule keeps_set_self, rule same_or_dropped) (use assms in auto)

lemma inv_new_container:
  assumes "keeps I k"
  shows "keeps I (io_bind (set_self (\<lambda>n. n\<lparr>container := Some ct\<rparr>)) (\<lambda>_. io_bind register_node (\<lambda>_. k)))"
proof -
  have "I (snd (io_bind (set_self (\<lambda>n. n\<lparr>container := Some ct\<rparr>)) (\<lambda>_. io_bind register_node (\<lambda>_. k)) s))" if "I s" for s
    using new_and_registered [OF that, of ct] assms by (simp add: keeps_def io_defs set_self_def register_node_def)
  then show ?thesis by (simp add: keeps_def)
qed

lemma inv_sleeping: "I s \<Longrightarrow> I (sleeping f s)"
  by (rule node_only_sleeping [OF outer_free])

lemma inv_parts:
  "keeps I (check_healthy c)" "keeps I (check_ready c)" "keeps I (stop_once c)"
  "keeps I (prepare_start_context c kw)" "keeps I (on_container f)"
  unfolding check_healthy_def check_ready_def stop_once_def prepare_start_context_def on_container_def
  by (auto intro!: keeps_rules inv_set_self outer_free split: option.splits simp: assign_network_def Let_def)

lemma inv_ready:
  assumes "config_ok c"
  shows "keeps I (ensure_ready c t)"
proof -
  obtain f where "retries (\<lambda>e. isa e Exception) (sleeping f) (ready_retry c t)"
    using assms by (auto simp: config_ok_def)
  then have "keeps I (ready_retry c t m)" if "keeps I m" for m
    using that inv_sleeping by (rule keeps_retry)
  then show ?thesis unfolding ensure_ready_def using inv_parts by (intro keeps_rules) auto
qed

lemma inv_stop:
  assumes "config_ok c"
  shows "keeps I (stop c)"
proof -
  obtain f where "retries (\<lambda>e. isa e Exception) (sleeping f) (stop_retry c)"
    using assms by (auto simp: config_ok_def)
  then show ?thesis unfolding stop_def using inv_parts(3) inv_sleeping by (rule keeps_retry)
qed

lemma inv_start_once:
  assumes "config_ok c"
  shows "keeps I (start_once c t kw)"
proof -
  have "keeps I (start_docker c args rm t)" for args rm
    unfolding start_docker_def
    by (auto intro!: keeps_rules inv_new_container inv_ready [OF assms] inv_stop [OF assms] outer_free)
  then show ?thesis unfolding start_once_def by (auto intro!: keeps_bind inv_parts split: prod.splits)
qed

lemma inv_start:
  assumes "config_ok c"
  shows "keeps I (start c t kw)"
proof -
  obtain f where "retries (\<lambda>e. \<not> isa e ValueError) (sleeping f) (start_retry c)"
    using assms by (auto simp: config_ok_def)
  then show ?thesis unfolding start_def using inv_start_once [OF assms] inv_sleeping by (rule keeps_retry)
qed

lemma inv_op: "config_ok c \<Longrightarrow> keeps I (run_op c op)"
  by (cases op) (auto simp: restart_def pause_def unpause_def intro!: keeps_rules inv_start inv_stop inv_ready inv_parts)

lemma inv_run_ops:
  assumes "config_ok c"
  shows "I s \<Longrightarrow> I (run_ops c ops s)"
  unfolding run_ops_def using inv_op [OF assms] by (induction ops arbitrary: s) (auto simp: keeps_def)

end

section \<open>Every container is registered\<close>

definition registered :: "'w sys \<Rightarrow> bool" where
  "registered s \<longleftrightarrow> (container (self s) \<noteq> None \<longrightarrow> node_id (self s) \<in> set (ds_nodes s))"

interpretation reg: node_invariant registered
  by unfold_locales (auto simp: node_only_def registered_def)

text \<open>A node keeps the file of its log.\<close>

interpretation logp: node_invariant "\<lambda>s. log_path (self s) = p" for p
  by unfold_locales (auto simp: node_only_def)

text \<open>whatever operations a test runs on a node, and whichever of them raise, a node that holds a container
  is in the list that the teardown of the tests stops.\<close>

theorem node_with_container_registered:
  assumes "config_ok c" "container (self s) = None"
  shows "registered (run_ops c ops s)"
  by (rule reg.inv_run_ops [OF assms(1)]) (simp add: registered_def assms(2))

section \<open>A simulated system\<close>

text \<open>An outer world for concrete runs: the containers created and removed. The network either accepts or
  refuses a container; every HTTP request is answered with the given text.\<close>

record sim =
  created :: "string list"
  purged :: "string list"

definition sim_docker :: "bool \<Rightarrow> sim docker" where
  "sim_docker connects =
     \<lparr>networks_list = (\<lambda>n w. (Inr [n], w)), networks_create = (\<lambda>n _ _ _ w. (Inr n, w)),
      networks_get = (\<lambda>n w. (Inr n, w)),
      network_connect = (\<lambda>_ _ _ w. (if connects then Inr () else Inl (Exn APIError ''Address already in use''), w)),
      images_get = (\<lambda>_ w. (Inr (), w)), images_pull = (\<lambda>_ w. (Inr (), w)),
      containers_create = (\<lambda>_ w. let i = CHR ''c'' # concat (created w @ purged w) in (Inr i, w\<lparr>created := created w @ [i]\<rparr>)),
      containers_create_kw = (\<lambda>_ _ w. (Inr ''pg'', w)),
      container_start = (\<lambda>_ w. (Inr (), w)), container_stop = (\<lambda>_ w. (Inr (), w)),
      container_remove = (\<lambda>i w. (Inr (), w\<lparr>purged := purged w @ [i]\<rparr>)),
      container_purge = (\<lambda>i w. (Inr (), w\<lparr>purged := purged w @ [i]\<rparr>)),
      container_restart = (\<lambda>_ w. (Inr (), w)), container_pause = (\<lambda>_ w. (Inr (), w)),
      container_unpause = (\<lambda>_ w. (Inr (), w)), container_exec = (\<lambda>_ _ w. (Inr (0, []), w))\<rparr>"

definition sim_config :: "nat \<Rightarrow> bool \<Rightarrow> http_response \<Rightarrow> sim config" where
  "sim_config n connects answer =
     \<lparr>docker_client = sim_docker connects, environment = (\<lambda>_. None), requests = (\<lambda>_ w. (Inr answer, w)),
      request_timeout = PInt 20, number_text = (\<lambda>_. []), value_text = (\<lambda>_. []), pass_time = (\<lambda>_ w. w),
      draw = (\<lambda>w. (\<lparr>ip_third = 0, ip_fourth = 7, base_port = 2000, key_picks = (\<lambda>_. 0)\<rparr>, w)),
      start_retry = attempts n (\<lambda>e. \<not> isa e ValueError) (sleeping (\<lambda>w. w)),
      stop_retry = attempts 0 (\<lambda>e. isa e Exception) (sleeping (\<lambda>w. w)),
      ready_retry = (\<lambda>_. attempts 0 (\<lambda>e. isa e Exception) (sleeping (\<lambda>w. w)))\<rparr>"

lemma sim_config_ok: "config_ok (sim_config n connects answer)"
  unfolding config_ok_def sim_config_def by (auto intro!: exI [of _ "\<lambda>w. w"] retries_attempts)

definition sim_start :: "sim sys" where
  "sim_start = \<lparr>self = new_node (\<lambda>_. None) 1 ''quay.io/wakuorg/nwaku'' ''t'', ds_nodes = [], outer = \<lparr>created = [], purged = []\<rparr>\<rparr>"

definition answer_text :: "string \<Rightarrow> http_response" where
  "answer_text t = \<lparr>status_code = 200, resp_text = t, resp_json = Inr (PDict [(''enrUri'', PStr ''enr:x'')]), raise_for_status = None\<rparr>"

theorem node_with_container_registered_witness:
  "registered (run_ops (sim_config 2 True (answer_text [])) [Start 20 [], Pause, Stop, Start 20 []] sim_start)"
  by (rule node_with_container_registered [OF sim_config_ok]) (simp add: sim_start_def new_node_def)

section \<open>Stopping and starting\<close>

lemma stop_once_done:
  assumes "stop_once c s = (Inr (), s')"
  shows "container (self s') = None"
proof (cases "container (self s)")
  case None
  with assms show ?thesis by (simp add: stop_once_def io_defs get_self_def)
next
  case (Some ct)
  obtain r w1 where stop: "container_stop (docker_client c) ct (outer s) = (r, w1)" by fastforce
  obtain r2 w2 where rm: "container_remove (docker_client c) ct w1 = (r2, w2)" by fastforce
  note run = stop_once_def io_defs get_self_def set_self_def on_outer_def Some stop rm
  show ?thesis
  proof (cases r)
    case (Inl e)
    with assms show ?thesis by (cases "isa e DockerNotFound") (auto simp: run)
  next
    case (Inr u)
    with assms show ?thesis by (cases r2) (auto simp: run)
  qed
qed

text \<open>a node whose \<open>stop\<close> returns holds no container, also when the container was already gone or could not
  be removed.\<close>

theorem stop_clears_container:
  assumes "config_ok c" "stop c s = (Inr (), s')"
  shows "container (self s') = None"
proof -
  obtain f where r: "retries (\<lambda>e. isa e Exception) (sleeping f) (stop_retry c)"
    using assms(1) by (auto simp: config_ok_def)
  obtain v where "(Inr (), s') = stop_once c v"
    using retries_last [OF r assms(2) [unfolded stop_def]] by blast
  then show ?thesis using stop_once_done [of c v s'] by simp
qed

theorem stop_clears_container_witness:
  "container (self (snd (stop (sim_config 0 True (answer_text []))
     (sim_start\<lparr>self := (self sim_start)\<lparr>container := Some ''7''\<rparr>\<rparr>)))) = None"
proof -
  let ?s = "sim_start\<lparr>self := (self sim_start)\<lparr>container := Some ''7''\<rparr>\<rparr>"
  have "fst (stop (sim_config 0 True (answer_text [])) ?s) = Inr ()"
    by (simp add: stop_def sim_config_def stop_once_def io_defs get_self_def set_self_def on_outer_def sim_docker_def)
  then have "stop (sim_config 0 True (answer_text [])) ?s = (Inr (), snd (stop (sim_config 0 True (answer_text [])) ?s))"
    by (metis prod.collapse)
  then show ?thesis by (rule stop_clears_container [OF sim_config_ok])
qed

text \<open>\<open>pubsub_topic\<close> is refused as a node flag with \<open>ValueError\<close>, at the first attempt and before any container
  is created.\<close>

theorem pubsub_topic_flag_refused:
  assumes "config_ok c" "is_nwaku (self s)" "has_key kwargs ''pubsub_topic''" "\<not> has_key kwargs ''store_sync''"
    and "create_network (docker_client c) (environment c) (NETWORK_NAME (environment c)) (outer s) = (Inr net, w)"
  shows "\<exists>s'. start c t kwargs s = (Inl (Exn ValueError ''pubsub_topic is not a node flag, pass cluster_id and shard''), s') \<and>
    container (self s') = container (self s) \<and> ds_nodes s' = ds_nodes s \<and> outer s' = snd (draw c w)"
proof -
  let ?e = "Exn ValueError ''pubsub_topic is not a node flag, pass cluster_id and shard''"
  obtain rnd w2 where d: "draw c w = (rnd, w2)" by fastforce
  let ?n = "assign_network (environment c) rnd (self s)"
  have nw: "is_nwaku ?n" using assms(2) by (simp add: is_nwaku_def assign_network_def Let_def)
  have key: "map_of (AList.delete a kw) ''pubsub_topic'' = map_of kw ''pubsub_topic''" if "a \<noteq> ''pubsub_topic''"
    for a and kw :: "(string, pyval) dict" using that by (simp add: delete_conv')
  have "start_context ?n (generate_random_nodekey (key_picks rnd)) kwargs = Inl ?e"
    using assms(3,4) nw
    by (auto simp: start_context_def store_sync_args_def dict_pop_def wants_store_sync_def resolve_sharding_flags_def
        key lower_def lower_char_def Let_def)
  then have once: "start_once c t kwargs s = (Inl ?e, s\<lparr>self := ?n, outer := w2\<rparr>)"
    using assms(5) d
    by (simp add: start_once_def prepare_start_context_def io_defs on_outer_def draw_random_def set_self_def get_self_def)
  obtain f where r: "retries (\<lambda>e. \<not> isa e ValueError) (sleeping f) (start_retry c)"
    using assms(1) by (auto simp: config_ok_def)
  have "start c t kwargs s = (Inl ?e, s\<lparr>self := ?n, outer := w2\<rparr>)"
    unfolding start_def by (rule retries_fatal [where f = "start_once c t kwargs" and w = s, OF r once]) (simp add: isa_def)
  then show ?thesis using d by (simp add: assign_network_def Let_def)
qed

theorem pubsub_topic_flag_refused_witness:
  "\<exists>s'. start (sim_config 3 True (answer_text [])) 20 [(''pubsub_topic'', PStr ''/waku/2/rs/0/0'')] sim_start =
     (Inl (Exn ValueError ''pubsub_topic is not a node flag, pass cluster_id and shard''), s') \<and> container (self s') = None"
proof -
  have nw: "is_nwaku (self sim_start)" by code_simp
  have net: "create_network (docker_client (sim_config 3 True (answer_text []))) (environment (sim_config 3 True (answer_text [])))
      (NETWORK_NAME (environment (sim_config 3 True (answer_text [])))) (outer sim_start) = (Inr ''waku'', outer sim_start)"
    by (simp add: create_network_def sim_config_def sim_docker_def io_defs NETWORK_NAME_def get_env_var_def)
  show ?thesis
    using pubsub_topic_flag_refused [OF sim_config_ok nw _ _ net, of "[(''pubsub_topic'', PStr ''/waku/2/rs/0/0'')]" 20]
    by (auto simp: sim_start_def new_node_def)
qed


text \<open>A Docker client that works except that it refuses to attach containers to the network; \<open>live\<close> reads off the world the
  containers that exist. The other operations return and create or remove no container, apart from
  \<open>containers.create\<close>, which adds a new one.\<close>

definition quiet :: "('w \<Rightarrow> string set) \<Rightarrow> ('w, 'a) io \<Rightarrow> bool" where
  "quiet live m \<longleftrightarrow> (\<forall>w. \<exists>a w'. m w = (Inr a, w') \<and> live w' = live w)"

definition connect_refused :: "'w config \<Rightarrow> ('w \<Rightarrow> string set) \<Rightarrow> bool" where
  "connect_refused c live \<longleftrightarrow>
     (let d = docker_client c in
      (\<forall>n. quiet live (networks_list d n)) \<and> (\<forall>n a b g. quiet live (networks_create d n a b g)) \<and>
      (\<forall>n. quiet live (networks_get d n)) \<and> (\<forall>i. quiet live (images_pull d i)) \<and>
      (\<forall>i w. live (snd (images_get d i w)) = live w \<and>
         (case fst (images_get d i w) of Inr _ \<Rightarrow> True | Inl e \<Rightarrow> isa e ImageNotFound)) \<and>
      (\<forall>spec w. \<exists>i w'. containers_create d spec w = (Inr i, w') \<and> i \<notin> live w \<and> live w' = insert i (live w)) \<and>
      (\<forall>n ct ip w. \<exists>e w'. network_connect d n ct ip w = (Inl e, w') \<and> live w' = live w)) \<and>
     (\<forall>w. live (snd (draw c w)) = live w) \<and>
     (\<exists>f. retries (\<lambda>e. \<not> isa e ValueError) (sleeping f) (start_retry c) \<and> (\<forall>w. live (f w) = live w))"

lemma quietE:
  assumes "quiet live m"
  obtains a w' where "m w = (Inr a, w')" "live w' = live w"
  using assms unfolding quiet_def by blast

lemma quiet_return: "quiet live (io_return a)"
  by (simp add: quiet_def io_defs)

lemma quiet_bind: "quiet live m \<Longrightarrow> (\<And>a. quiet live (f a)) \<Longrightarrow> quiet live (io_bind m f)"
  unfolding quiet_def io_bind_def by (metis (no_types, lifting) case_prod_conv sum.case(2))

lemma quiet_steps:
  assumes "connect_refused c live"
  shows "quiet live (create_network (docker_client c) env nm)" "quiet live (pull_if_missing (docker_client c) img)"
    "quiet live (draw_random c)" "quiet live (networks_get (docker_client c) nm)"
proof -
  note d = assms [unfolded connect_refused_def Let_def]
  show "quiet live (create_network (docker_client c) env nm)"
    unfolding create_network_def using d by (intro quiet_bind) (auto split: list.splits intro: quiet_return)
  show "quiet live (pull_if_missing (docker_client c) img)"
    unfolding quiet_def
  proof
    fix w
    have g: "live (snd (images_get (docker_client c) img w)) = live w"
      "case fst (images_get (docker_client c) img w) of Inr _ \<Rightarrow> True | Inl e \<Rightarrow> isa e ImageNotFound" by (simp_all add: d)
    have p: "quiet live (images_pull (docker_client c) img)" by (simp add: d)
    show "\<exists>a w'. pull_if_missing (docker_client c) img w = (Inr a, w') \<and> live w' = live w"
      using g p [unfolded quiet_def, rule_format, of "snd (images_get (docker_client c) img w)"]
      by (cases "images_get (docker_client c) img w"; cases "fst (images_get (docker_client c) img w)")
        (auto simp: pull_if_missing_def io_defs)
  qed
  show "quiet live (draw_random c)"
  proof -
    have "live (snd (draw c w)) = live w" for w by (simp add: d)
    then show ?thesis unfolding quiet_def draw_random_def by (simp add: case_prod_beta)
  qed
  show "quiet live (networks_get (docker_client c) nm)" using d by blast
qed

lemma start_container_refused:
  assumes "connect_refused c live"
  shows "\<exists>i e w'. start_container (docker_client c) env sh img ps args ip vols rm w = (Inl e, w') \<and>
    i \<notin> live w \<and> live w' = insert i (live w)"
proof -
  let ?d = "docker_client c"
  let ?spec = "\<lparr>spec_image = img, spec_command = cli_args sh args, spec_ports = port_bindings ps,
    spec_auto_remove = rm, spec_volumes = vols\<rparr>"
  note d = assms [unfolded connect_refused_def Let_def]
  obtain u w1 where 1: "pull_if_missing ?d img w = (Inr u, w1)" "live w1 = live w"
    using quiet_steps(2) [OF assms] by (rule quietE)
  have "\<exists>i w2. containers_create ?d ?spec w1 = (Inr i, w2) \<and> i \<notin> live w1 \<and> live w2 = insert i (live w1)" using d by blast
  then obtain i w2 where 2: "containers_create ?d ?spec w1 = (Inr i, w2)" "i \<notin> live w1" "live w2 = insert i (live w1)" by blast
  obtain nw w3 where 3: "networks_get ?d (NETWORK_NAME env) w2 = (Inr nw, w3)" "live w3 = live w2"
    using quiet_steps(4) [OF assms] by (rule quietE)
  have "\<exists>e w4. network_connect ?d nw i ip w3 = (Inl e, w4) \<and> live w4 = live w3" using d by blast
  then obtain e w4 where 4: "network_connect ?d nw i ip w3 = (Inl e, w4)" "live w4 = live w3" by blast
  have "start_container ?d env sh img ps args ip vols rm w = (Inl e, w4)"
    using 1(1) 2(1) 3(1) 4(1) by (simp add: start_container_def io_defs)
  then show ?thesis using 1(2) 2 3(2) 4(2) by auto
qed

lemma start_once_refused:
  assumes "connect_refused c live" "is_nwaku (self s)"
    and "\<And>n key. is_nwaku n \<Longrightarrow> \<exists>args rm. start_context n key kwargs = Inr (args, rm)"
  shows "\<exists>i e s'. start_once c t kwargs s = (Inl e, s') \<and> i \<notin> live (outer s) \<and> live (outer s') = insert i (live (outer s)) \<and>
    container (self s') = container (self s) \<and> ds_nodes s' = ds_nodes s \<and> is_nwaku (self s')"
proof -
  obtain net w1 where 1: "create_network (docker_client c) (environment c) (NETWORK_NAME (environment c)) (outer s) = (Inr net, w1)"
    "live w1 = live (outer s)" using quiet_steps(1) [OF assms(1)] by (rule quietE)
  obtain rnd w2 where 2: "draw_random c w1 = (Inr rnd, w2)" "live w2 = live w1"
    using quiet_steps(3) [OF assms(1)] by (rule quietE)
  let ?n = "assign_network (environment c) rnd (self s)"
  have n: "is_nwaku ?n" "container ?n = container (self s)"
    using assms(2) by (simp_all add: is_nwaku_def assign_network_def Let_def)
  obtain args rm where ctx: "start_context ?n (generate_random_nodekey (key_picks rnd)) kwargs = Inr (args, rm)"
    using assms(3) [OF n(1)] by blast
  obtain i e w3 where 3: "start_container (docker_client c) (environment c) (value_text c) (image_name ?n) (ports ?n) args
      (ext_ip ?n) (volumes ?n) rm w2 = (Inl e, w3)" "i \<notin> live w2" "live w3 = insert i (live w2)"
    using start_container_refused [OF assms(1)] by metis
  have "start_once c t kwargs s = (Inl e, s\<lparr>self := ?n\<lparr>start_args := args\<rparr>, outer := w3\<rparr>)"
    using 1(1) 2(1) 3(1) ctx
    by (simp add: start_once_def prepare_start_context_def start_docker_def io_defs on_outer_def set_self_def get_self_def)
  then show ?thesis using 1(2) 2(2) 3(2,3) n
    by (intro exI [of _ i] exI [of _ e] exI [of _ "s\<lparr>self := ?n\<lparr>start_args := args\<rparr>, outer := w3\<rparr>"]) (simp add: is_nwaku_def)
qed

text \<open>C24: when Docker does not attach a node's container to the network, every attempt of \<open>start\<close> raises and leaves the
  container it created behind, whatever the flags of the node (as long as they are accepted) and however often the
  start is retried: the containers that exist grow by one new container per attempt, the node holds none of them,
  and it is not in the list that the teardown stops.\<close>

theorem connect_failure_leaks:
  fixes c :: "'w config"
  assumes "connect_refused c live" "is_nwaku (self s)"
    and "\<And>n key. is_nwaku n \<Longrightarrow> \<exists>args rm. start_context n key kwargs = Inr (args, rm)"
  shows "(\<forall>s. is_nwaku (self s) \<longrightarrow> (\<exists>i e s'. start_once c t kwargs s = (Inl e, s') \<and> i \<notin> live (outer s) \<and>
      live (outer s') = insert i (live (outer s)) \<and> container (self s') = container (self s) \<and> ds_nodes s' = ds_nodes s)) \<and>
    (\<exists>e s'. start c t kwargs s = (Inl e, s') \<and> live (outer s) \<subset> live (outer s') \<and>
      container (self s') = container (self s) \<and> ds_nodes s' = ds_nodes s)"
proof (intro conjI allI impI)
  note once = start_once_refused [OF assms(1) _ assms(3), where t = t]
  show "\<exists>i e s'. start_once c t kwargs s = (Inl e, s') \<and> i \<notin> live (outer s) \<and>
      live (outer s') = insert i (live (outer s)) \<and> container (self s') = container (self s) \<and> ds_nodes s' = ds_nodes s"
    if "is_nwaku (self s)" for s
    using once [OF that] by blast
  obtain f where f: "retries (\<lambda>e. \<not> isa e ValueError) (sleeping f) (start_retry c)" "\<And>w. live (f w) = live w"
    using assms(1) by (auto simp: connect_refused_def Let_def)
  define J where "J v \<longleftrightarrow> is_nwaku (self v) \<and> container (self v) = container (self s) \<and> ds_nodes v = ds_nodes s \<and>
    live (outer s) \<subseteq> live (outer v)" for v :: "'w sys"
  have step: "J v'" if "J v" "start_once c t kwargs v = (Inl e, v')" for v e v'
    using that once [of v] unfolding J_def by auto
  have pause: "J (sleeping f v)" if "J v" for v using that f(2) by (simp add: J_def sleeping_def)
  have "J s" using assms(2) by (simp add: J_def)
  then have "\<exists>v. J v \<and> start c t kwargs s = start_once c t kwargs v"
    unfolding start_def by (rule retries_attempt [where I = J, OF f(1) _ refl]) (fact step, fact pause)
  then obtain v where v: "J v" "start c t kwargs s = start_once c t kwargs v" by blast
  obtain i e s' where "start_once c t kwargs v = (Inl e, s')" "i \<notin> live (outer v)" "live (outer s') = insert i (live (outer v))"
    "container (self s') = container (self v)" "ds_nodes s' = ds_nodes v"
    using once [of v] v(1) unfolding J_def by blast
  then show "\<exists>e s'. start c t kwargs s = (Inl e, s') \<and> live (outer s) \<subset> live (outer s') \<and>
      container (self s') = container (self s) \<and> ds_nodes s' = ds_nodes s"
    using v unfolding J_def by (intro exI [of _ e] exI [of _ s']) auto
qed

definition sim_live :: "sim \<Rightarrow> string set" where
  "sim_live w = set (created w) - set (purged w)"

lemma length_concat_member: "x \<in> set xs \<Longrightarrow> length x \<le> length (concat xs)"
  by (induction xs) auto

lemma fresh_id: "CHR ''c'' # concat xs \<notin> set xs"
  using length_concat_member [of "CHR ''c'' # concat xs" xs] by auto

lemma sim_connect_refused: "connect_refused (sim_config n False a) sim_live"
proof -
  have fresh: "CHR ''c'' # concat (created w @ purged w) \<notin> set (created w @ purged w)" for w
    using fresh_id by blast
  have "\<exists>f. retries (\<lambda>e. \<not> isa e ValueError) (sleeping f) (start_retry (sim_config n False a)) \<and> (\<forall>w. sim_live (f w) = sim_live w)"
    using retries_attempts by (intro exI [of _ "\<lambda>w. w"]) (auto simp: sim_config_def)
  then show ?thesis
    using fresh by (auto simp: connect_refused_def sim_config_def sim_docker_def quiet_def sim_live_def Let_def)
qed

theorem connect_failure_leaks_witness:
  "\<exists>e s'. start (sim_config 3 False (answer_text [])) 20 [(''relay'', PStr ''true'')] sim_start = (Inl e, s') \<and>
     sim_live (outer sim_start) \<subset> sim_live (outer s') \<and> container (self s') = None"
proof -
  have nw: "is_nwaku (self sim_start)" by code_simp
  have "\<exists>args rm. start_context n key [(''relay'', PStr ''true'')] = Inr (args, rm)" if "is_nwaku n" for n key
    using that by (simp add: start_context_def store_sync_args_def dict_pop_def wants_store_sync_def resolve_sharding_flags_def Let_def) blast
  from connect_failure_leaks [OF sim_connect_refused nw this, of 3 "answer_text []" 20]
  show ?thesis by (auto simp: sim_start_def new_node_def)
qed


section \<open>Readiness\<close>

definition says_ready :: "waku_node \<Rightarrow> bool" where
  "says_ready n \<longleftrightarrow> (\<exists>v. health_response n = Some v \<and> py_get ''nodeHealth'' v = Inr (PStr ''READY''))"

lemma check_healthy_ready:
  assumes "check_healthy c s = (Inr (), s')"
  shows "says_ready (self s')"
proof -
  obtain r s1 where call: "node_call c rest_health s = (r, s1)" by fastforce
  show ?thesis
  proof (cases r)
    case (Inl e)
    with assms call show ?thesis by (simp add: check_healthy_def io_defs)
  next
    case (Inr t)
    with assms call obtain v where v: "json_loads_bytes t = Inr v"
      by (cases "json_loads_bytes t") (simp_all add: check_healthy_def io_defs set_self_def)
    with assms call Inr show ?thesis
      by (cases "py_get ''nodeHealth'' v") (auto simp: check_healthy_def io_defs set_self_def says_ready_def py_assert_def split: if_splits)
  qed
qed

lemma says_ready_node_only: "node_only (\<lambda>s. says_ready (self s))"
  by (simp add: node_only_def)

lemma check_ready_keeps: "keeps (\<lambda>s. says_ready (self s)) (check_ready c)"
  unfolding check_ready_def
  by (intro keeps_rules keeps_set_self says_ready_node_only) (simp add: says_ready_def)

lemma check_ready_info:
  assumes "check_ready c s = (Inr (), s')"
  shows "info_response (self s') \<noteq> None"
proof (cases "node_call c rest_info s")
  case (Pair r s1)
  with assms show ?thesis by (cases r) (auto simp: check_ready_def io_defs set_self_def)
qed

text \<open>C23: when \<open>ensure_ready\<close> returns for an nwaku node, the last health answer it read says \<open>READY\<close> and the node's
  info has been fetched.\<close>

theorem ensure_ready_means_ready:
  assumes "config_ok c" "is_nwaku (self s)" "ensure_ready c t s = (Inr (), s')"
  shows "says_ready (self s') \<and> info_response (self s') \<noteq> None"
proof -
  obtain f where r: "retries (\<lambda>e. isa e Exception) (sleeping f) (ready_retry c t)"
    using assms(1) by (auto simp: config_ok_def)
  obtain r1 s1 where h: "ready_retry c t (check_healthy c) s = (r1, s1)" by fastforce
  have r1: "r1 = Inr ()" and last: "ready_retry c t (check_ready c) s1 = (Inr (), s')"
    using assms(2,3) h by (cases r1; simp add: ensure_ready_def io_defs get_self_def)+
  obtain v where "(r1, s1) = check_healthy c v" using retries_last [OF r h] by blast
  then have "says_ready (self s1)" using check_healthy_ready [of c v s1] r1 by simp
  moreover have "keeps (\<lambda>s. says_ready (self s)) (ready_retry c t (check_ready c))"
    using r check_ready_keeps node_only_sleeping [OF says_ready_node_only] by (rule keeps_retry)
  ultimately have "says_ready (self s')" using last unfolding keeps_def by (metis snd_conv)
  moreover obtain u where "(Inr (), s') = check_ready c u" using retries_last [OF r last] by blast
  then have "info_response (self s') \<noteq> None" using check_ready_info [of c u s'] by simp
  ultimately show ?thesis by blast
qed

definition ready_answer :: http_response where
  "ready_answer = answer_text (json_dumps (\<lambda>_. []) (PDict [(''nodeHealth'', PStr ''READY'')]))"

lemma sim_call:
  assumes "started (self s)"
  shows "node_call (sim_config n True ready_answer) rest_health s = (Inr (resp_text ready_answer), s)"
    "node_call (sim_config n True ready_answer) rest_info s = (resp_json ready_answer, s)"
    "node_call (sim_config n True ready_answer) get_debug_version s = (Inr (strip (resp_text ready_answer)), s)"
  using assms by (simp_all add: node_call_def io_defs get_self_def on_outer_def api_def rest_health_def rest_info_def get_debug_version_def call_text_def
      call_json_def rest_call_def make_request_def log_request_as_curl_def sim_config_def ready_answer_def answer_text_def checked_response_def)

definition sim_started :: "sim sys" where
  "sim_started = sim_start\<lparr>self := (self sim_start)\<lparr>ports := [''2000'', ''2001'', ''2002'', ''2003'', ''2004'']\<rparr>\<rparr>"

lemma sim_ready:
  assumes "started (self s)" "is_nwaku (self s)"
  shows "\<exists>h i. ensure_ready (sim_config 0 True ready_answer) t s = (Inr (), s\<lparr>self := (self s)\<lparr>health_response := h, info_response := i\<rparr>\<rparr>)"
proof -
  let ?c = "sim_config 0 True ready_answer"
  have st: "started ((self s)\<lparr>health_response := h\<rparr>)" for h using assms(1) by (simp add: started_def)
  have d: "dumpable (PDict [(''nodeHealth'', PStr ''READY'')])" by (simp add: byte_def)
  have retry: "ready_retry ?c t f = f" for f by (rule ext) (simp add: sim_config_def)
  have "json_loads_bytes (resp_text ready_answer) = Inr (PDict [(''nodeHealth'', PStr ''READY'')])"
  proof -
    let ?b = "json_dumps (\<lambda>_. []) (PDict [(''nodeHealth'', PStr ''READY'')])"
    have "CHR ''{'' \<noteq> char_of (239 :: nat)" by code_simp
    then have "\<not> startswith ?b utf8_bom" by (simp add: utf8_bom_def)
    moreover have "utf8_decode ?b = Inr ?b" using ascii_dumps [OF d] by (rule utf8_decode_ascii)
    ultimately show ?thesis
      unfolding json_loads_bytes_def ready_answer_def answer_text_def using json_loads_dumps [OF d] by (simp del: json_dumps.simps)
  qed
  moreover have "resp_json ready_answer = Inr (PDict [(''enrUri'', PStr ''enr:x'')])"
    by (simp add: ready_answer_def answer_text_def)
  ultimately show ?thesis using assms
    by (intro exI [of _ "Some (PDict [(''nodeHealth'', PStr ''READY'')])"] exI [of _ "Some (PDict [(''enrUri'', PStr ''enr:x'')])"])
      (simp add: ensure_ready_def retry check_healthy_def check_ready_def io_defs get_self_def set_self_def sim_call st py_assert_def)
qed

theorem ensure_ready_means_ready_witness:
  "says_ready (self (snd (ensure_ready (sim_config 0 True ready_answer) 10 sim_started)))"
proof -
  let ?c = "sim_config 0 True ready_answer"
  have nw: "is_nwaku (self sim_started)" by code_simp
  have "started (self sim_started)" by (simp add: started_def sim_started_def)
  from sim_ready [OF this nw, of 10] have "fst (ensure_ready ?c 10 sim_started) = Inr ()" by auto
  then have "ensure_ready ?c 10 sim_started = (Inr (), snd (ensure_ready ?c 10 sim_started))"
    by (metis prod.collapse)
  from ensure_ready_means_ready [OF sim_config_ok nw this] show ?thesis by blast
qed

text \<open>A node whose flags are in order starts in this world.\<close>

lemma sim_started_ports: "started (assign_network env rnd n)"
  by (simp add: started_def assign_network_def generate_ports_def Let_def)

lemma sim_start_succeeds:
  assumes "is_nwaku (self s)" "\<And>n k. is_nwaku n \<Longrightarrow> \<exists>args rm. start_context n k kw = Inr (args, rm)"
  shows "fst (start (sim_config 0 True ready_answer) t kw s) = Inr ()"
proof -
  let ?c = "sim_config 0 True ready_answer"
  let ?n = "assign_network (\<lambda>_. None) \<lparr>ip_third = 0, ip_fourth = 7, base_port = 2000, key_picks = (\<lambda>_. 0)\<rparr> (self s)"
  have nw: "is_nwaku ?n" using assms(1) by (simp add: is_nwaku_def assign_network_def Let_def)
  obtain args rm where ctx: "start_context ?n (generate_random_nodekey (\<lambda>_. 0)) kw = Inr (args, rm)" using assms(2) [OF nw] by blast
  have ports: "started (self s')" "is_nwaku (self s')"
    if "self s' = ?n\<lparr>start_args := args, container := Some ct\<rparr>" for s' :: "sim sys" and ct
    using that nw sim_started_ports [of "\<lambda>_. None" _ "self s"] by (simp_all add: started_def is_nwaku_def)
  have "fst (start_docker ?c args rm t s') = Inr ()" if self: "self s' = ?n\<lparr>start_args := args\<rparr>" for s'
  proof -
    obtain ct w where sc: "start_container (docker_client ?c) (environment ?c) (value_text ?c) (image_name (self s')) (ports (self s'))
        args (ext_ip (self s')) (volumes (self s')) rm (outer s') = (Inr ct, w)"
      by (simp add: start_container_def pull_if_missing_def sim_config_def sim_docker_def io_defs Let_def)
    let ?s1 = "s'\<lparr>self := (self s')\<lparr>container := Some ct\<rparr>, ds_nodes := ds_nodes s' @ [node_id (self s')], outer := pass_time ?c 1 w\<rparr>"
    obtain h i where r: "ensure_ready ?c t ?s1 = (Inr (), ?s1\<lparr>self := (self ?s1)\<lparr>health_response := h, info_response := i\<rparr>\<rparr>)"
      using sim_ready [of ?s1 t] ports [of ?s1 ct] self by auto
    have st: "started (self (?s1\<lparr>self := (self ?s1)\<lparr>health_response := h, info_response := i\<rparr>\<rparr>))"
      using ports [of ?s1 ct] self by (simp add: started_def)
    have "start_docker ?c args rm t s' = (Inr (), ?s1\<lparr>self := (self ?s1)\<lparr>health_response := h, info_response := i\<rparr>\<rparr>)"
      using sc r sim_call(3) [OF st, of 0]
      by (simp add: start_docker_def io_defs get_self_def set_self_def on_outer_def register_node_def delay_def)
    then show ?thesis by simp
  qed
  from this [of "s\<lparr>self := ?n\<lparr>start_args := args\<rparr>\<rparr>"] ctx have "fst (start_once ?c t kw s) = Inr ()"
    by (simp add: start_once_def prepare_start_context_def create_network_def sim_config_def sim_docker_def draw_random_def
        io_defs on_outer_def set_self_def get_self_def Let_def)
  then show ?thesis by (simp add: start_def sim_config_def)
qed

section \<open>Flags\<close>

lemma map_of_sanitized:
  assumes "distinct (map (replace_char (CHR ''_'') (CHR ''-'') \<circ> fst) kw)" "map_of kw k = Some v"
  shows "map_of (sanitize_docker_flags kw) (replace_char (CHR ''_'') (CHR ''-'') k) = Some v"
proof -
  let ?f = "replace_char (CHR ''_'') (CHR ''-'')"
  have d: "distinct (map fst (map (\<lambda>(k, v). (?f k, v)) kw))" using assms(1) by (simp add: comp_def case_prod_beta')
  moreover have "(?f k, v) \<in> set (map (\<lambda>(k, v). (?f k, v)) kw)" using map_of_SomeD [OF assms(2)] by force
  ultimately have "map_of (map (\<lambda>(k, v). (?f k, v)) kw) (?f k) = Some v" by (simp add: map_of_is_SomeI)
  then show ?thesis unfolding sanitize_docker_flags_def using d by (simp add: map_of_dict_update)
qed


lemma map_of_delete_other [simp]: "a \<noteq> k \<Longrightarrow> map_of (AList.delete a d) k = map_of d k"
  by (simp add: delete_conv')

text \<open>The keyword arguments that are not node flags.\<close>

definition own_keys :: "string list" where
  "own_keys = [''store_sync'', ''store_sync_range'', ''store_sync_interval'', ''remove_container'']"

abbreviation drop_own :: "(string, pyval) dict \<Rightarrow> (string, pyval) dict" where
  "drop_own kw \<equiv> AList.delete ''remove_container'' (AList.delete ''store_sync_interval''
     (AList.delete ''store_sync_range'' (AList.delete ''store_sync'' kw)))"

lemma start_context_flags:
  assumes "start_context n key kwargs = Inr (args, rm)"
  shows "\<exists>base kw. resolve_sharding_flags (drop_own kwargs) = Inr kw \<and>
    args = dict_update (dict_update base (nwaku_args n)) (sanitize_docker_flags kw) \<and>
    (has_key kwargs ''preset'' \<longrightarrow> map_of base ''cluster-id'' = None)"
proof -
  let ?args = "if has_key kwargs ''preset'' then AList.delete ''cluster-id'' (default_args n key) else default_args n key"
  have base: "has_key kwargs ''preset'' \<Longrightarrow> map_of ?args ''cluster-id'' = None" by (simp add: delete_conv')
  obtain a1 kw1 where s: "store_sync_args ?args kwargs = Inr (a1, kw1)"
    using assms by (cases "store_sync_args ?args kwargs") (auto simp: start_context_def Let_def)
  have kw1: "kw1 = AList.delete ''store_sync_interval'' (AList.delete ''store_sync_range'' (AList.delete ''store_sync'' kwargs))"
    and a1: "map_of a1 ''cluster-id'' = map_of ?args ''cluster-id''"
    using s by (auto simp: store_sync_args_def dict_pop_def Let_def io_simps map_of_setdefault update_conv' split: if_splits)
  obtain kw where "resolve_sharding_flags (drop_own kwargs) = Inr kw"
    "args = dict_update (dict_update a1 (nwaku_args n)) (sanitize_docker_flags kw)"
    using assms s kw1 by (auto simp: start_context_def dict_pop_def Let_def io_simps split: if_splits)
  then show ?thesis using base a1 by (intro exI [of _ a1] exI [of _ kw]) simp
qed


lemma sanitize_char: "c \<notin> set k \<Longrightarrow> replace_char c d k = k"
  by (induction k) (auto simp: replace_char_def)

lemma sanitize_eq: "CHR ''-'' \<notin> set t \<Longrightarrow> replace_char (CHR ''_'') (CHR ''-'') k = t \<Longrightarrow> k = t"
  by (induction k arbitrary: t) (auto simp: replace_char_def split: if_splits)

lemma sanitize_cluster_id:
  "replace_char (CHR ''_'') (CHR ''-'') k = ''cluster-id'' \<Longrightarrow> k = ''cluster_id'' \<or> k = ''cluster-id''"
  by (auto simp: replace_char_def map_eq_Cons_conv split: if_splits)

lemma sanitize_distinct_keys: "distinct (map fst (sanitize_docker_flags kw))"
  by (simp add: sanitize_docker_flags_def dict_update_distinct)

lemma fst_dict_update: "fst ` set (dict_update d e) = fst ` set d \<union> fst ` set e"
proof (induction e arbitrary: d)
  case (Cons p e)
  then show ?case by (cases p) (auto simp: dom_update)
qed simp

lemma sanitize_absent:
  assumes "map_of kw ''cluster_id'' = None" "map_of kw ''cluster-id'' = None"
  shows "map_of (sanitize_docker_flags kw) ''cluster-id'' = None"
  using assms sanitize_cluster_id
  by (fastforce simp: sanitize_docker_flags_def map_of_eq_None_iff fst_dict_update image_iff)

lemma delete_distinct: "distinct (map (f \<circ> fst) d) \<Longrightarrow> distinct (map (f \<circ> fst) (AList.delete k d))"
  by (simp add: AList.delete_eq distinct_map_filter)

lemma update_fresh: "map_of d k = None \<Longrightarrow> AList.update k v d = d @ [(k, v)]"
  by (induction d) (auto split: if_splits)

lemma sanitized_distinct:
  assumes "distinct (map (replace_char (CHR ''_'') (CHR ''-'') \<circ> fst) kwargs)"
  shows "distinct (map (replace_char (CHR ''_'') (CHR ''-'') \<circ> fst) (drop_own kwargs))"
    and "\<not> has_key kwargs ''shard'' \<Longrightarrow>
      distinct (map (replace_char (CHR ''_'') (CHR ''-'') \<circ> fst) (AList.update ''shard'' v (drop_own kwargs)))"
proof -
  show d: "distinct (map (replace_char (CHR ''_'') (CHR ''-'') \<circ> fst) (drop_own kwargs))"
    using assms by (intro delete_distinct)
  assume "\<not> has_key kwargs ''shard''"
  then have none: "map_of (drop_own kwargs) ''shard'' = None" by simp
  have "replace_char (CHR ''_'') (CHR ''-'') k \<noteq> ''shard''" if "k \<in> fst ` set (drop_own kwargs)" for k
  proof
    assume "replace_char (CHR ''_'') (CHR ''-'') k = ''shard''"
    then have "k = ''shard''" by (rule sanitize_eq [rotated]) simp
    then show False using that none by (metis map_of_eq_None_iff)
  qed
  then show "distinct (map (replace_char (CHR ''_'') (CHR ''-'') \<circ> fst) (AList.update ''shard'' v (drop_own kwargs)))"
    using d none by (force simp: update_fresh sanitize_char)
qed

text \<open>C22: the arguments a node is started with: every keyword argument that is a node flag is passed with its value,
  over any default, under its name with dashes; with neither a shard nor a cluster id the default shard is
  used; and with a preset and no cluster id of its own no cluster id is passed.\<close>

theorem start_args_correct:
  assumes "start_context n key kwargs = Inr (args, rm)"
    and "distinct (map (replace_char (CHR ''_'') (CHR ''-'') \<circ> fst) kwargs)"
  shows "(\<forall>k v. map_of kwargs k = Some v \<and> k \<notin> set own_keys \<longrightarrow>
      map_of args (replace_char (CHR ''_'') (CHR ''-'') k) = Some v) \<and>
    (\<not> has_key kwargs ''shard'' \<and> \<not> has_key kwargs ''cluster_id'' \<longrightarrow> map_of args ''shard'' = Some (PStr DEFAULT_SHARD)) \<and>
    (has_key kwargs ''preset'' \<and> \<not> has_key kwargs ''cluster_id'' \<and> \<not> has_key kwargs ''cluster-id'' \<longrightarrow>
      map_of args ''cluster-id'' = None)"
proof -
  let ?f = "replace_char (CHR ''_'') (CHR ''-'')"
  obtain base kw where r: "resolve_sharding_flags (drop_own kwargs) = Inr kw"
    and args: "args = dict_update (dict_update base (nwaku_args n)) (sanitize_docker_flags kw)"
    and base: "has_key kwargs ''preset'' \<longrightarrow> map_of base ''cluster-id'' = None"
    using start_context_flags [OF assms(1)] by blast
  have own: "map_of (drop_own kwargs) k = map_of kwargs k" if "k \<notin> set own_keys" for k
    using that by (simp add: own_keys_def delete_conv')
  have kw: "kw = (if \<not> has_key kwargs ''shard'' \<and> \<not> has_key kwargs ''cluster_id''
      then AList.update ''shard'' (PStr DEFAULT_SHARD) (drop_own kwargs) else drop_own kwargs)"
    using r own [of "''shard''"] own [of "''cluster_id''"] by (auto simp: resolve_sharding_flags_def own_keys_def split: if_splits)
  have dis: "distinct (map (?f \<circ> fst) kw)" using sanitized_distinct [OF assms(2)] kw by auto
  have look: "map_of args (?f k) = Some v" if "map_of kw k = Some v" for k v
    using map_of_sanitized [OF dis that] sanitize_distinct_keys [of kw] by (simp add: args map_of_dict_update)
  have "map_of args (?f k) = Some v" if "map_of kwargs k = Some v" "k \<notin> set own_keys" for k v
  proof -
    have "map_of kw k = Some v" using that own [of k] by (cases "k = ''shard''") (auto simp: kw update_conv')
    then show ?thesis by (rule look)
  qed
  moreover have "map_of args ''shard'' = Some (PStr DEFAULT_SHARD)"
    if "\<not> has_key kwargs ''shard''" "\<not> has_key kwargs ''cluster_id''"
    using look [of "''shard''" "PStr DEFAULT_SHARD"] that by (simp add: kw update_conv' sanitize_char)
  moreover have "map_of args ''cluster-id'' = None"
    if "has_key kwargs ''preset''" "\<not> has_key kwargs ''cluster_id''" "\<not> has_key kwargs ''cluster-id''"
    using that base sanitize_absent [of kw] sanitize_distinct_keys [of kw] own [of "''cluster_id''"] own [of "''cluster-id''"]
    by (simp add: args map_of_dict_update nwaku_args_def kw own_keys_def update_conv' split: if_splits)
  ultimately show ?thesis by blast
qed


theorem start_args_correct_witness:
  "\<exists>args rm. start_context (self sim_start) ''k'' [(''preset'', PStr ''logos.test''), (''max_connections'', PInt 7)] = Inr (args, rm) \<and>
     map_of args ''max-connections'' = Some (PInt 7) \<and> map_of args ''shard'' = Some (PStr ''0'') \<and> map_of args ''cluster-id'' = None"
proof -
  let ?kw = "[(''preset'', PStr ''logos.test''), (''max_connections'', PInt 7)]"
  have nw: "is_nwaku (self sim_start)" by code_simp
  obtain args rm where ctx: "start_context (self sim_start) ''k'' ?kw = Inr (args, rm)"
    using nw by (simp add: start_context_def store_sync_args_def dict_pop_def wants_store_sync_def resolve_sharding_flags_def Let_def)
  have "distinct (map (replace_char (CHR ''_'') (CHR ''-'') \<circ> fst) ?kw)" by code_simp
  from start_args_correct [OF ctx this]
  have "map_of args (replace_char (CHR ''_'') (CHR ''-'') ''max_connections'') = Some (PInt 7)"
    "map_of args ''shard'' = Some (PStr DEFAULT_SHARD)" "map_of args ''cluster-id'' = None"
    by (auto simp: own_keys_def)
  moreover have "replace_char (CHR ''_'') (CHR ''-'') ''max_connections'' = ''max-connections''" by code_simp
  ultimately show ?thesis using ctx by (auto simp: DEFAULT_SHARD_def)
qed

end
