(* ===== verification/Traffic_Control.thy ===== *)
theory Traffic_Control
  imports Waku_Node Py_Regex
begin

text \<open>
  \<open>tests-e2e/src/steps/network_conditions.py\<close>: latency, bandwidth and packet loss on a container.
  Docker, the host's \<open>subprocess.run\<close> and with it \<open>sudo nsenter ... tc\<close> are parameters over a world
  \<open>'w\<close>. The part relied on of \<open>tc\<close> is the predicate \<open>tc_behaves\<close>, and the refinement lemmas show the
  operations as updates of the table of rules per network namespace and interface.
\<close>

section \<open>Definitions\<close>

text \<open>\<open>inspect_container\<close> is \<open>container.reload()\<close> followed by \<open>container.attrs\<close>, \<open>run_host\<close> is
  \<open>subprocess.run\<close> with the exit code and the two output texts, and \<open>number_str\<close> and
  \<open>value_str\<close> are \<open>str\<close> of a float and of a compound value.\<close>

record 'w tc_env =
  inspect_container :: "string \<Rightarrow> ('w, pyval) io"
  exec_in_container :: "string \<Rightarrow> string list \<Rightarrow> ('w, int \<times> string) io"
  run_host :: "string list \<Rightarrow> ('w, int \<times> string \<times> string) io"
  number_str :: "rat \<Rightarrow> string"
  value_str :: "pyval \<Rightarrow> string"
  waku_network :: string

definition pid_of_attrs :: "pyval \<Rightarrow> int res" where
  "pid_of_attrs attrs =
     res_bind (py_get_or ''State'' (PDict []) attrs) (\<lambda>state.
     res_bind (py_get ''Pid'' state) (\<lambda>pid.
       if \<not> truthy pid then Inl (Exn RuntimeError ''Container PID not available (container not running?)'')
       else py_int pid))"

definition container_of :: "waku_node \<Rightarrow> ('w, string) io" where
  "container_of n =
     (case container n of
        None \<Rightarrow> io_raise (Exn RuntimeError ''Node container not started yet'')
      | Some c \<Rightarrow> io_return c)"

definition tc_pid :: "'w tc_env \<Rightarrow> waku_node \<Rightarrow> ('w, int) io" where
  "tc_pid E n =
     io_bind (container_of n) (\<lambda>c.
     io_bind (inspect_container E c) (\<lambda>attrs. io_lift (pid_of_attrs attrs)))"

definition tc_cmd :: "int \<Rightarrow> string list \<Rightarrow> string list" where
  "tc_cmd pid tc_args = [''sudo'', ''-n'', ''nsenter'', ''-t'', str_int pid, ''-n'', ''tc''] @ tc_args"

definition tc_exec :: "'w tc_env \<Rightarrow> waku_node \<Rightarrow> string list \<Rightarrow> ('w, string) io" where
  "tc_exec E n tc_args =
     io_bind (tc_pid E n) (\<lambda>pid.
     io_bind (run_host E (tc_cmd pid tc_args)) (\<lambda>(code, out, err).
       if code \<noteq> 0 then
         io_raise (Exn RuntimeError (''TC failed: '' @ join '' '' (tc_cmd pid tc_args) @ [newline] @
           ''stdout: '' @ out @ [newline] @ ''stderr: '' @ err))
       else io_return out))"

definition tc_tolerated :: "string \<Rightarrow> bool" where
  "tc_tolerated msg \<longleftrightarrow>
     str_in ''Cannot delete qdisc with handle of zero'' msg \<or> str_in ''No such file or directory'' msg"

definition del_args :: "string \<Rightarrow> string list" where
  "del_args iface = [''qdisc'', ''del'', ''dev'', iface, ''root'']"

definition tc_clear :: "'w tc_env \<Rightarrow> waku_node \<Rightarrow> string \<Rightarrow> ('w, unit) io" where
  "tc_clear E n iface =
     io_try (io_bind (tc_exec E n (del_args iface)) (\<lambda>_. io_return ()))
       (\<lambda>e. if isa e RuntimeError \<and> tc_tolerated (text_of e) then io_return () else io_raise e)"

definition add_args :: "string \<Rightarrow> string list \<Rightarrow> string list" where
  "add_args iface rule = [''qdisc'', ''add'', ''dev'', iface, ''root''] @ rule"

definition add_latency :: "'w tc_env \<Rightarrow> waku_node \<Rightarrow> int \<Rightarrow> string \<Rightarrow> ('w, unit) io" where
  "add_latency E n ms iface =
     io_bind (tc_clear E n iface) (\<lambda>_.
     io_bind (tc_exec E n (add_args iface [''netem'', ''delay'', str_int ms @ ''ms''])) (\<lambda>_. io_return ()))"

definition add_bandwidth :: "'w tc_env \<Rightarrow> waku_node \<Rightarrow> string \<Rightarrow> string \<Rightarrow> ('w, unit) io" where
  "add_bandwidth E n rate iface =
     io_bind (tc_clear E n iface) (\<lambda>_.
     io_bind (tc_exec E n (add_args iface [''tbf'', ''rate'', rate, ''burst'', ''32kbit'', ''limit'', ''12500'']))
       (\<lambda>_. io_return ()))"

text \<open>The interface whose line shows the address of the node on the waku network.\<close>

definition waku_ip_of :: "'w tc_env \<Rightarrow> pyval \<Rightarrow> string res" where
  "waku_ip_of E attrs =
     res_bind (py_get_or ''NetworkSettings'' (PDict []) attrs) (\<lambda>settings.
     res_bind (py_get_or ''Networks'' (PDict []) settings) (\<lambda>networks.
     res_bind (py_get (waku_network E) networks) (\<lambda>waku_net.
       let missing = Exn RuntimeError (''Container is not attached to the '' @ [apostrophe] @ waku_network E @ [apostrophe] @ '' docker network'') in
       if \<not> truthy waku_net then Inl missing
       else res_bind (py_get ''IPAddress'' waku_net) (\<lambda>ip.
         if \<not> truthy ip then Inl missing else Inr (py_str (value_str E) ip)))))"

fun iface_in :: "string \<Rightarrow> string list \<Rightarrow> string option" where
  "iface_in waku_ip [] = None"
| "iface_in waku_ip (line # rest) =
     (if str_in ('' '' @ waku_ip @ ''/'') line then
        (case split_ws line of
           _ # t # _ \<Rightarrow> Some t
         | _ \<Rightarrow> iface_in waku_ip rest)
      else iface_in waku_ip rest)"

definition p2p_iface :: "'w tc_env \<Rightarrow> waku_node \<Rightarrow> ('w, string) io" where
  "p2p_iface E n =
     io_bind (container_of n) (\<lambda>c.
     io_bind (inspect_container E c) (\<lambda>attrs.
     io_bind (io_lift (waku_ip_of E attrs)) (\<lambda>waku_ip.
     io_bind (exec_in_container E c [''ip'', ''-o'', ''-4'', ''addr'']) (\<lambda>(code, output).
       if code \<noteq> 0 then io_raise (Exn RuntimeError (''ip addr failed inside container: b'' @ repr_str output))
       else io_bind (io_lift (utf8_decode output)) (\<lambda>listing.
         case iface_in waku_ip (splitlines listing) of
           Some t \<Rightarrow> io_return t
         | None \<Rightarrow> io_raise (Exn RuntimeError (''No interface inside container holds waku IP '' @ waku_ip)))))))"

definition DROPPED_RE :: rx where
  "DROPPED_RE = rseq [rlit ''dropped '', Grp 1 (rplus rdigit)]"

definition dropped_packets_p2p :: "'w tc_env \<Rightarrow> waku_node \<Rightarrow> ('w, int) io" where
  "dropped_packets_p2p E n =
     io_bind (p2p_iface E n) (\<lambda>iface.
     io_bind (tc_exec E n [''-s'', ''qdisc'', ''show'', ''dev'', iface]) (\<lambda>stats.
       case re_search DROPPED_RE stats of
         None \<Rightarrow> io_raise (Exn RuntimeError (''No packet counters for '' @ iface @ '': '' @ stats))
       | Some m \<Rightarrow>
           (case parse_int (group stats m 1) of
              Some i \<Rightarrow> io_return i
            | None \<Rightarrow> io_raise (Exn ValueError ''invalid literal for int()''))))"

definition clear_p2p :: "'w tc_env \<Rightarrow> waku_node \<Rightarrow> ('w, unit) io" where
  "clear_p2p E n = io_bind (p2p_iface E n) (tc_clear E n)"

definition add_packet_loss_p2p_only :: "'w tc_env \<Rightarrow> waku_node \<Rightarrow> rat \<Rightarrow> ('w, unit) io" where
  "add_packet_loss_p2p_only E n percent =
     io_bind (p2p_iface E n) (\<lambda>iface.
     io_bind (tc_clear E n iface) (\<lambda>_.
     io_bind (tc_exec E n (split_ws (''qdisc add dev '' @ iface @ '' root netem loss '' @ number_str E percent @ ''%'')))
       (\<lambda>_. io_return ())))"

definition add_latency_p2p_only :: "'w tc_env \<Rightarrow> waku_node \<Rightarrow> int \<Rightarrow> ('w, unit) io" where
  "add_latency_p2p_only E n ms = io_bind (p2p_iface E n) (add_latency E n ms)"

definition add_bandwidth_p2p_only :: "'w tc_env \<Rightarrow> waku_node \<Rightarrow> string \<Rightarrow> ('w, unit) io" where
  "add_bandwidth_p2p_only E n rate = io_bind (p2p_iface E n) (add_bandwidth E n rate)"

definition add_packet_loss_correlated_p2p_only :: "'w tc_env \<Rightarrow> waku_node \<Rightarrow> rat \<Rightarrow> rat \<Rightarrow> ('w, unit) io" where
  "add_packet_loss_correlated_p2p_only E n percent correlation =
     io_bind (p2p_iface E n) (\<lambda>iface.
     io_bind (tc_clear E n iface) (\<lambda>_.
     io_bind (tc_exec E n (split_ws (''qdisc add dev '' @ iface @ '' root netem loss '' @ number_str E percent @ ''% '' @
         number_str E correlation @ ''%'')))
       (\<lambda>_. io_return ())))"

section \<open>What is relied on\<close>

text \<open>The rule at the root of each interface, per network namespace (the process id stands for it).\<close>

type_synonym rule_table = "int \<times> string \<Rightarrow> string list option"

text \<open>\<open>tc\<close> on the interface \<open>i\<close> in the namespace of \<open>p\<close>: it deletes an installed rule, refuses with one of its two
  messages to delete where none is, and where none is it installs a rule that it accepts and refuses any other (a rate
  it cannot read, for one). Which rules it accepts there is left open (\<open>accepts\<close>).
  Looking at a container changes no rule; the container runs with process id \<open>p\<close> and \<open>i\<close> is the name
  that its \<open>ip addr\<close> shows for its address on the waku network.\<close>

definition tc_behaves :: "'w tc_env \<Rightarrow> ('w \<Rightarrow> rule_table) \<Rightarrow> (string list \<Rightarrow> bool) \<Rightarrow> int \<Rightarrow> string \<Rightarrow> bool" where
  "tc_behaves E rules accepts p i \<longleftrightarrow>
     (\<forall>w r. rules w (p, i) = Some r \<longrightarrow>
        (\<exists>out err w'. run_host E (tc_cmd p (del_args i)) w = (Inr (0, out, err), w') \<and> rules w' = (rules w)((p, i) := None))) \<and>
     (\<forall>w. rules w (p, i) = None \<longrightarrow>
        (\<exists>code out err w'. run_host E (tc_cmd p (del_args i)) w = (Inr (code, out, err), w') \<and> code \<noteq> 0 \<and>
           (str_in ''Cannot delete qdisc with handle of zero'' err \<or> str_in ''No such file or directory'' err) \<and> rules w' = rules w)) \<and>
     (\<forall>r w. rules w (p, i) = None \<longrightarrow>
        (\<exists>code out err w'. run_host E (tc_cmd p (add_args i r)) w = (Inr (code, out, err), w') \<and> (code = 0 \<longleftrightarrow> accepts r) \<and>
           rules w' = (if accepts r then (rules w)((p, i) := Some r) else rules w)))"

definition container_shows :: "'w tc_env \<Rightarrow> ('w \<Rightarrow> rule_table) \<Rightarrow> string \<Rightarrow> int \<Rightarrow> string \<Rightarrow> bool" where
  "container_shows E rules c p i \<longleftrightarrow>
     (\<exists>attrs ip listing.
        (\<forall>w. \<exists>w'. inspect_container E c w = (Inr attrs, w') \<and> rules w' = rules w) \<and>
        (\<forall>w. \<exists>w'. exec_in_container E c [''ip'', ''-o'', ''-4'', ''addr''] w = (Inr (0, listing), w') \<and> rules w' = rules w) \<and>
        pid_of_attrs attrs = Inr p \<and> waku_ip_of E attrs = Inr ip \<and>
        (\<exists>decoded. utf8_decode listing = Inr decoded \<and> iface_in ip (splitlines decoded) = Some i))"

section \<open>Refinement\<close>

lemma tc_pid_shows:
  assumes "container n = Some c" "container_shows E rules c p i"
  shows "\<exists>w'. tc_pid E n w = (Inr p, w') \<and> rules w' = rules w"
proof -
  obtain attrs where "\<And>w. \<exists>w'. inspect_container E c w = (Inr attrs, w') \<and> rules w' = rules w" "pid_of_attrs attrs = Inr p"
    using assms(2) unfolding container_shows_def by blast
  moreover from this(1) obtain v where "inspect_container E c w = (Inr attrs, v)" "rules v = rules w" by blast
  ultimately show ?thesis using assms(1) by (simp add: tc_pid_def container_of_def io_defs)
qed

lemma tc_exec_shows:
  assumes "container n = Some c" "container_shows E rules c p i"
  obtains v where "rules v = rules w"
    "tc_exec E n args w =
       (case run_host E (tc_cmd p args) v of
          (Inl e, w') \<Rightarrow> (Inl e, w')
        | (Inr (code, out, err), w') \<Rightarrow>
            (if code \<noteq> 0 then Inl (Exn RuntimeError (''TC failed: '' @ join '' '' (tc_cmd p args) @ [newline] @
               ''stdout: '' @ out @ [newline] @ ''stderr: '' @ err)) else Inr out, w'))"
proof -
  obtain v where "tc_pid E n w = (Inr p, v)" "rules v = rules w" using tc_pid_shows [OF assms] by blast
  then show thesis by (intro that [of v]) (auto simp: tc_exec_def io_defs split: prod.splits sum.splits)
qed

lemma str_in_append: "str_in sub b \<Longrightarrow> str_in sub (a @ b)"
  unfolding str_in_sublist by (metis append_assoc)

lemma tc_clear_refines:
  assumes "container n = Some c" "container_shows E rules c p i" "tc_behaves E rules accepts p j"
  shows "\<exists>w'. tc_clear E n j w = (Inr (), w') \<and> rules w' = (rules w)((p, j) := None)"
proof -
  obtain v where v: "rules v = rules w"
    and ex: "tc_exec E n (del_args j) w =
       (case run_host E (tc_cmd p (del_args j)) v of
          (Inl e, w') \<Rightarrow> (Inl e, w')
        | (Inr (code, out, err), w') \<Rightarrow>
            (if code \<noteq> 0 then Inl (Exn RuntimeError (''TC failed: '' @ join '' '' (tc_cmd p (del_args j)) @ [newline] @
               ''stdout: '' @ out @ [newline] @ ''stderr: '' @ err)) else Inr out, w'))"
    using tc_exec_shows [OF assms(1,2)] by blast
  show ?thesis
  proof (cases "rules v (p, j)")
    case None
    then obtain code out err w' where r: "run_host E (tc_cmd p (del_args j)) v = (Inr (code, out, err), w')" "code \<noteq> 0"
      "str_in ''Cannot delete qdisc with handle of zero'' err \<or> str_in ''No such file or directory'' err" "rules w' = rules v"
      using assms(3) unfolding tc_behaves_def by blast
    have "tc_tolerated (''TC failed: '' @ join '' '' (tc_cmd p (del_args j)) @ [newline] @
               ''stdout: '' @ out @ [newline] @ ''stderr: '' @ err)"
      unfolding tc_tolerated_def using r(3) by (meson str_in_append)
    with r ex have "tc_clear E n j w = (Inr (), w')"
      by (simp add: tc_clear_def io_defs isa_def)
    with r(4) v None show ?thesis by (metis fun_upd_triv)
  next
    case (Some r)
    then obtain out err w' where "run_host E (tc_cmd p (del_args j)) v = (Inr (0, out, err), w')"
      "rules w' = (rules v)((p, j) := None)"
      using assms(3) unfolding tc_behaves_def by blast
    with ex v show ?thesis by (simp add: tc_clear_def io_defs)
  qed
qed

text \<open>The outcome of replacing a rule: the new rule is there, or, when \<open>tc\<close> refuses it, the operation raises and the
  interface is left without a rule.\<close>

definition leaves_rule ::
    "('w \<Rightarrow> rule_table) \<Rightarrow> (string list \<Rightarrow> bool) \<Rightarrow> int \<Rightarrow> string \<Rightarrow> string list \<Rightarrow> 'w \<Rightarrow> unit res \<times> 'w \<Rightarrow> bool" where
  "leaves_rule rules accepts p i r w out \<longleftrightarrow>
     (if accepts r then fst out = Inr () \<and> rules (snd out) = (rules w)((p, i) := Some r)
      else (\<exists>msg. fst out = Inl (Exn RuntimeError msg)) \<and> rules (snd out) = (rules w)((p, i) := None))"

lemma tc_add_refines:
  assumes "container n = Some c" "container_shows E rules c p i" "tc_behaves E rules accepts p j" "rules w (p, j) = None"
  shows "\<exists>r' w'. tc_exec E n (add_args j r) w = (r', w') \<and>
    (if accepts r then (\<exists>out. r' = Inr out) \<and> rules w' = (rules w)((p, j) := Some r)
     else (\<exists>msg. r' = Inl (Exn RuntimeError msg)) \<and> rules w' = rules w)"
proof -
  obtain v where v: "rules v = rules w"
    and ex: "tc_exec E n (add_args j r) w =
       (case run_host E (tc_cmd p (add_args j r)) v of
          (Inl e, w') \<Rightarrow> (Inl e, w')
        | (Inr (code, out, err), w') \<Rightarrow>
            (if code \<noteq> 0 then Inl (Exn RuntimeError (''TC failed: '' @ join '' '' (tc_cmd p (add_args j r)) @ [newline] @
               ''stdout: '' @ out @ [newline] @ ''stderr: '' @ err)) else Inr out, w'))"
    using tc_exec_shows [OF assms(1,2)] by blast
  obtain code out err w' where "run_host E (tc_cmd p (add_args j r)) v = (Inr (code, out, err), w')" "code = 0 \<longleftrightarrow> accepts r"
      "rules w' = (if accepts r then (rules v)((p, j) := Some r) else rules v)"
    using assms(3,4) v unfolding tc_behaves_def by metis
  with ex v show ?thesis by simp
qed

text \<open>Clearing and then adding leaves exactly the new rule, whatever was there.\<close>

lemma tc_replace_refines:
  assumes "container n = Some c" "container_shows E rules c p i" "tc_behaves E rules accepts p j"
  shows "leaves_rule rules accepts p j r w
    (io_bind (tc_clear E n j) (\<lambda>_. io_bind (tc_exec E n (add_args j r)) (\<lambda>_. io_return ())) w)"
proof -
  obtain v where v: "tc_clear E n j w = (Inr (), v)" "rules v = (rules w)((p, j) := None)"
    using tc_clear_refines [OF assms] by blast
  then obtain r' w' where "tc_exec E n (add_args j r) v = (r', w')"
    "if accepts r then (\<exists>out. r' = Inr out) \<and> rules w' = (rules v)((p, j) := Some r)
     else (\<exists>msg. r' = Inl (Exn RuntimeError msg)) \<and> rules w' = rules v"
    using tc_add_refines [OF assms, of v r] by auto
  with v show ?thesis by (auto simp: leaves_rule_def io_defs split: if_splits)
qed

lemma p2p_iface_shows:
  assumes "container n = Some c" "container_shows E rules c p i"
  shows "\<exists>w'. p2p_iface E n w = (Inr i, w') \<and> rules w' = rules w"
proof -
  obtain attrs ip listing decoded where a: "\<And>w. \<exists>w'. inspect_container E c w = (Inr attrs, w') \<and> rules w' = rules w"
    "\<And>w. \<exists>w'. exec_in_container E c [''ip'', ''-o'', ''-4'', ''addr''] w = (Inr (0, listing), w') \<and> rules w' = rules w"
    "waku_ip_of E attrs = Inr ip" "utf8_decode listing = Inr decoded" "iface_in ip (splitlines decoded) = Some i"
    using assms(2) unfolding container_shows_def by blast
  obtain v where v: "inspect_container E c w = (Inr attrs, v)" "rules v = rules w" using a(1) by blast
  obtain u where u: "exec_in_container E c [''ip'', ''-o'', ''-4'', ''addr''] v = (Inr (0, listing), u)" "rules u = rules v"
    using a(2) by blast
  from assms(1) a(3-5) v u show ?thesis by (simp add: p2p_iface_def container_of_def io_defs)
qed

subsection \<open>The words of a rule\<close>

lemma iface_in_word: "iface_in ip ls = Some t \<Longrightarrow> word_ok t"
proof (induction ls)
  case (Cons l ls)
  then show ?case by (auto split: if_splits list.splits intro: split_ws_word [of t l])
qed simp

lemma loss_rule_words:
  assumes "word_ok i" "word_ok r"
  shows "split_ws (''qdisc add dev '' @ i @ '' root netem loss '' @ r @ ''%'') = add_args i [''netem'', ''loss'', r @ ''%'']"
proof -
  have "word_ok (r @ ''%'')" by (rule word_ok_append [OF assms(2)]) code_simp
  moreover have "list_all word_ok [''qdisc'', ''add'', ''dev'', ''root'', ''netem'', ''loss'']" by code_simp
  ultimately show ?thesis
    using split_ws_join [of "add_args i [''netem'', ''loss'', r @ ''%'']"] assms(1) by (simp add: add_args_def)
qed

lemma correlated_rule_words:
  assumes "word_ok i" "word_ok r" "word_ok q"
  shows "split_ws (''qdisc add dev '' @ i @ '' root netem loss '' @ r @ ''% '' @ q @ ''%'') =
    add_args i [''netem'', ''loss'', r @ ''%'', q @ ''%'']"
proof -
  have "word_ok ''%''" by code_simp
  then have "word_ok (r @ ''%'')" "word_ok (q @ ''%'')" using word_ok_append assms(2,3) by blast+
  moreover have "list_all word_ok [''qdisc'', ''add'', ''dev'', ''root'', ''netem'', ''loss'']" by code_simp
  ultimately show ?thesis
    using split_ws_join [of "add_args i [''netem'', ''loss'', r @ ''%'', q @ ''%'']"] assms(1) by (simp add: add_args_def)
qed

lemma leaves_rule_same: "rules v = rules w \<Longrightarrow> leaves_rule rules accepts p i r v out = leaves_rule rules accepts p i r w out"
  by (simp add: leaves_rule_def)

section \<open>Properties\<close>

text \<open>C29: each of the operations on the waku interface replaces whatever rule that interface had by the
  requested one, in the namespace of the node's container, and touches no other interface; when \<open>tc\<close> refuses the
  requested rule, the operation raises \<open>RuntimeError\<close> and the interface has no rule any more.\<close>

theorem p2p_rule_replaced:
  assumes "container n = Some c" "container_shows E rules c p i" "tc_behaves E rules accepts p i"
    and "word_ok (number_str E percent)" "word_ok (number_str E correlation)"
  shows "leaves_rule rules accepts p i [''netem'', ''delay'', str_int ms @ ''ms''] w (add_latency_p2p_only E n ms w) \<and>
    leaves_rule rules accepts p i [''tbf'', ''rate'', rate, ''burst'', ''32kbit'', ''limit'', ''12500''] w
      (add_bandwidth_p2p_only E n rate w) \<and>
    leaves_rule rules accepts p i [''netem'', ''loss'', number_str E percent @ ''%''] w (add_packet_loss_p2p_only E n percent w) \<and>
    leaves_rule rules accepts p i [''netem'', ''loss'', number_str E percent @ ''%'', number_str E correlation @ ''%''] w
      (add_packet_loss_correlated_p2p_only E n percent correlation w) \<and>
    (\<exists>w'. clear_p2p E n w = (Inr (), w') \<and> rules w' = (rules w)((p, i) := None))"
proof -
  obtain v where v: "p2p_iface E n w = (Inr i, v)" "rules v = rules w" using p2p_iface_shows [OF assms(1,2)] by blast
  have "word_ok i" using assms(2) iface_in_word unfolding container_shows_def by blast
  note words = loss_rule_words [OF this assms(4)] correlated_rule_words [OF this assms(4,5)]
  note replaced = tc_replace_refines [OF assms(1-3), of _ v, unfolded leaves_rule_same [of rules v w, OF v(2)]]
  note cleared = tc_clear_refines [OF assms(1-3), of v]
  note at_iface = io_bind_def [of "p2p_iface E n"]
  show ?thesis using v replaced cleared words
    by (simp add: add_latency_p2p_only_def add_latency_def add_bandwidth_p2p_only_def add_bandwidth_def
        add_packet_loss_p2p_only_def add_packet_loss_correlated_p2p_only_def clear_p2p_def at_iface)
qed

text \<open>A host whose world is the rule table itself, with one container of process id 42; it refuses rates that are not in bits.\<close>

fun sim_accepts :: "string list \<Rightarrow> bool" where
  "sim_accepts (kind # _ # rate # _) = (kind = ''tbf'' \<longrightarrow> endswith rate ''bit'')"
| "sim_accepts _ = True"

definition sim_run_host :: "string list \<Rightarrow> (rule_table, int \<times> string \<times> string) io" where
  "sim_run_host cmd w =
     (case drop 7 cmd of
        _ # op # _ # i # _ # rule \<Rightarrow>
          if op = ''del'' then
            (case w (42, i) of
               Some _ \<Rightarrow> (Inr (0, [], []), w((42, i) := None))
             | None \<Rightarrow> (Inr (2, [], ''Error: Cannot delete qdisc with handle of zero.''), w))
          else
            (case w (42, i) of
               None \<Rightarrow> if sim_accepts rule then (Inr (0, [], []), w((42, i) := Some rule))
                 else (Inr (1, [], ''Illegal rate''), w)
             | Some _ \<Rightarrow> (Inr (2, [], ''Error: Exclusivity flag on, cannot modify.''), w))
      | _ \<Rightarrow> (Inr (1, [], []), w))"

definition sim_attrs :: pyval where
  "sim_attrs = PDict [(''State'', PDict [(''Pid'', PInt 42)]),
     (''NetworkSettings'', PDict [(''Networks'', PDict [(''waku'', PDict [(''IPAddress'', PStr ''172.18.1.2'')])])])]"

definition sim_tc :: "rule_table tc_env" where
  "sim_tc = \<lparr>inspect_container = (\<lambda>_ w. (Inr sim_attrs, w)),
     exec_in_container = (\<lambda>_ _ w. (Inr (0, ''1: eth0    inet 172.17.0.2/16'' @ [newline] @ ''2: eth1    inet 172.18.1.2/16''), w)),
     run_host = sim_run_host, number_str = (\<lambda>_. ''30.0''), value_str = (\<lambda>_. []), waku_network = ''waku''\<rparr>"

lemma sim_tc_behaves: "tc_behaves sim_tc (\<lambda>w. w) sim_accepts 42 i"
proof -
  have "str_in ''Cannot delete qdisc with handle of zero'' ''Error: Cannot delete qdisc with handle of zero.''"
    by code_simp
  then show ?thesis
    by (simp add: tc_behaves_def sim_tc_def sim_run_host_def tc_cmd_def del_args_def add_args_def)
qed

lemma sim_tc_shows: "container_shows sim_tc (\<lambda>w. w) c 42 ''eth1''"
proof -
  let ?listing = "''1: eth0    inet 172.17.0.2/16'' @ [newline] @ ''2: eth1    inet 172.18.1.2/16''"
  have "pid_of_attrs sim_attrs = Inr 42" by (simp add: pid_of_attrs_def sim_attrs_def)
  moreover have "waku_ip_of sim_tc sim_attrs = Inr ''172.18.1.2''"
    by (simp add: waku_ip_of_def sim_attrs_def sim_tc_def)
  moreover have "utf8_decode ?listing = Inr ?listing" by code_simp
  moreover have "iface_in ''172.18.1.2'' (splitlines ?listing) = Some ''eth1''" by code_simp
  ultimately show ?thesis
    unfolding container_shows_def by (intro exI [of _ sim_attrs] exI [of _ "''172.18.1.2''"] exI [of _ ?listing]) (simp add: sim_tc_def)
qed

theorem p2p_rule_replaced_witness:
  "(\<exists>w'. add_packet_loss_p2p_only sim_tc ((self sim_start)\<lparr>container := Some ''c1''\<rparr>) 30 ((\<lambda>_. Some [''tbf'']) :: rule_table) = (Inr (), w') \<and>
     w' (42, ''eth1'') = Some [''netem'', ''loss'', ''30.0%''] \<and> w' (42, ''eth0'') = Some [''tbf'']) \<and>
   (\<exists>msg w'. add_bandwidth_p2p_only sim_tc ((self sim_start)\<lparr>container := Some ''c1''\<rparr>) ''fast'' (\<lambda>_. Some [''tbf'']) =
     (Inl (Exn RuntimeError msg), w') \<and> w' (42, ''eth1'') = None)"
proof -
  let ?n = "(self sim_start)\<lparr>container := Some ''c1''\<rparr>" and ?w = "(\<lambda>_. Some [''tbf'']) :: rule_table"
  have word: "word_ok (number_str sim_tc r)" for r by (simp add: sim_tc_def) code_simp
  have refused: "\<not> sim_accepts [''tbf'', ''rate'', ''fast'', ''burst'', ''32kbit'', ''limit'', ''12500'']" by code_simp
  have "container ?n = Some ''c1''" by simp
  note run = p2p_rule_replaced [OF this sim_tc_shows sim_tc_behaves word word, of 0 ?w "''fast''" 30 0]
  have "leaves_rule (\<lambda>w. w) sim_accepts 42 ''eth1'' [''netem'', ''loss'', ''30.0%''] ?w (add_packet_loss_p2p_only sim_tc ?n 30 ?w)"
    using run by (simp add: sim_tc_def)
  moreover have "leaves_rule (\<lambda>w. w) sim_accepts 42 ''eth1'' [''tbf'', ''rate'', ''fast'', ''burst'', ''32kbit'', ''limit'', ''12500''] ?w
      (add_bandwidth_p2p_only sim_tc ?n ''fast'' ?w)" using run by blast
  ultimately show ?thesis using refused
    by (cases "add_packet_loss_p2p_only sim_tc ?n 30 ?w"; cases "add_bandwidth_p2p_only sim_tc ?n ''fast'' ?w")
      (auto simp: leaves_rule_def)
qed

end
