(* ===== verification/Message_Checks.thy ===== *)
theory Message_Checks
  imports Waku_Node
begin

text \<open>
  \<open>tests-e2e/src/node/waku_message.py\<close> and \<open>store_response.py\<close>: the comparison of a received message
  with the one that was sent, and the accessors of a store answer. The validation of a received value
  against the dataclass is done by the \<open>marshmallow\<close> package and is the parameter \<open>load\<close>; \<open>sh\<close> is
  \<open>str\<close> of a compound value.
\<close>

section \<open>Values\<close>

text \<open>\<open>len(v)\<close> and \<open>v[i]\<close> for an integer \<open>i\<close>.\<close>

fun py_len :: "pyval \<Rightarrow> nat res" where
  "py_len (PList vs) = Inr (length vs)"
| "py_len (PStr s) = Inr (length (chars_of s))"
| "py_len (PDict d) = Inr (length d)"
| "py_len _ = Inl (Exn TypeError ''object has no len()'')"

fun py_index :: "pyval \<Rightarrow> int \<Rightarrow> pyval res" where
  "py_index (PList vs) i = py_nth vs i"
| "py_index (PStr s) i = py_char s i"
| "py_index (PDict d) i = Inl (Exn KeyError (str_int i))"
| "py_index _ i = Inl (Exn TypeError ''object is not subscriptable'')"

section \<open>Received messages\<close>

record MessageRpcResponse =
  msg_payload :: string
  msg_contentTopic :: string
  msg_version :: "int option"
  msg_timestamp :: "int option"
  msg_ephemeral :: "bool option"
  msg_meta :: "string option"
  msg_proof :: pyval
  msg_rateLimitProof :: pyval
  msg_rate_limit_proof :: pyval

definition str_option :: "('a \<Rightarrow> string) \<Rightarrow> 'a option \<Rightarrow> string" where
  "str_option f v = (case v of None \<Rightarrow> ''None'' | Some x \<Rightarrow> f x)"

text \<open>\<open>math.isclose(a, b, rel_tol=1e-9)\<close>\<close>

definition isclose :: "rat \<Rightarrow> rat \<Rightarrow> bool" where
  "isclose a b \<longleftrightarrow> \<bar>a - b\<bar> \<le> max \<bar>a\<bar> \<bar>b\<bar> / 1000000000"

definition assert_field :: "string \<Rightarrow> bool \<Rightarrow> unit res" where
  "assert_field name ok = py_assert ok (''Incorrect field: '' @ name)"

definition check_timestamp :: "(pyval \<Rightarrow> string) \<Rightarrow> MessageRpcResponse \<Rightarrow> pyval \<Rightarrow> unit res" where
  "check_timestamp sh m ts =
     (case ts of
        PNone \<Rightarrow> Inr ()
      | PFloat r \<Rightarrow>
          (case msg_timestamp m of
             None \<Rightarrow> Inl (Exn TypeError ''float() argument must be a string or a real number, not NoneType'')
           | Some t \<Rightarrow> assert_field ''timestamp'' (isclose (of_int t) r))
      | _ \<Rightarrow> assert_field ''timestamp'' (str_option str_int (msg_timestamp m) = py_str sh ts))"

text \<open>A field that the sent message may leave out.\<close>

definition check_optional :: "(pyval \<Rightarrow> string) \<Rightarrow> string \<Rightarrow> string \<Rightarrow> pyval \<Rightarrow> unit res" where
  "check_optional sh name got sent =
     res_bind (py_contains name sent) (\<lambda>there.
       if there then res_bind (py_key name sent) (\<lambda>v. assert_field name (got = py_str sh v)) else Inr ())"

definition check_message :: "(pyval \<Rightarrow> string) \<Rightarrow> MessageRpcResponse \<Rightarrow> pyval \<Rightarrow> unit res" where
  "check_message sh m sent =
     res_bind (py_key ''payload'' sent) (\<lambda>p.
     res_bind (assert_field ''payload'' (PStr (msg_payload m) = p)) (\<lambda>_.
     res_bind (py_key ''contentTopic'' sent) (\<lambda>ct.
     res_bind (assert_field ''contentTopic'' (PStr (msg_contentTopic m) = ct)) (\<lambda>_.
     res_bind (py_get ''timestamp'' sent) (\<lambda>ts.
     res_bind (check_timestamp sh m ts) (\<lambda>_.
     res_bind (check_optional sh ''version'' (str_option str_int (msg_version m)) sent) (\<lambda>_.
     res_bind (check_optional sh ''meta'' (str_option id (msg_meta m)) sent) (\<lambda>_.
       check_optional sh ''ephemeral'' (str_option (\<lambda>b. if b then ''True'' else ''False'') (msg_ephemeral m)) sent))))))))"

definition assert_received_message ::
    "(pyval \<Rightarrow> MessageRpcResponse res) \<Rightarrow> (pyval \<Rightarrow> string) \<Rightarrow> pyval list \<Rightarrow> pyval \<Rightarrow> int \<Rightarrow> unit res" where
  "assert_received_message load sh received_messages sent_message index =
     res_bind (py_nth received_messages index) (\<lambda>v.
     res_bind (load v) (\<lambda>m. check_message sh m sent_message))"

section \<open>Store answers\<close>

text \<open>The answer and whether the node that gave it is an nwaku node, whose field names differ.\<close>

record StoreResponse =
  sr_response :: pyval
  sr_nwaku :: bool

text \<open>\<open>try: return self.response.get(...) except: return None\<close>\<close>

definition sr_get :: "string \<Rightarrow> string \<Rightarrow> StoreResponse \<Rightarrow> pyval" where
  "sr_get nwaku_key other_key r =
     (case py_get (if sr_nwaku r then nwaku_key else other_key) (sr_response r) of Inr v \<Rightarrow> v | Inl _ \<Rightarrow> PNone)"

definition sr_request_id where "sr_request_id = sr_get ''requestId'' ''request_id''"
definition sr_status_code where "sr_status_code = sr_get ''statusCode'' ''status_code''"
definition sr_status_desc where "sr_status_desc = sr_get ''statusDesc'' ''status_desc''"
definition sr_messages where "sr_messages = sr_get ''messages'' ''messages''"
definition sr_pagination_cursor where "sr_pagination_cursor = sr_get ''paginationCursor'' ''pagination_cursor''"
definition sr_resp_json where "sr_resp_json = sr_response"

definition sr_message_hash :: "StoreResponse \<Rightarrow> int \<Rightarrow> pyval res" where
  "sr_message_hash r index =
     (if sr_messages r = PNone then Inr PNone
      else res_bind (py_index (sr_messages r) index)
             (py_key (if sr_nwaku r then ''messageHash'' else ''message_hash'')))"

section \<open>Lemmas\<close>

text \<open>What a passed comparison means for the two fields that every message has.\<close>

lemma check_message_fields:
  assumes "check_message sh m sent = Inr ()"
  shows "py_key ''payload'' sent = Inr (PStr (msg_payload m)) \<and> py_key ''contentTopic'' sent = Inr (PStr (msg_contentTopic m))"
  using assms by (auto simp: check_message_def res_bind_Inr_iff assert_field_def)

lemma check_message_version:
  assumes "check_message sh m (PDict d) = Inr ()" "map_of d ''version'' = Some v"
  shows "str_option str_int (msg_version m) = py_str sh v"
  using assms by (auto simp: check_message_def check_optional_def res_bind_Inr_iff assert_field_def)

lemma str_nat_not_minus: "str_nat n \<noteq> CHR ''-'' # s"
  using str_nat_digits [of n] by (auto simp: is_digit_def)

lemma str_int_eq: "str_int i = str_int j \<longleftrightarrow> i = j"
proof
  assume "str_int i = str_int j"
  then show "i = j"
    using str_nat_not_minus str_nat_not_minus [symmetric]
    by (cases "i < 0"; cases "j < 0") (auto simp: str_int_def dest: str_nat_inj)
qed simp

lemma str_int_option_inj: "str_option str_int t = str_int i \<longleftrightarrow> t = Some i"
proof -
  have "str_int i \<noteq> ''None''"
  proof
    assume *: "str_int i = ''None''"
    then have "str_nat (nat i) = ''None''" by (auto simp: str_int_def split: if_splits)
    with str_nat_digits [of "nat i"] show False by (simp add: is_digit_def)
  qed
  then show ?thesis by (cases t) (auto simp: str_option_def str_int_eq)
qed

text \<open>An integer timestamp is compared exactly, although as text.\<close>

lemma check_message_timestamp:
  assumes "check_message sh m (PDict d) = Inr ()" "map_of d ''timestamp'' = Some (PInt i)"
  shows "msg_timestamp m = Some i"
  using assms by (auto simp: check_message_def check_timestamp_def res_bind_Inr_iff assert_field_def str_int_option_inj)

end
