(* ===== verification/Steps_Common.thy ===== *)
theory Steps_Common
  imports Message_Checks
begin

text \<open>
  The object on which the step classes of the end-to-end tests work, and \<open>tests-e2e/src/steps/common.py\<close>
  and \<open>metrics.py\<close>. The test holds several nodes: they live in a store, and an operation of a node runs on
  the state of \<open>Waku_Node\<close> with that node in focus. Instance attributes are dictionaries, so that reading
  one that was never set raises \<open>AttributeError\<close>. The packages and readings of the outside (tenacity's
  retriers, the clock, uuids, SHA-256, the marshmallow schema) are fields of the record \<open>step_env\<close>.
\<close>

section \<open>State\<close>

record 'w test =
  nodes_of :: "nat \<Rightarrow> waku_node"
  next_node :: nat
  storage :: "nat list"
  outside :: 'w
  node_attr :: "(string, nat) dict"
  nodes_attr :: "(string, nat list) dict"
  value_attr :: "(string, pyval) dict"

record 'w step_env =
  cfg :: "'w config"
  test_id :: string
  test_pubsub_topic :: string
  test_content_topic :: string
  test_payload :: string
  read_ns :: "'w \<Rightarrow> int \<times> 'w"
  read_s :: "'w \<Rightarrow> rat \<times> 'w"
  fresh_uuid :: "'w \<Rightarrow> string \<times> 'w"
  sha256 :: "string \<Rightarrow> string"
  load_schema :: "pyval \<Rightarrow> MessageRpcResponse res"
  retry_unit :: "rat \<Rightarrow> rat \<Rightarrow> ('w test, unit) retrier"
  retry_bool :: "rat \<Rightarrow> rat \<Rightarrow> ('w test, bool) retrier"
  retry_value :: "rat \<Rightarrow> rat \<Rightarrow> ('w test, pyval) retrier"
  retry_collect :: "rat \<Rightarrow> rat \<Rightarrow> ('w test \<times> pyval list, bool) retrier"

abbreviation str_of_value :: "'w step_env \<Rightarrow> pyval \<Rightarrow> string" where
  "str_of_value E \<equiv> value_text (cfg E)"

text \<open>An operation of the node \<open>i\<close>, and a pure reading of it.\<close>

definition on_node :: "nat \<Rightarrow> ('w sys, 'a) io \<Rightarrow> ('w test, 'a) io" where
  "on_node i m t =
     (case m \<lparr>self = nodes_of t i, ds_nodes = storage t, outer = outside t\<rparr> of
        (r, s) \<Rightarrow> (r, t\<lparr>nodes_of := (nodes_of t)(i := self s), storage := ds_nodes s, outside := outer s\<rparr>))"

definition of_node :: "nat \<Rightarrow> (waku_node \<Rightarrow> 'a res) \<Rightarrow> ('w test, 'a) io" where
  "of_node i f t = (f (nodes_of t i), t)"

definition on_outside :: "('w \<Rightarrow> 'a \<times> 'w) \<Rightarrow> ('w test, 'a) io" where
  "on_outside f t = (case f (outside t) of (a, w) \<Rightarrow> (Inr a, t\<lparr>outside := w\<rparr>))"

definition step_delay :: "'w step_env \<Rightarrow> rat \<Rightarrow> ('w test, unit) io" where
  "step_delay E secs = on_outside (\<lambda>w. ((), pass_time (cfg E) secs w))"

text \<open>\<open>WakuNode(image, prefix)\<close>\<close>

definition new_waku_node :: "'w step_env \<Rightarrow> string \<Rightarrow> string \<Rightarrow> ('w test, nat) io" where
  "new_waku_node E img pre t =
     (let i = next_node t in
      (Inr i, t\<lparr>nodes_of := (nodes_of t)(i := new_node (environment (cfg E)) i img pre), next_node := Suc i\<rparr>))"

text \<open>Instance attributes.\<close>

definition missing_attr :: "string \<Rightarrow> exn" where
  "missing_attr a = Exn AttributeError (''object has no attribute '' @ repr_str a)"

definition get_node :: "string \<Rightarrow> ('w test, nat) io" where
  "get_node a t = (case map_of (node_attr t) a of Some i \<Rightarrow> Inr i | None \<Rightarrow> Inl (missing_attr a), t)"
definition set_node :: "string \<Rightarrow> nat \<Rightarrow> ('w test, unit) io" where
  "set_node a i t = (Inr (), t\<lparr>node_attr := AList.update a i (node_attr t)\<rparr>)"
definition get_nodes :: "string \<Rightarrow> ('w test, nat list) io" where
  "get_nodes a t = (case map_of (nodes_attr t) a of Some is \<Rightarrow> Inr is | None \<Rightarrow> Inl (missing_attr a), t)"
definition set_nodes :: "string \<Rightarrow> nat list \<Rightarrow> ('w test, unit) io" where
  "set_nodes a is t = (Inr (), t\<lparr>nodes_attr := AList.update a is (nodes_attr t)\<rparr>)"
definition get_value :: "string \<Rightarrow> ('w test, pyval) io" where
  "get_value a t = (case map_of (value_attr t) a of Some v \<Rightarrow> Inr v | None \<Rightarrow> Inl (missing_attr a), t)"
definition set_value :: "string \<Rightarrow> pyval \<Rightarrow> ('w test, unit) io" where
  "set_value a v t = (Inr (), t\<lparr>value_attr := AList.update a v (value_attr t)\<rparr>)"

text \<open>\<open>self.a.extend([i])\<close>\<close>

definition append_node :: "string \<Rightarrow> nat \<Rightarrow> ('w test, unit) io" where
  "append_node a i = io_bind (get_nodes a) (\<lambda>is. set_nodes a (is @ [i]))"

text \<open>\<open>self.multiaddr_list\<close>, kept as a list of strings.\<close>

definition append_value :: "string \<Rightarrow> pyval \<Rightarrow> ('w test, unit) io" where
  "append_value a v = io_bind (get_value a) (\<lambda>vs. case vs of PList xs \<Rightarrow> set_value a (PList (xs @ [v]))
     | _ \<Rightarrow> io_raise (Exn AttributeError ''object has no attribute extend''))"

lemmas attr_defs = get_node_def set_node_def get_nodes_def set_nodes_def get_value_def set_value_def
  append_node_def append_value_def

text \<open>Discarding a result, and a comprehension whose body may raise.\<close>

definition ignore :: "('w, 'a) io \<Rightarrow> ('w, unit) io" where
  "ignore m = io_bind m (\<lambda>_. io_return ())"

fun res_map :: "('a \<Rightarrow> 'b res) \<Rightarrow> 'a list \<Rightarrow> 'b list res" where
  "res_map f [] = Inr []"
| "res_map f (x # xs) = res_bind (f x) (\<lambda>y. res_bind (res_map f xs) (\<lambda>ys. Inr (y # ys)))"

text \<open>\<open>WakuNode.start\<close> with its default waiting time.\<close>

definition start_node :: "'w step_env \<Rightarrow> nat \<Rightarrow> (string, pyval) dict \<Rightarrow> ('w test, unit) io" where
  "start_node E i kwargs = on_node i (start (cfg E) 20 kwargs)"

text \<open>The helpers that collect messages across polls: the condition that \<open>wait_until\<close> calls extends a local
  list, which is the second part of the state here and survives a poll that raises.\<close>

definition all_messages_received ::
    "('w test, pyval) io \<Rightarrow> nat \<Rightarrow> ('w test \<times> pyval list, bool) io" where
  "all_messages_received fetch count = (\<lambda>(t, messages).
     case fetch t of
       (Inl e, t') \<Rightarrow> (Inl e, (t', messages))
     | (Inr v, t') \<Rightarrow>
         (case py_iter v of
            Inl e \<Rightarrow> (Inl e, (t', messages))
          | Inr vs \<Rightarrow> (Inr (count \<le> length (messages @ vs)), (t', messages @ vs))))"

definition collect_by_polling ::
    "'w step_env \<Rightarrow> ('w test, pyval) io \<Rightarrow> nat \<Rightarrow> string \<Rightarrow> rat \<Rightarrow> rat \<Rightarrow> ('w test, pyval list) io" where
  "collect_by_polling E fetch count what timeout_duration time_between_retries t =
     (case wait_until (retry_collect E timeout_duration time_between_retries) id []
             (Some (''Expected '' @ str_nat count @ '' '' @ what @ '' messages'')) (all_messages_received fetch count) (t, []) of
        (Inl e, (t', _)) \<Rightarrow> (Inl e, t')
      | (Inr _, (t', messages)) \<Rightarrow> (Inr messages, t'))"

section \<open>Peers\<close>

definition add_peers_once :: "'w step_env \<Rightarrow> nat \<Rightarrow> pyval list \<Rightarrow> ('w test, unit) io" where
  "add_peers_once E i multiaddrs =
     io_bind (of_node i (\<lambda>n. Inr (is_nwaku n))) (\<lambda>nw.
       if nw then io_each (\<lambda>m. ignore (on_node i (node_add_peers (cfg E) (PList [m])))) multiaddrs
       else io_return ())"

definition add_node_peer :: "'w step_env \<Rightarrow> nat \<Rightarrow> pyval list \<Rightarrow> ('w test, unit) io" where
  "add_node_peer E i multiaddrs = retry_unit E 20 (1/2) (add_peers_once E i multiaddrs)"

definition has_peer :: "'w step_env \<Rightarrow> nat \<Rightarrow> ('w test, unit) io" where
  "has_peer E i =
     io_bind (on_node i (node_get_peers (cfg E))) (\<lambda>peers.
       io_lift (res_bind (py_len peers) (\<lambda>k. py_assert (1 \<le> k) [])))"

definition wait_for_autoconnection :: "'w step_env \<Rightarrow> nat list \<Rightarrow> rat \<Rightarrow> ('w test, unit) io" where
  "wait_for_autoconnection E is hard_wait =
     retry_unit E 70 1 (io_bind (io_each (has_peer E) is) (\<lambda>_.
       if hard_wait \<noteq> 0 then step_delay E hard_wait else io_return ()))"

text \<open>\<open>peer_id in {peer_info2id(p) for p in answer["peers"]}\<close>\<close>

definition peer_among :: "string \<Rightarrow> pyval \<Rightarrow> bool res" where
  "peer_among peer_id answer =
     res_bind (py_key ''peers'' answer) (\<lambda>v.
     res_bind (py_iter v) (\<lambda>ps.
     res_bind (res_map (\<lambda>p. peer_info2id p True) ps) (\<lambda>ids. Inr (peer_id \<in> set ids))))"

definition shard_of :: "string \<Rightarrow> string" where
  "shard_of topic = last (split_char (CHR ''/'') topic)"

definition wait_for_peer ::
    "'w step_env \<Rightarrow> (string \<Rightarrow> ('w sys, pyval) io) \<Rightarrow> string \<Rightarrow> nat \<Rightarrow> nat \<Rightarrow> string \<Rightarrow> rat \<Rightarrow> rat \<Rightarrow> ('w test, unit) io" where
  "wait_for_peer E ask kind i peer topic timeout_duration time_between_retries =
     io_bind (of_node peer get_id) (\<lambda>peer_id.
       ignore (wait_until (retry_bool E timeout_duration time_between_retries) id []
         (Some (''Expected '' @ peer_id @ '' among the '' @ kind @ '' peers on shard '' @ shard_of topic))
         (io_bind (on_node i (ask (shard_of topic))) (\<lambda>answer. io_lift (peer_among peer_id answer)))))"

definition wait_for_relay_peer ::
    "'w step_env \<Rightarrow> nat \<Rightarrow> nat \<Rightarrow> string \<Rightarrow> rat \<Rightarrow> rat \<Rightarrow> ('w test, unit) io" where
  "wait_for_relay_peer E = wait_for_peer E (\<lambda>shard. node_get_relay_peers_on_shard (cfg E) (PStr shard)) ''relay''"

definition wait_for_mesh_peer ::
    "'w step_env \<Rightarrow> nat \<Rightarrow> nat \<Rightarrow> string \<Rightarrow> rat \<Rightarrow> rat \<Rightarrow> ('w test, unit) io" where
  "wait_for_mesh_peer E = wait_for_peer E (\<lambda>shard. node_get_mesh_peers_on_shard (cfg E) (PStr shard)) ''mesh''"

section \<open>Messages\<close>

text \<open>The detour of the clock reading through \<open>int(f"...:019d")\<close> gives the same integer back.\<close>

definition create_message :: "'w step_env \<Rightarrow> (string, pyval) dict \<Rightarrow> ('w test, pyval) io" where
  "create_message E kwargs =
     io_bind (on_outside (read_ns E)) (\<lambda>ts_ns.
       io_return (PDict (dict_update
         [(''payload'', PStr (b64encode (test_payload E))), (''contentTopic'', PStr (test_content_topic E)),
          (''timestamp'', PInt ts_ns)] kwargs)))"

text \<open>\<open>base64.b64decode(v)\<close> and \<open>v.encode("utf-8")\<close> of a value.\<close>

fun decode_value :: "pyval \<Rightarrow> string res" where
  "decode_value (PStr s) = b64decode s"
| "decode_value _ = Inl (Exn TypeError ''argument should be a bytes-like object or ASCII string'')"

fun encode_value :: "pyval \<Rightarrow> string res" where
  "encode_value (PStr s) = Inr s"
| "encode_value _ = Inl (Exn AttributeError ''object has no attribute encode'')"

definition hash_input :: "string \<Rightarrow> pyval \<Rightarrow> string res" where
  "hash_input topic msg =
     res_bind (py_key ''payload'' msg) (\<lambda>p.
     res_bind (decode_value p) (\<lambda>payload.
     res_bind (py_key ''contentTopic'' msg) (\<lambda>ct.
     res_bind (encode_value ct) (\<lambda>content_topic.
     res_bind (py_contains ''meta'' msg) (\<lambda>has_meta.
     res_bind (if has_meta then res_bind (py_key ''meta'' msg) decode_value else Inr []) (\<lambda>meta.
     res_bind (py_key ''timestamp'' msg) (\<lambda>ts.
     res_bind (py_int ts) (\<lambda>i.
     res_bind (to_bytes 8 i) (\<lambda>stamp.
       Inr (topic @ payload @ content_topic @ meta @ stamp))))))))))"

definition compute_message_hash :: "'w step_env \<Rightarrow> string \<Rightarrow> pyval \<Rightarrow> string \<Rightarrow> string res" where
  "compute_message_hash E topic msg hash_type =
     res_bind (hash_input topic msg) (\<lambda>bytes.
       Inr (if hash_type = ''hex'' then ''0x'' @ hex (sha256 E bytes) else b64encode (sha256 E bytes)))"

section \<open>Metrics\<close>

text \<open>\<open>float(s)\<close>: surrounding space, a sign, an infinity, a not-a-number, or digits with an optional
  fraction and exponent. A finite value is the exact value of the text; digit groups with underscores are
  not read.\<close>

datatype pyfloat = Finite rat | PosInf | NegInf | NotANumber

definition digits_or_empty :: "string \<Rightarrow> nat option" where
  "digits_or_empty s = (if list_all is_digit s then Some (digits_val 0 s) else None)"

definition float_mantissa :: "string \<Rightarrow> rat option" where
  "float_mantissa s =
     (case split_once (CHR ''.'') s of
        [a] \<Rightarrow> map_option of_nat (parse_nat a)
      | [a, b] \<Rightarrow>
          (if a = [] \<and> b = [] then None
           else (case (digits_or_empty a, digits_or_empty b) of
                   (Some i, Some f) \<Rightarrow> Some (of_nat i + of_nat f / 10 ^ length b)
                 | _ \<Rightarrow> None))
      | _ \<Rightarrow> None)"

definition float_exponent :: "string \<Rightarrow> rat option" where
  "float_exponent s =
     (case s of
        [] \<Rightarrow> None
      | c # cs \<Rightarrow>
          if c = CHR ''-'' then map_option (\<lambda>n. 1 / 10 ^ n) (parse_nat cs)
          else map_option (\<lambda>n. 10 ^ n) (parse_nat (if c = CHR ''+'' then cs else s)))"

definition unsigned_float :: "string \<Rightarrow> pyfloat option" where
  "unsigned_float s =
     (if s = ''inf'' \<or> s = ''infinity'' then Some PosInf
      else if s = ''nan'' then Some NotANumber
      else case split_once (CHR ''e'') s of
             [m] \<Rightarrow> map_option Finite (float_mantissa m)
           | [m, e] \<Rightarrow>
               (case (float_mantissa m, float_exponent e) of
                  (Some r, Some x) \<Rightarrow> Some (Finite (r * x))
                | _ \<Rightarrow> None)
           | _ \<Rightarrow> None)"

definition py_float :: "string \<Rightarrow> pyfloat option" where
  "py_float s =
     (case lower (strip s) of
        [] \<Rightarrow> None
      | c # cs \<Rightarrow>
          if c = CHR ''-'' then
            map_option (\<lambda>x. case x of Finite r \<Rightarrow> Finite (- r) | PosInf \<Rightarrow> NegInf | y \<Rightarrow> y) (unsigned_float cs)
          else unsigned_float (if c = CHR ''+'' then cs else c # cs))"

definition float_eq :: "pyfloat \<Rightarrow> rat \<Rightarrow> bool" where
  "float_eq x r = (x = Finite r)"

definition float_ge :: "pyfloat \<Rightarrow> rat \<Rightarrow> bool" where
  "float_ge x r = (case x of Finite q \<Rightarrow> r \<le> q | PosInf \<Rightarrow> True | _ \<Rightarrow> False)"

text \<open>The loop over the lines: the first line that starts with the name and has a second field.\<close>

fun metric_value :: "string \<Rightarrow> string list \<Rightarrow> pyfloat option res" where
  "metric_value name [] = Inr None"
| "metric_value name (line # rest) =
     (if startswith line name then
        (case split_char (CHR '' '') line of
           _ # p # _ \<Rightarrow>
             (case py_float p of
                Some v \<Rightarrow> Inr (Some v)
              | None \<Rightarrow> Inl (Exn ValueError (''could not convert string to float: '' @ repr_str p)))
         | _ \<Rightarrow> metric_value name rest)
      else metric_value name rest)"

definition metric_check :: "string \<Rightarrow> rat \<Rightarrow> bool \<Rightarrow> string \<Rightarrow> unit res" where
  "metric_check name expected exact response =
     res_bind (metric_value name (split_char (char_of (10 :: nat)) response)) (\<lambda>actual.
       case actual of
         None \<Rightarrow> Inl (Exn AttributeError (''Metric '' @ repr_str name @ '' not found''))
       | Some v \<Rightarrow> py_assert (if exact then float_eq v expected else float_ge v expected)
                     (''Expected value for '' @ repr_str name @ '' is another''))"

definition check_metric :: "'w step_env \<Rightarrow> nat \<Rightarrow> string \<Rightarrow> rat \<Rightarrow> bool \<Rightarrow> ('w test, unit) io" where
  "check_metric E i name expected exact =
     io_bind (on_node i (get_metrics (cfg E))) (\<lambda>response. io_lift (metric_check name expected exact response))"

definition wait_for_metric :: "'w step_env \<Rightarrow> nat \<Rightarrow> string \<Rightarrow> rat \<Rightarrow> rat \<Rightarrow> bool \<Rightarrow> ('w test, unit) io" where
  "wait_for_metric E i name expected timeout_duration exact =
     retry_unit E timeout_duration 1 (check_metric E i name expected exact)"

section \<open>What the steps keep\<close>

text \<open>What is relied on of tenacity: a retrier runs its function again after an exception, having waited,
  which changes the outside only.\<close>

definition waiting :: "('w \<Rightarrow> 'w) \<Rightarrow> 'w test \<Rightarrow> 'w test" where
  "waiting f t = t\<lparr>outside := f (outside t)\<rparr>"

definition step_env_ok :: "'w step_env \<Rightarrow> bool" where
  "step_env_ok E \<longleftrightarrow> config_ok (cfg E) \<and>
     (\<forall>a b. \<exists>f. retries (\<lambda>e. isa e Exception) (waiting f) (retry_unit E a b)) \<and>
     (\<forall>a b. \<exists>f. retries (\<lambda>e. isa e Exception) (waiting f) (retry_bool E a b)) \<and>
     (\<forall>a b. \<exists>f. retries (\<lambda>e. isa e Exception) (waiting f) (retry_value E a b)) \<and>
     (\<forall>a b. \<exists>f. retries (\<lambda>e. isa e Exception) (map_prod (waiting f) id) (retry_collect E a b))"

text \<open>Every node of the test that holds a container is in the list that the teardown stops.\<close>

definition tracked :: "'w test \<Rightarrow> bool" where
  "tracked t \<longleftrightarrow> (\<forall>i < next_node t. node_id (nodes_of t i) = i \<and> (container (nodes_of t i) \<noteq> None \<longrightarrow> i \<in> set (storage t)))"

text \<open>The same from the point of view of one node \<open>i\<close>, when \<open>b\<close> says that it belongs to the test, with the
  nodes \<open>D\<close> that are already in the list.\<close>

definition tracked_as :: "bool \<Rightarrow> nat \<Rightarrow> nat set \<Rightarrow> 'w sys \<Rightarrow> bool" where
  "tracked_as b i D s \<longleftrightarrow> (b \<longrightarrow> registered s) \<and> node_id (self s) = i \<and> D \<subseteq> set (ds_nodes s)"

interpretation trk: node_invariant "tracked_as b i D" for b i D
  by unfold_locales (auto simp: node_only_def tracked_as_def registered_def)

declare trk.outer_free [simp, keeps_rules]

lemma keeps_on_node:
  fixes m :: "('w sys, 'a) io"
  assumes "\<And>b j D. keeps (tracked_as b j D) m"
  shows "keeps tracked (on_node i m)"
  unfolding keeps_def
proof (intro allI impI)
  fix t :: "'w test"
  assume t: "tracked t"
  let ?s = "\<lparr>self = nodes_of t i, ds_nodes = storage t, outer = outside t\<rparr>"
  let ?I = "tracked_as (i < next_node t) (node_id (nodes_of t i)) (set (storage t))"
  obtain r s where m: "m ?s = (r, s)" by fastforce
  have "?I ?s" using t by (simp add: tracked_def tracked_as_def registered_def)
  then have "?I s" using assms m unfolding keeps_def by (metis snd_conv)
  then show "tracked (snd (on_node i m t))"
    using t by (auto simp: on_node_def m tracked_def tracked_as_def registered_def)
qed

lemma keeps_node_start [keeps_rules]: "config_ok (cfg E) \<Longrightarrow> keeps tracked (start_node E i kw)"
  unfolding start_node_def by (intro keeps_on_node trk.inv_start)

lemma keeps_node_rest [keeps_rules]: "keeps tracked (on_node i (node_call c f))"
  by (intro keeps_on_node keeps_node_call trk.outer_free)

lemma keeps_of_node [keeps_rules]: "keeps I (of_node i f)"
  by (simp add: keeps_def of_node_def)

lemma keeps_on_outside [keeps_rules]: "keeps tracked (on_outside f)"
  by (auto simp: keeps_def on_outside_def tracked_def split: prod.splits)

lemma keeps_new_node [keeps_rules]: "keeps tracked (new_waku_node E img pre)"
  by (auto simp: keeps_def new_waku_node_def tracked_def new_node_def Let_def less_Suc_eq)

lemma keeps_attrs [keeps_rules]:
  "keeps tracked (get_node a)" "keeps tracked (set_node a i)" "keeps tracked (get_nodes a)" "keeps tracked (set_nodes a is)"
  "keeps tracked (get_value a)" "keeps tracked (set_value a v)"
  by (simp_all add: keeps_def attr_defs tracked_def)

lemma keeps_appends [keeps_rules]: "keeps tracked (append_node a i)" "keeps tracked (append_value a v)"
  unfolding append_node_def append_value_def by (intro keeps_rules; auto split: pyval.splits intro: keeps_rules)+

lemma keeps_ignore [keeps_rules]: "keeps I m \<Longrightarrow> keeps I (ignore m)"
  unfolding ignore_def by (intro keeps_rules)

lemma keeps_step_delay [keeps_rules]: "keeps tracked (step_delay E r)"
  unfolding step_delay_def by (rule keeps_on_outside)

lemma keeps_each [keeps_rules]:
  assumes "\<And>x. keeps I (f x)"
  shows "keeps I (io_each f xs)"
  unfolding keeps_def
proof (intro allI)
  fix w
  show "I w \<longrightarrow> I (snd (io_each f xs w))"
  proof (induction xs arbitrary: w)
    case (Cons x xs)
    have "I w \<Longrightarrow> I (snd (f x w))" using assms [of x] by (simp add: keeps_def)
    with Cons show ?case by (auto split: prod.splits sum.splits)
  qed simp
qed

lemma tracked_waiting: "tracked t \<Longrightarrow> tracked (waiting f t)"
  by (simp add: tracked_def waiting_def)

lemma keeps_retrier:
  assumes "\<exists>f. retries again (waiting f) rt" "keeps tracked m"
  shows "keeps tracked (rt m)"
proof -
  obtain f where "retries again (waiting f) rt" using assms(1) by blast
  then show ?thesis using assms(2) tracked_waiting by (rule keeps_retry)
qed

lemma keeps_retries:
  assumes "step_env_ok E"
  shows "keeps tracked m \<Longrightarrow> keeps tracked (retry_unit E a b m)"
    and "keeps tracked m' \<Longrightarrow> keeps tracked (retry_bool E a b m')"
    and "keeps tracked m'' \<Longrightarrow> keeps tracked (retry_value E a b m'')"
  using assms keeps_retrier [of "\<lambda>e. isa e Exception" "retry_unit E a b"]
    keeps_retrier [of "\<lambda>e. isa e Exception" "retry_bool E a b"] keeps_retrier [of "\<lambda>e. isa e Exception" "retry_value E a b"]
  unfolding step_env_ok_def by blast+

lemma keeps_wait_until:
  assumes "\<And>k. keeps I k \<Longrightarrow> keeps I (rt k)" "keeps I m"
  shows "keeps I (wait_until rt p s msg m)"
  unfolding wait_until_def wait_poll_def by (intro assms(1) keeps_rules assms(2))

lemma collected_enough:
  assumes "step_env_ok E" "collect_by_polling E fetch count what a b t = (Inr messages, t')"
  shows "count \<le> length messages"
proof -
  let ?msg = "wait_message (Some (''Expected '' @ str_nat count @ '' '' @ what @ '' messages'')) []"
  obtain f where r: "retries (\<lambda>e. isa e Exception) (map_prod (waiting f) id) (retry_collect E a b)"
    using assms(1) unfolding step_env_ok_def by blast
  obtain ok where w: "retry_collect E a b (wait_poll id ?msg (all_messages_received fetch count)) (t, []) = (Inr ok, (t', messages))"
    using assms(2) unfolding collect_by_polling_def wait_until_def by (auto split: prod.splits sum.splits)
  obtain v where "(Inr ok, (t', messages)) = wait_poll id ?msg (all_messages_received fetch count) v"
    using retries_last [OF r w] by blast
  then show ?thesis
    by (auto simp: wait_poll_def all_messages_received_def io_defs split: prod.splits sum.splits if_splits)
qed

lemma keepsD: "keeps I m \<Longrightarrow> I w \<Longrightarrow> I (snd (m w))"
  by (simp add: keeps_def)

lemma keeps_collect:
  assumes "step_env_ok E" "keeps tracked fetch"
  shows "keeps tracked (collect_by_polling E fetch count what a b)"
proof -
  obtain f where r: "retries (\<lambda>e. isa e Exception) (map_prod (waiting f) id) (retry_collect E a b)"
    using assms(1) unfolding step_env_ok_def by blast
  let ?I = "\<lambda>(t, ms :: pyval list). tracked t"
  have "keeps ?I (all_messages_received fetch count)"
    using assms(2) unfolding keeps_def all_messages_received_def
    by (auto split: prod.splits sum.splits)
  moreover have "keeps ?I (retry_collect E a b m)" if "keeps ?I m" for m
    using r that by (rule keeps_retry) (auto simp: tracked_waiting)
  ultimately have w: "keeps ?I (wait_until (retry_collect E a b) id [] msg (all_messages_received fetch count))" for msg
    by (intro keeps_wait_until)
  show ?thesis
    unfolding keeps_def
  proof (intro allI impI)
    fix t :: "'a test"
    assume "tracked t"
    let ?m = "wait_until (retry_collect E a b) id []
      (Some (''Expected '' @ str_nat count @ '' '' @ what @ '' messages'')) (all_messages_received fetch count)"
    obtain r t' ms where m: "?m (t, []) = (r, (t', ms))" by (metis surj_pair)
    have "case (t, [] :: pyval list) of (t, ms) \<Rightarrow> tracked t" using \<open>tracked t\<close> by simp
    then have "case snd (?m (t, [])) of (t, ms) \<Rightarrow> tracked t" by (rule keepsD [OF w])
    then show "tracked (snd (collect_by_polling E fetch count what a b t))"
      unfolding collect_by_polling_def m by (simp split: sum.splits)
  qed
qed

lemma env_config_ok: "step_env_ok E \<Longrightarrow> config_ok (cfg E)"
  by (simp add: step_env_ok_def)

lemmas rest_wrappers = node_add_peers_def node_get_peers_def node_get_relay_peers_on_shard_def
  node_get_mesh_peers_on_shard_def node_set_relay_subscriptions_def node_set_relay_auto_subscriptions_def
  node_send_relay_message_def node_send_relay_auto_message_def node_send_light_push_message_def
  node_get_relay_messages_def node_get_relay_auto_messages_def node_set_filter_subscriptions_def
  node_get_filter_messages_def node_get_store_messages_def node_messaging_send_def
  node_messaging_send_events_def node_messaging_send_events_by_id_def node_messaging_received_def

lemma keeps_metrics [keeps_rules]: "keeps tracked (on_node i (get_metrics c))"
  unfolding get_metrics_def by (intro keeps_on_node keeps_rules)

lemma keeps_common:
  assumes "step_env_ok E"
  shows "keeps tracked (add_node_peer E i ms)" "keeps tracked (wait_for_autoconnection E is h)"
    "keeps tracked (wait_for_relay_peer E i j tp a b)" "keeps tracked (wait_for_mesh_peer E i j tp a b)"
    "keeps tracked (create_message E kw)" "keeps tracked (wait_for_metric E i nm x a ex)"
  unfolding add_node_peer_def add_peers_once_def wait_for_autoconnection_def has_peer_def wait_for_relay_peer_def
    wait_for_mesh_peer_def wait_for_peer_def create_message_def wait_for_metric_def check_metric_def rest_wrappers
  by (intro keeps_rules keeps_retries [OF assms] keeps_wait_until; assumption?)+

section \<open>Properties\<close>

definition plain_message :: "string \<Rightarrow> string \<Rightarrow> int \<Rightarrow> pyval" where
  "plain_message payload content_topic ts =
     PDict [(''payload'', PStr (b64encode payload)), (''contentTopic'', PStr content_topic), (''timestamp'', PInt ts)]"

text \<open>\<open>create_message\<close> without overrides makes such a message.\<close>

lemma create_message_plain:
  "create_message E [] t =
     (case read_ns E (outside t) of
        (ns, w) \<Rightarrow> (Inr (plain_message (test_payload E) (test_content_topic E) ns), t\<lparr>outside := w\<rparr>))"
  by (simp add: create_message_def plain_message_def on_outside_def io_defs split: prod.splits)

lemma hash_input_plain:
  "hash_input topic (plain_message p ct ts) = res_bind (to_bytes 8 ts) (\<lambda>stamp. Inr (topic @ p @ ct @ stamp))"
  by (simp add: hash_input_def plain_message_def)

lemma compute_hash_plain:
  "compute_message_hash E topic (plain_message p ct ts) ht = Inr h \<longleftrightarrow>
     0 \<le> ts \<and> ts < 2 ^ 64 \<and>
     h = (let d = sha256 E (topic @ p @ ct @ be_bytes 8 (nat ts)) in if ht = ''hex'' then ''0x'' @ hex d else b64encode d)"
  by (auto simp: compute_message_hash_def hash_input_plain res_bind_Inr_iff to_bytes_Inr Let_def)


text \<open>An environment for concrete runs: one attempt per retrier, a hash that keeps its input.\<close>

definition sim_env :: "sim step_env" where
  "sim_env = \<lparr>cfg = sim_config 0 True (answer_text []), test_id = ''t'', test_pubsub_topic = ''/waku/2/rs/198/0'',
     test_content_topic = ''/a/1/b/proto'', test_payload = ''hi'', read_ns = (\<lambda>w. (1, w)), read_s = (\<lambda>w. (1, w)), fresh_uuid = (\<lambda>w. (''u'', w)),
     sha256 = (\<lambda>s. s), load_schema = (\<lambda>_. Inl (Exn ValueError [])),
     retry_unit = (\<lambda>_ _. attempts 0 (\<lambda>e. isa e Exception) (waiting (\<lambda>w. w))),
     retry_bool = (\<lambda>_ _. attempts 0 (\<lambda>e. isa e Exception) (waiting (\<lambda>w. w))),
     retry_value = (\<lambda>_ _. attempts 0 (\<lambda>e. isa e Exception) (waiting (\<lambda>w. w))),
     retry_collect = (\<lambda>_ _. attempts 0 (\<lambda>e. isa e Exception) (map_prod (waiting (\<lambda>w. w)) id))\<rparr>"

lemma sim_env_ok: "step_env_ok sim_env"
  unfolding step_env_ok_def
  by (intro conjI allI exI [of _ "\<lambda>w. w"]) (simp_all add: sim_env_def sim_config_ok retries_attempts)

text \<open>The same with nodes that answer every request with the value \<open>v\<close> and a schema that reads every message
  as \<open>r\<close>; and a test with two nodes that have their ports.\<close>

definition answering_env :: "pyval \<Rightarrow> MessageRpcResponse \<Rightarrow> sim step_env" where
  "answering_env v r = sim_env\<lparr>load_schema := (\<lambda>_. Inr r),
     cfg := (cfg sim_env)\<lparr>requests := (\<lambda>_ w. (Inr \<lparr>status_code = 200, resp_text = [], resp_json = Inr v, raise_for_status = None\<rparr>, w))\<rparr>\<rparr>"

definition sim_test :: "sim test" where
  "sim_test = \<lparr>nodes_of = (\<lambda>i. (new_node (\<lambda>_. None) i ''quay.io/wakuorg/nwaku'' ''t'')\<lparr>ports := [''2000'', ''2001'', ''2002'', ''2003'', ''2004'']\<rparr>), next_node = 2, storage = [],
     outside = \<lparr>created = [], purged = []\<rparr>, node_attr = [], nodes_attr = [], value_attr = []\<rparr>"

lemma answering_request:
  assumes "\<And>url. \<exists>t. log_request_as_curl (float_text (api (cfg (answering_env v r)) n)) meth url
    [(''Content-Type'', ''application/json'')] payload = Inr t"
  shows "rest_call (api (cfg (answering_env v r)) n) meth endpoint payload w =
     (Inr \<lparr>status_code = 200, resp_text = [], resp_json = Inr v, raise_for_status = None\<rparr>, w)"
proof -
  let ?c = "api (cfg (answering_env v r)) n"
  obtain t where "log_request_as_curl (float_text ?c) meth (rest_url ?c endpoint) [(''Content-Type'', ''application/json'')] payload = Inr t"
    using assms by blast
  from rest_call_one_request [OF this] show ?thesis
    by (simp add: answering_env_def api_def checked_response_def)
qed

lemma sim_nodes_started [simp]: "started (nodes_of sim_test i)"
  by (simp add: sim_test_def started_def)

lemma answering_get:
  assumes "started (nodes_of t i)"
  shows "on_node i (node_call (cfg (answering_env v r)) (\<lambda>a. call_json a meth endpoint None)) t = (Inr v, t)"
  using assms by (simp add: on_node_def node_call_def call_json_def io_defs get_self_def on_outer_def answering_request [OF log_no_payload])

lemma answering_post:
  assumes "dumpable (PDict d)" "started (nodes_of t i)"
  shows "\<exists>resp. on_node i (node_call (cfg (answering_env v r)) (\<lambda>a. rest_call a meth endpoint (dumped a (PDict d)))) t = (Inr resp, t)"
  using assms(2) by (simp add: on_node_def node_call_def io_defs get_self_def on_outer_def answering_request [OF log_object [OF assms(1)]]
      del: json_dumps.simps dumpable.simps)

text \<open>A hash of 32 bytes that is not injective.\<close>

definition digest_env :: "sim step_env" where
  "digest_env = sim_env\<lparr>sha256 := (\<lambda>s. take 32 (rev s @ replicate 32 (CHR ''0'')))\<rparr>"


text \<open>C31: \<open>check_metric\<close> reads the first line that begins with the name, which may belong to another metric
  with a longer name: a check for at least one passes although the metric itself is zero.\<close>

theorem metric_prefix_misread:
  assumes "CHR '' '' \<notin> set (name @ tail)" "char_of (10 :: nat) \<notin> set (name @ tail)"
  shows "metric_check name 1 False (name @ tail @ '' 7'' @ [char_of (10 :: nat)] @ name @ '' 0'') = Inr () \<and>
    metric_check name 1 False (name @ '' 0'') \<noteq> Inr ()"
proof -
  let ?nl = "char_of (10 :: nat) :: char"
  have nl: "?nl \<noteq> CHR '' ''" "?nl \<noteq> CHR ''7''" "?nl \<noteq> CHR ''0''" by code_simp+
  have f: "py_float ''7'' = Some (Finite 7)" "py_float ''0'' = Some (Finite 0)" by code_simp+
  have "split_char ?nl ((name @ tail @ '' 7'') @ ?nl # name @ '' 0'') = (name @ tail @ '' 7'') # split_char ?nl (name @ '' 0'')"
    using assms(2) nl by (intro split_char_append_sep) auto
  moreover have "split_char (CHR '' '') ((name @ tail) @ CHR '' '' # ''7'') = [name @ tail, ''7'']"
    using assms(1) by (subst split_char_append_sep) auto
  moreover have "split_char (CHR '' '') (name @ CHR '' '' # ''0'') = [name, ''0'']"
    using assms(1) by (subst split_char_append_sep) auto
  moreover have "split_char ?nl (name @ '' 0'') = [name @ '' 0'']" using assms(2) nl by (intro split_char_no_sep) auto
  ultimately show ?thesis by (simp add: metric_check_def f float_ge_def)
qed

theorem metric_prefix_misread_witness:
  "metric_check ''waku_peers'' 1 False (''waku_peers_total 7'' @ [char_of (10 :: nat)] @ ''waku_peers 0'') = Inr ()"
proof -
  have "CHR '' '' \<notin> set (''waku_peers'' @ ''_total'')" "char_of (10 :: nat) \<notin> set (''waku_peers'' @ ''_total'')" by code_simp+
  from metric_prefix_misread [OF this] show ?thesis by simp
qed

end
