(* ===== verification/Steps_Messaging.thy ===== *)
theory Steps_Messaging
  imports Steps_Common Wrapper_Helpers
begin

text \<open>
  \<open>tests-e2e/src/steps/messaging.py\<close>: the steps that drive the messaging REST API. A poll clears what
  it returns, so the collecting functions add up the answers of several polls. In them \<open>answer k\<close> is the
  outcome of the \<open>k\<close>-th request, \<open>t0\<close> the clock when the deadline is set and \<open>clk k\<close> the clock at the
  \<open>k\<close>-th test of the loop.
\<close>

section \<open>Nodes and messages\<close>

definition MESSAGING_CONTENT_TOPIC :: string where "MESSAGING_CONTENT_TOPIC = ''/test/1/messaging-rest/proto''"
definition MESSAGING_PAYLOAD :: string where "MESSAGING_PAYLOAD = ''Messaging works!!''"

text \<open>The class attributes shadow those of the base class.\<close>

definition messaging_class :: "'w step_env \<Rightarrow> 'w step_env" where
  "messaging_class E = E\<lparr>test_content_topic := MESSAGING_CONTENT_TOPIC, test_payload := MESSAGING_PAYLOAD\<rparr>"

definition messaging_setup :: "('w test, unit) io" where
  "messaging_setup = set_nodes ''main_nodes'' []"

definition messaging_args :: "(string, pyval) dict \<Rightarrow> (string, pyval) dict" where
  "messaging_args kwargs =
     dict_update [(''entry_layer'', PStr ''messaging''), (''mode'', PStr ''core''), (''num_shards_in_network'', PStr ''1'')] kwargs"

definition setup_store_messaging_node :: "'w step_env \<Rightarrow> (string, pyval) dict \<Rightarrow> ('w test, unit) io" where
  "setup_store_messaging_node E kwargs =
     io_bind (new_waku_node E (NODE_1 (environment (cfg E))) (''node1_'' @ test_id E)) (\<lambda>i.
     io_bind (set_node ''node1'' i) (\<lambda>_.
     io_bind (start_node E i (messaging_args ((''store'', PStr ''true'') # kwargs))) (\<lambda>_.
     io_bind (of_node i get_multiaddr_with_id) (\<lambda>addr.
     io_bind (set_value ''multiaddr_with_id'' (PStr addr)) (\<lambda>_.
       append_node ''main_nodes'' i)))))"

definition setup_client_messaging_node :: "'w step_env \<Rightarrow> (string, pyval) dict \<Rightarrow> ('w test, unit) io" where
  "setup_client_messaging_node E kwargs =
     io_bind (new_waku_node E (NODE_2 (environment (cfg E))) (''node2_'' @ test_id E)) (\<lambda>i.
     io_bind (set_node ''node2'' i) (\<lambda>_.
     io_bind (get_value ''multiaddr_with_id'') (\<lambda>addr.
     io_bind (start_node E i (messaging_args ((''staticnode'', addr) # (''storenode'', addr) # kwargs))) (\<lambda>_.
     io_bind (append_node ''main_nodes'' i) (\<lambda>_.
     io_bind (get_nodes ''main_nodes'') (\<lambda>is. wait_for_autoconnection E is 0))))))"

definition setup_main_messaging_nodes :: "'w step_env \<Rightarrow> ('w test, unit) io" where
  "setup_main_messaging_nodes E =
     io_bind (setup_store_messaging_node E []) (\<lambda>_. setup_client_messaging_node E [])"

definition messaging_message :: "'w step_env \<Rightarrow> string option \<Rightarrow> (string, pyval) dict \<Rightarrow> pyval" where
  "messaging_message E body kwargs =
     PDict (dict_update
       [(''payload'', PStr (b64encode (case body of None \<Rightarrow> test_payload E | Some b \<Rightarrow> b))),
        (''contentTopic'', PStr (test_content_topic E))] kwargs)"

definition request_id_of :: "(pyval \<Rightarrow> string) \<Rightarrow> pyval \<Rightarrow> pyval res" where
  "request_id_of sh response =
     res_bind (py_get ''requestId'' response) (\<lambda>r.
     res_bind (py_assert (truthy r) (''no requestId in send response '' @ py_str sh response)) (\<lambda>_.
       py_key ''requestId'' response))"

definition send_and_get_request_id ::
    "'w step_env \<Rightarrow> nat \<Rightarrow> string option \<Rightarrow> (string, pyval) dict \<Rightarrow> ('w test, pyval) io" where
  "send_and_get_request_id E i body kwargs =
     io_bind (on_node i (node_messaging_send (cfg E) (messaging_message E body kwargs))) (\<lambda>response.
       io_lift (request_id_of (str_of_value E) response))"

definition live_metric :: string where
  "live_metric = ''logos_delivery_recv_messages_total{source='' @ [quote_mark] @ ''live'' @ [quote_mark] @ ''}''"

definition wait_for_live_received_count :: "'w step_env \<Rightarrow> nat \<Rightarrow> rat \<Rightarrow> rat \<Rightarrow> ('w test, unit) io" where
  "wait_for_live_received_count E i count timeout = wait_for_metric E i live_metric count timeout False"

definition decode_payload :: "pyval \<Rightarrow> string res" where
  "decode_payload record =
     res_bind (py_key ''message'' record) (\<lambda>m.
     res_bind (py_key ''payload'' m) (\<lambda>p.
     res_bind (decode_value p) utf8_decode))"

section \<open>Collecting over several polls\<close>

partial_function (option) collect_until ::
    "('s \<Rightarrow> bool) \<Rightarrow> (nat \<Rightarrow> 's \<Rightarrow> 's res) \<Rightarrow> (nat \<Rightarrow> rat) \<Rightarrow> rat \<Rightarrow> 's \<Rightarrow> nat \<Rightarrow> 's res option" where
  "collect_until enough poll clk deadline s k =
     (if \<not> enough s \<and> clk k < deadline then
        (case poll k s of
           Inl e \<Rightarrow> Some (Inl e)
         | Inr s' \<Rightarrow> collect_until enough poll clk deadline s' (Suc k))
      else Some (Inr s))"

declare collect_until.simps [code]

text \<open>The loop and the assertion after it.\<close>

definition collect_checked ::
    "('s \<Rightarrow> bool) \<Rightarrow> ('s \<Rightarrow> bool) \<Rightarrow> (nat \<Rightarrow> 's \<Rightarrow> 's res) \<Rightarrow> (nat \<Rightarrow> rat) \<Rightarrow> rat \<Rightarrow> string \<Rightarrow> 's \<Rightarrow> 's res option" where
  "collect_checked enough ok poll clk deadline msg s =
     map_option (\<lambda>r. res_bind r (\<lambda>s'. res_bind (py_assert (ok s') msg) (\<lambda>_. Inr s')))
       (collect_until enough poll clk deadline s 0)"

definition received_poll :: "(nat \<Rightarrow> pyval res) \<Rightarrow> nat \<Rightarrow> pyval list \<Rightarrow> pyval list res" where
  "received_poll answer k records =
     res_bind (answer k) (\<lambda>v. res_bind (py_iter v) (\<lambda>vs. Inr (records @ vs)))"

definition collect_received ::
    "(nat \<Rightarrow> pyval res) \<Rightarrow> rat \<Rightarrow> (nat \<Rightarrow> rat) \<Rightarrow> nat \<Rightarrow> rat \<Rightarrow> pyval list res option" where
  "collect_received answer t0 clk count timeout =
     collect_checked (\<lambda>rs. count \<le> length rs) (\<lambda>rs. count \<le> length rs) (received_poll answer) clk (t0 + timeout)
       ''collected received records, expected more'' []"

text \<open>A 404 means that nothing is buffered yet; every other exception goes on.\<close>

definition unless_404 :: "'s \<Rightarrow> 's res \<Rightarrow> 's res" where
  "unless_404 s r =
     (case r of
        Inr s' \<Rightarrow> Inr s'
      | Inl ex \<Rightarrow> if isa ex Exception \<and> startswith (text_of ex) ''Error: 404 '' then Inr s else Inl ex)"

definition events_in :: "pyval \<Rightarrow> pyval list res" where
  "events_in status = res_bind (py_key ''events'' status) py_iter"

definition kinds_poll :: "(nat \<Rightarrow> pyval res) \<Rightarrow> nat \<Rightarrow> pyval list \<Rightarrow> pyval list res" where
  "kinds_poll answer k seen =
     unless_404 seen
       (res_bind (answer k) (\<lambda>status.
        res_bind (events_in status) (\<lambda>es.
        res_bind (res_map (\<lambda>e. res_bind (py_key ''kind'' e) hash_key) es) (\<lambda>ks. Inr (remdups (seen @ ks))))))"

definition all_seen :: "string list \<Rightarrow> pyval list \<Rightarrow> bool" where
  "all_seen kinds seen = list_all (\<lambda>k. PStr k \<in> set seen) kinds"

definition collect_send_kinds ::
    "(nat \<Rightarrow> pyval res) \<Rightarrow> rat \<Rightarrow> (nat \<Rightarrow> rat) \<Rightarrow> string list \<Rightarrow> rat \<Rightarrow> pyval list res option" where
  "collect_send_kinds answer t0 clk kinds timeout =
     collect_checked (all_seen kinds) (all_seen kinds) (kinds_poll answer) clk (t0 + timeout)
       ''send events: some kinds are missing'' []"

definition events_poll :: "(nat \<Rightarrow> pyval res) \<Rightarrow> nat \<Rightarrow> (pyval \<times> pyval) list \<Rightarrow> (pyval \<times> pyval) list res" where
  "events_poll answer k evs =
     unless_404 evs
       (res_bind (answer k) (\<lambda>status.
        res_bind (events_in status) (\<lambda>es.
        res_bind (res_map (\<lambda>e. res_bind (py_key ''kind'' e) (\<lambda>kd. res_bind (py_get ''error'' e) (\<lambda>er. Inr (kd, er)))) es) (\<lambda>ps.
          Inr (evs @ ps)))))"

definition any_final :: "(pyval \<times> pyval) list \<Rightarrow> bool" where
  "any_final evs = list_ex (\<lambda>(kd, _). kd = PStr ''sent'' \<or> kd = PStr ''error'') evs"

definition collect_send_events ::
    "(nat \<Rightarrow> pyval res) \<Rightarrow> rat \<Rightarrow> (nat \<Rightarrow> rat) \<Rightarrow> rat \<Rightarrow> (pyval \<times> pyval) list res option" where
  "collect_send_events answer t0 clk timeout =
     collect_checked any_final any_final (events_poll answer) clk (t0 + timeout) ''send events: no sent or error'' []"

text \<open>The loop over the statuses of one answer; \<open>sent\<close> is a set, kept as a list without repetitions.\<close>

fun add_sent :: "pyval list \<Rightarrow> pyval list \<Rightarrow> pyval list res" where
  "add_sent sent [] = Inr sent"
| "add_sent sent (status # rest) =
     res_bind (events_in status) (\<lambda>es.
     res_bind (find_res (\<lambda>e. res_bind (py_key ''kind'' e) (\<lambda>kd. Inr (kd = PStr ''sent''))) es) (\<lambda>hit.
       if hit = None then add_sent sent rest
       else res_bind (py_key ''requestId'' status) (\<lambda>r.
            res_bind (hash_key r) (\<lambda>key. add_sent (if key \<in> set sent then sent else sent @ [key]) rest))))"

definition sent_poll :: "(nat \<Rightarrow> pyval res) \<Rightarrow> nat \<Rightarrow> pyval list \<Rightarrow> pyval list res" where
  "sent_poll answer k sent = res_bind (answer k) (\<lambda>v. res_bind (py_iter v) (add_sent sent))"

definition collect_sent_request_ids ::
    "(nat \<Rightarrow> pyval res) \<Rightarrow> rat \<Rightarrow> (nat \<Rightarrow> rat) \<Rightarrow> nat \<Rightarrow> rat \<Rightarrow> pyval list res option" where
  "collect_sent_request_ids answer t0 clk count timeout =
     collect_checked (\<lambda>sent. count \<le> length sent) (\<lambda>sent. length sent = count) (sent_poll answer) clk (t0 + timeout)
       ''sends confirmed sent within the timeout'' []"

section \<open>The loop ends\<close>

text \<open>The state after \<open>n\<close> polls, as long as none of them raises.\<close>

fun polled :: "(nat \<Rightarrow> 's \<Rightarrow> 's res) \<Rightarrow> 's \<Rightarrow> nat \<Rightarrow> nat \<Rightarrow> 's res" where
  "polled poll s k 0 = Inr s"
| "polled poll s k (Suc n) = res_bind (poll k s) (\<lambda>s'. polled poll s' (Suc k) n)"

lemma collect_until_ends:
  assumes "sleeps stp clk"
  shows "\<exists>n r. collect_until enough poll clk deadline s k = Some r \<and> polled poll s k n = r \<and>
    (\<forall>m < n. \<exists>v. polled poll s k m = Inr v \<and> \<not> enough v) \<and>
    (\<forall>v. r = Inr v \<longrightarrow> enough v \<or> deadline \<le> clk (k + n))"
proof -
  obtain j where "deadline \<le> clk j" using sleeps_passes [OF assms] by blast
  then show ?thesis
  proof (induction "j - k" arbitrary: k s)
    case 0
    then have "deadline \<le> clk k" using sleeps_mono [OF assms, of j k] by simp
    then show ?case by (intro exI [of _ 0] exI [of _ "Inr s"]) (subst collect_until.simps, simp)
  next
    case (Suc d)
    show ?case
    proof (cases "\<not> enough s \<and> clk k < deadline")
      case False
      then show ?thesis by (intro exI [of _ 0] exI [of _ "Inr s"]) (subst collect_until.simps, auto)
    next
      case go: True
      show ?thesis
      proof (cases "poll k s")
        case (Inl e)
        with go show ?thesis
          by (intro exI [of _ "Suc 0"] exI [of _ "Inl e"]) (subst collect_until.simps, simp)
      next
        case (Inr s')
        have "d = j - Suc k" using Suc.hyps(2) by simp
        from Suc.hyps(1) [OF this Suc.prems, of s'] obtain n r where n:
          "collect_until enough poll clk deadline s' (Suc k) = Some r" "polled poll s' (Suc k) n = r"
          "\<forall>m < n. \<exists>v. polled poll s' (Suc k) m = Inr v \<and> \<not> enough v"
          "\<forall>v. r = Inr v \<longrightarrow> enough v \<or> deadline \<le> clk (Suc k + n)" by blast
        have "\<exists>v. polled poll s k m = Inr v \<and> \<not> enough v" if "m < Suc n" for m
          using that go Inr n(3) by (cases m) auto
        moreover have "collect_until enough poll clk deadline s k = Some r"
          using go Inr n(1) by (subst collect_until.simps) simp
        ultimately show ?thesis using Inr n(2,4) by (intro exI [of _ "Suc n"] exI [of _ r]) simp
      qed
    qed
  qed
qed

text \<open>The loop that only collects: the batches of its polls, and how it ended.\<close>

lemma collect_until_batches:
  assumes "sleeps stp clk" and poll: "\<And>k rs. poll k rs = res_bind (g k) (\<lambda>vs. Inr (rs @ vs))"
  shows "\<exists>n batch. (\<forall>i < n. g (k + i) = Inr (batch i)) \<and>
    (\<forall>m < n. length (s @ concat (map batch [0..<m])) < count \<and> clk (k + m) < deadline) \<and>
    (let got = s @ concat (map batch [0..<n]); r = collect_until (\<lambda>rs. count \<le> length rs) poll clk deadline s k in
     count \<le> length got \<and> r = Some (Inr got) \<or>
     length got < count \<and> deadline \<le> clk (k + n) \<and> r = Some (Inr got) \<or>
     length got < count \<and> clk (k + n) < deadline \<and> (\<exists>e. g (k + n) = Inl e \<and> r = Some (Inl e)))"
proof -
  obtain j where "deadline \<le> clk j" using sleeps_passes [OF assms(1)] by blast
  then show ?thesis
  proof (induction "j - k" arbitrary: k s)
    case 0
    then have "deadline \<le> clk k" using sleeps_mono [OF assms(1), of j k] by simp
    then show ?case by (intro exI [of _ 0] exI [of _ "\<lambda>_. []"]) (subst collect_until.simps, simp add: not_le [symmetric])
  next
    case (Suc d)
    show ?case
    proof (cases "length s < count \<and> clk k < deadline")
      case False
      then show ?thesis by (intro exI [of _ 0] exI [of _ "\<lambda>_. []"]) (subst collect_until.simps, auto simp: not_less Let_def)
    next
      case go: True
      show ?thesis
      proof (cases "g k")
        case (Inl e)
        with go show ?thesis
          by (intro exI [of _ 0] exI [of _ "\<lambda>_. []"]) (subst collect_until.simps, simp add: poll not_le)
      next
        case (Inr b)
        let ?r = "\<lambda>s k. collect_until (\<lambda>rs. count \<le> length rs) poll clk deadline s k"
        have step: "?r s k = ?r (s @ b) (Suc k)" using go Inr by (subst collect_until.simps) (simp add: poll not_le)
        have "d = j - Suc k" using Suc.hyps(2) by simp
        from Suc.hyps(1) [OF this Suc.prems, of "s @ b"] obtain n batch where n:
          "\<forall>i < n. g (Suc k + i) = Inr (batch i)"
          "\<forall>m < n. length ((s @ b) @ concat (map batch [0..<m])) < count \<and> clk (Suc k + m) < deadline"
          "let got = (s @ b) @ concat (map batch [0..<n]); r = ?r (s @ b) (Suc k) in
           count \<le> length got \<and> r = Some (Inr got) \<or>
           length got < count \<and> deadline \<le> clk (Suc k + n) \<and> r = Some (Inr got) \<or>
           length got < count \<and> clk (Suc k + n) < deadline \<and> (\<exists>e. g (Suc k + n) = Inl e \<and> r = Some (Inl e))" by blast
        let ?batch = "case_nat b batch"
        have got: "s @ concat (map ?batch [0..<Suc m]) = (s @ b) @ concat (map batch [0..<m])" for m
          by (simp add: map_upt_Suc del: upt_Suc)
        show ?thesis
        proof (intro exI [of _ "Suc n"] exI [of _ ?batch] conjI allI impI)
          show "g (k + i) = Inr (?batch i)" if "i < Suc n" for i using that Inr n(1) by (cases i) auto
          show "length (s @ concat (map ?batch [0..<m])) < count" "clk (k + m) < deadline" if "m < Suc n" for m
            using that go n(2) got [of "m - 1"] by (cases m; simp)+
        qed (use n(3) step got [of n] in \<open>simp only: add_Suc_right add_Suc\<close>)
      qed
    qed
  qed
qed

section \<open>Properties\<close>

text \<open>C32: \<open>collect_received\<close> ends, after some number of polls that each gave a list, none of them made after the
  deadline or when there were enough records already. It returns the records of all its polls, in order and each once,
  as soon as there are enough; it raises \<open>AssertionError\<close> when there are not and the deadline has passed; and when a
  further poll raises, its exception ends the loop at once.\<close>

theorem collect_received_complete:
  assumes "sleeps stp clk"
  shows "\<exists>n batch. (\<forall>k < n. res_bind (answer k) py_iter = Inr (batch k)) \<and>
    (\<forall>m < n. length (concat (map batch [0..<m])) < count \<and> clk m < t0 + timeout) \<and>
    (let got = concat (map batch [0..<n]); r = collect_received answer t0 clk count timeout in
     count \<le> length got \<and> r = Some (Inr got) \<or>
     length got < count \<and> t0 + timeout \<le> clk n \<and> (\<exists>msg. r = Some (Inl (Exn AssertionError msg))) \<or>
     length got < count \<and> clk n < t0 + timeout \<and> (\<exists>e. res_bind (answer n) py_iter = Inl e \<and> r = Some (Inl e)))"
proof -
  have poll: "received_poll answer k rs = res_bind (res_bind (answer k) py_iter) (\<lambda>vs. Inr (rs @ vs))" for k rs
    by (cases "answer k") (simp_all add: received_poll_def)
  obtain n batch where n: "\<forall>i < n. res_bind (answer (0 + i)) py_iter = Inr (batch i)"
    "\<forall>m < n. length ([] @ concat (map batch [0..<m])) < count \<and> clk (0 + m) < t0 + timeout"
    "let got = [] @ concat (map batch [0..<n]);
       r = collect_until (\<lambda>rs. count \<le> length rs) (received_poll answer) clk (t0 + timeout) [] 0 in
     count \<le> length got \<and> r = Some (Inr got) \<or>
     length got < count \<and> t0 + timeout \<le> clk (0 + n) \<and> r = Some (Inr got) \<or>
     length got < count \<and> clk (0 + n) < t0 + timeout \<and> (\<exists>e. res_bind (answer (0 + n)) py_iter = Inl e \<and> r = Some (Inl e))"
    using collect_until_batches [where poll = "received_poll answer" and g = "\<lambda>k. res_bind (answer k) py_iter" and k = 0 and s = "[]" and count = count and deadline = "t0 + timeout", OF assms poll] by blast
  show ?thesis
  proof (intro exI [of _ n] exI [of _ batch] conjI)
    show "\<forall>k < n. res_bind (answer k) py_iter = Inr (batch k)"
      "\<forall>m < n. length (concat (map batch [0..<m])) < count \<and> clk m < t0 + timeout" using n(1,2) by simp_all
    show "let got = concat (map batch [0..<n]); r = collect_received answer t0 clk count timeout in
     count \<le> length got \<and> r = Some (Inr got) \<or>
     length got < count \<and> t0 + timeout \<le> clk n \<and> (\<exists>msg. r = Some (Inl (Exn AssertionError msg))) \<or>
     length got < count \<and> clk n < t0 + timeout \<and> (\<exists>e. res_bind (answer n) py_iter = Inl e \<and> r = Some (Inl e))"
      using n(3) unfolding Let_def collect_received_def collect_checked_def py_assert_def by auto
  qed
qed

theorem collect_received_complete_witness:
  "\<exists>n batch. (\<forall>m < n. length (concat (map batch [0..<m])) < 2) \<and>
     collect_received (\<lambda>k. if k < 1 then Inr (PList [PInt (int k)]) else Inl (Exn Exception ''Error: 500'')) 0 of_nat 2 30 \<noteq> None \<and>
     (\<forall>k < n. res_bind (if k < 1 then Inr (PList [PInt (int k)]) else Inl (Exn Exception ''Error: 500'')) py_iter = Inr (batch k :: pyval list))"
proof -
  have "sleeps 1 of_nat" by (simp add: sleeps_def)
  from collect_received_complete [OF this, of "\<lambda>k. if k < 1 then Inr (PList [PInt (int k)]) else Inl (Exn Exception ''Error: 500'')" 2 0 30]
  show ?thesis unfolding Let_def by blast
qed

text \<open>The status of a request with one event.\<close>

definition sent_status :: "string \<Rightarrow> pyval" where
  "sent_status rid = PDict [(''requestId'', PStr rid), (''events'', PList [PDict [(''kind'', PStr ''sent'')]])]"

lemma add_sent_statuses:
  "distinct rids \<Longrightarrow> set sent \<inter> set (map PStr rids) = {} \<Longrightarrow>
   add_sent sent (map sent_status rids) = Inr (sent @ map PStr rids)"
proof (induction rids arbitrary: sent)
  case (Cons r rids)
  have "add_sent (sent @ [PStr r]) (map sent_status rids) = Inr ((sent @ [PStr r]) @ map PStr rids)"
    using Cons.prems by (intro Cons.IH) auto
  moreover have "events_in (sent_status r) = Inr [PDict [(''kind'', PStr ''sent'')]]" "py_key ''requestId'' (sent_status r) = Inr (PStr r)"
    by (simp_all add: sent_status_def events_in_def)
  ultimately show ?case using Cons.prems by (simp add: hash_key_def)
qed simp

text \<open>\<open>collect_sent_request_ids\<close> is to wait until \<open>count\<close> requests are confirmed; when the first poll
  confirms more than that, it raises, although every request that was asked for has been sent.\<close>

theorem more_confirmations_raise:
  assumes "answer 0 = Inr (PList (map sent_status rids))" "distinct rids" "0 < count" "count < length rids"
    and "clk 0 < t0 + timeout"
  shows "\<exists>msg. collect_sent_request_ids answer t0 clk count timeout = Some (Inl (Exn AssertionError msg))"
proof -
  have "sent_poll answer 0 [] = Inr (map PStr rids)"
    using assms(1,2) add_sent_statuses [of rids "[]"] by (simp add: sent_poll_def)
  moreover have "collect_until (\<lambda>sent. count \<le> length sent) (sent_poll answer) clk (t0 + timeout) (map PStr rids) (Suc 0) =
      Some (Inr (map PStr rids))"
    using assms(4) by (subst collect_until.simps) simp
  ultimately have "collect_until (\<lambda>sent. count \<le> length sent) (sent_poll answer) clk (t0 + timeout) [] 0 = Some (Inr (map PStr rids))"
    using assms(3,5) by (subst collect_until.simps) simp
  then show ?thesis using assms(4) by (simp add: collect_sent_request_ids_def collect_checked_def py_assert_def)
qed

theorem more_confirmations_raise_witness:
  "\<exists>msg. collect_sent_request_ids (\<lambda>_. Inr (PList (map sent_status [''a'', ''b'']))) 0 of_nat 1 60 = Some (Inl (Exn AssertionError msg))"
  by (rule more_confirmations_raise [of _ "[''a'', ''b'']"]) simp_all

section \<open>The steps keep track of the nodes\<close>

lemma keeps_messaging:
  assumes "step_env_ok E"
  shows "keeps tracked messaging_setup" "keeps tracked (setup_main_messaging_nodes E)"
    "keeps tracked (send_and_get_request_id E i body kw)" "keeps tracked (wait_for_live_received_count E i n a)"
  unfolding messaging_setup_def setup_main_messaging_nodes_def setup_store_messaging_node_def
    setup_client_messaging_node_def send_and_get_request_id_def wait_for_live_received_count_def rest_wrappers
  by (intro keeps_rules keeps_common [OF assms] env_config_ok [OF assms])+

end
