(* ===== verification/Steps_Relay.thy ===== *)
theory Steps_Relay
  imports Steps_Common Wrapper_Helpers
begin

text \<open>
  \<open>tests-e2e/src/steps/relay.py\<close>, \<open>sharding.py\<close>, \<open>filter.py\<close> and \<open>light_push.py\<close>: starting and subscribing
  the nodes of a test, publishing a message and checking that it reaches the peers. Parameters with a
  default are options; a test object is the state of \<open>Steps_Common\<close>. Names that two classes share carry
  the class as a prefix.
\<close>

section \<open>Relay\<close>

definition relay_class :: "'w step_env \<Rightarrow> 'w step_env" where
  "relay_class E = E\<lparr>test_pubsub_topic := VALID_PUBSUB_TOPICS ! 1, test_content_topic := ''/test/1/waku-relay/proto'',
     test_payload := ''Relay works!!''\<rparr>"

definition relay_setup :: "('w test, unit) io" where
  "relay_setup = io_bind (set_nodes ''main_nodes'' []) (\<lambda>_. set_nodes ''optional_nodes'' [])"

text \<open>\<open>self.nodeK = WakuNode(image, prefix)\<close>\<close>

definition make_node :: "'w step_env \<Rightarrow> string \<Rightarrow> string \<Rightarrow> ('w test, nat) io" where
  "make_node E a img =
     io_bind (new_waku_node E img (a @ ''_'' @ test_id E)) (\<lambda>i. io_bind (set_node a i) (\<lambda>_. io_return i))"

text \<open>Reading the addresses of the first node into the attributes of the test.\<close>

definition note_addresses :: "nat \<Rightarrow> ('w test, unit) io" where
  "note_addresses i =
     io_bind (of_node i get_enr_uri) (\<lambda>enr.
     io_bind (set_value ''enr_uri'' enr) (\<lambda>_.
     io_bind (of_node i get_multiaddr_with_id) (\<lambda>addr. set_value ''multiaddr_with_id'' (PStr addr))))"

definition setup_main_nodes :: "'w step_env \<Rightarrow> (string, pyval) dict \<Rightarrow> ('w test, unit) io" where
  "setup_main_nodes E kwargs =
     io_bind (make_node E ''node1'' (NODE_1 (environment (cfg E)))) (\<lambda>i.
     io_bind (start_node E i ((''relay'', PStr ''true'') # kwargs)) (\<lambda>_.
     io_bind (note_addresses i) (\<lambda>_.
     io_bind (make_node E ''node2'' (NODE_2 (environment (cfg E)))) (\<lambda>j.
     io_bind (get_value ''enr_uri'') (\<lambda>enr.
     io_bind (start_node E j ((''relay'', PStr ''true'') # (''discv5_bootstrap_node'', enr) # kwargs)) (\<lambda>_.
     io_bind (get_value ''multiaddr_with_id'') (\<lambda>addr.
     io_bind (add_node_peer E j [addr]) (\<lambda>_.
     io_bind (append_node ''main_nodes'' i) (\<lambda>_. append_node ''main_nodes'' j)))))))))"

definition setup_main_relay_nodes :: "'w step_env \<Rightarrow> ('w test, unit) io" where
  "setup_main_relay_nodes E = setup_main_nodes E []"

definition setup_first_relay_node :: "'w step_env \<Rightarrow> (string, pyval) dict \<Rightarrow> ('w test, unit) io" where
  "setup_first_relay_node E kwargs =
     io_bind (make_node E ''node1'' (NODE_1 (environment (cfg E)))) (\<lambda>i.
     io_bind (start_node E i ((''relay'', PStr ''true'') # kwargs)) (\<lambda>_.
     io_bind (note_addresses i) (\<lambda>_. append_node ''main_nodes'' i)))"

definition setup_second_relay_node :: "'w step_env \<Rightarrow> (string, pyval) dict \<Rightarrow> ('w test, unit) io" where
  "setup_second_relay_node E kwargs =
     io_bind (make_node E ''node2'' (NODE_2 (environment (cfg E)))) (\<lambda>j.
     io_bind (get_value ''enr_uri'') (\<lambda>enr.
     io_bind (start_node E j ((''relay'', PStr ''true'') # (''discv5_bootstrap_node'', enr) # kwargs)) (\<lambda>_.
     io_bind (get_value ''multiaddr_with_id'') (\<lambda>addr.
     io_bind (add_node_peer E j [addr]) (\<lambda>_. append_node ''main_nodes'' j)))))"

text \<open>One optional node, started with the given flags; \<open>k\<close> is its number.\<close>

definition add_optional_node ::
    "'w step_env \<Rightarrow> ('w test, (string, pyval) dict) io \<Rightarrow> nat \<times> string \<Rightarrow> ('w test, unit) io" where
  "add_optional_node E flags = (\<lambda>(k, img).
     io_bind (new_waku_node E img (''node'' @ str_nat k @ ''_'' @ test_id E)) (\<lambda>i.
     io_bind flags (\<lambda>kwargs.
     io_bind (start_node E i kwargs) (\<lambda>_.
     io_bind (get_value ''multiaddr_with_id'') (\<lambda>addr.
     io_bind (add_node_peer E i [addr]) (\<lambda>_. append_node ''optional_nodes'' i))))))"

definition optional_relay_flags :: "('w test, (string, pyval) dict) io" where
  "optional_relay_flags =
     io_bind (get_value ''enr_uri'') (\<lambda>enr. io_return [(''relay'', PStr ''true''), (''discv5_bootstrap_node'', enr)])"

definition setup_optional_relay_nodes :: "'w step_env \<Rightarrow> ('w test, unit) io" where
  "setup_optional_relay_nodes E =
     (let extra = ADDITIONAL_NODES (environment (cfg E)) in
      if extra = [] then io_raise (Exn Skipped ''ADDITIONAL_NODES is empty, cannot run test'')
      else io_each (add_optional_node E optional_relay_flags) (List.enumerate 3 (map strip (split_char (CHR '','') extra))))"

definition ensure_relay_subscriptions_on_nodes :: "'w step_env \<Rightarrow> nat list \<Rightarrow> string list \<Rightarrow> ('w test, unit) io" where
  "ensure_relay_subscriptions_on_nodes E is topics =
     io_each (\<lambda>i. ignore (on_node i (node_set_relay_subscriptions (cfg E) (PList (map PStr topics))))) is"

definition subscribe_main_relay_nodes :: "'w step_env \<Rightarrow> ('w test, unit) io" where
  "subscribe_main_relay_nodes E =
     io_bind (get_nodes ''main_nodes'') (\<lambda>is. ensure_relay_subscriptions_on_nodes E is [test_pubsub_topic E])"

definition subscribe_optional_relay_nodes :: "'w step_env \<Rightarrow> ('w test, unit) io" where
  "subscribe_optional_relay_nodes E =
     io_bind (get_nodes ''optional_nodes'') (\<lambda>is. ensure_relay_subscriptions_on_nodes E is [test_pubsub_topic E])"

text \<open>\<open>a == b\<close> on scalars: numbers compare by value.\<close>

definition py_eq :: "pyval \<Rightarrow> pyval \<Rightarrow> bool" where
  "py_eq a b \<longleftrightarrow> a = b \<or> num_of a \<noteq> None \<and> num_of a = num_of b"

text \<open>The messages of an answer on the content topic of the sent message; there must be exactly one, and it
  must be the one that was sent.\<close>

definition on_topic :: "pyval \<Rightarrow> pyval \<Rightarrow> bool res" where
  "on_topic message m =
     res_bind (py_get ''contentTopic'' m) (\<lambda>a. res_bind (py_key ''contentTopic'' message) (\<lambda>b. Inr (py_eq a b)))"

definition check_answer :: "'w step_env \<Rightarrow> pyval \<Rightarrow> pyval \<Rightarrow> unit res" where
  "check_answer E message answer =
     res_bind (py_iter answer) (\<lambda>ms.
     res_bind (filter_res (on_topic message) ms) (\<lambda>test_messages.
     res_bind (py_assert (test_messages \<noteq> []) ''Peer could not find any messages'') (\<lambda>_.
     res_bind (py_assert (length test_messages = 1) ''Expected 1 test message but got more'') (\<lambda>_.
       assert_received_message (load_schema E) (str_of_value E) test_messages message 0))))"

text \<open>\<open>x if x else default\<close> for optional nodes and lists of nodes.\<close>

definition sender_or :: "string \<Rightarrow> nat option \<Rightarrow> ('w test, nat) io" where
  "sender_or a sender = (case sender of Some i \<Rightarrow> io_return i | None \<Rightarrow> get_node a)"

definition peers_or :: "string \<Rightarrow> string \<Rightarrow> (nat \<Rightarrow> bool) \<Rightarrow> nat list option \<Rightarrow> ('w test, nat list) io" where
  "peers_or a b keep peer_list =
     (case peer_list of
        Some (p # ps) \<Rightarrow> io_return (p # ps)
      | _ \<Rightarrow> io_bind (get_nodes a) (\<lambda>xs. io_bind (get_nodes b) (\<lambda>ys. io_return (filter keep (xs @ ys)))))"

abbreviation topic_or :: "'w step_env \<Rightarrow> string option \<Rightarrow> string" where
  "topic_or E t \<equiv> (case t of Some x \<Rightarrow> x | None \<Rightarrow> test_pubsub_topic E)"

definition message_or :: "'w step_env \<Rightarrow> pyval option \<Rightarrow> ('w test, pyval) io" where
  "message_or E m = (case m of Some v \<Rightarrow> io_return v | None \<Rightarrow> create_message E [])"

text \<open>The loop over the peers that all the checks have: fetch, then check the answer.\<close>

definition check_peers :: "'w step_env \<Rightarrow> (nat \<Rightarrow> ('w test, pyval) io) \<Rightarrow> pyval \<Rightarrow> nat list \<Rightarrow> ('w test, unit) io" where
  "check_peers E fetch message peers =
     io_each (\<lambda>p. io_bind (fetch p) (\<lambda>answer. io_lift (check_answer E message answer))) peers"

definition relay_check_published_message ::
    "'w step_env \<Rightarrow> pyval option \<Rightarrow> string option \<Rightarrow> rat \<Rightarrow> nat option \<Rightarrow> nat list option \<Rightarrow> ('w test, unit) io" where
  "relay_check_published_message E message topic propagation sender peer_list =
     io_bind (message_or E message) (\<lambda>msg.
     io_bind (sender_or ''node1'' sender) (\<lambda>s.
     io_bind (peers_or ''main_nodes'' ''optional_nodes'' (\<lambda>p. p \<noteq> s) peer_list) (\<lambda>peers.
     io_bind (on_node s (node_send_relay_message (cfg E) msg (topic_or E topic))) (\<lambda>_.
     io_bind (step_delay E propagation) (\<lambda>_.
       check_peers E (\<lambda>p. on_node p (node_get_relay_messages (cfg E) (topic_or E topic))) msg peers)))))"

definition publish_and_check_relay_peer ::
    "'w step_env \<Rightarrow> string option \<Rightarrow> nat option \<Rightarrow> nat list option \<Rightarrow> ('w test, unit) io" where
  "publish_and_check_relay_peer E topic sender peer_list =
     io_bind (on_outside (read_s E)) (\<lambda>now.
       relay_check_published_message E
         (Some (PDict [(''payload'', PStr (b64encode (test_payload E))), (''contentTopic'', PStr (test_content_topic E)),
                       (''timestamp'', PInt \<lfloor>now * 1000000000\<rfloor>)]))
         topic (1/10) sender peer_list)"

definition wait_for_published_message_to_reach_relay_peer ::
    "'w step_env \<Rightarrow> rat \<Rightarrow> rat \<Rightarrow> string option \<Rightarrow> nat option \<Rightarrow> nat list option \<Rightarrow> ('w test, unit) io" where
  "wait_for_published_message_to_reach_relay_peer E timeout_duration time_between_retries topic sender peer_list =
     retry_unit E timeout_duration time_between_retries (publish_and_check_relay_peer E topic sender peer_list)"

definition relay_warm_up :: "'w step_env \<Rightarrow> ('w test, unit) io" where
  "relay_warm_up E =
     io_try (wait_for_published_message_to_reach_relay_peer E 120 1 None None None)
       (\<lambda>ex. if isa ex Exception then io_raise (Exn TimeoutError (''WARM UP FAILED WITH: '' @ text_of ex)) else io_raise ex)"

definition relay_wait_for_messages ::
    "'w step_env \<Rightarrow> nat \<Rightarrow> nat \<Rightarrow> string option \<Rightarrow> rat \<Rightarrow> rat \<Rightarrow> ('w test, pyval list) io" where
  "relay_wait_for_messages E i count topic timeout_duration time_between_retries =
     collect_by_polling E (on_node i (node_get_relay_messages (cfg E) (topic_or E topic))) count ''relay''
       timeout_duration time_between_retries"

section \<open>Sharding\<close>

definition sharding_class :: "'w step_env \<Rightarrow> 'w step_env" where
  "sharding_class E = (relay_class E)\<lparr>test_content_topic := ''/myapp/1/latest/proto'', test_payload := ''Sharding works!!''\<rparr>"

definition sharding_setup :: "('w test, unit) io" where
  "sharding_setup = io_bind (set_nodes ''main_nodes'' []) (\<lambda>_. set_nodes ''optional_nodes'' [])"

definition subscribe_relay_node :: "'w step_env \<Rightarrow> nat \<Rightarrow> string list option \<Rightarrow> string list option \<Rightarrow> ('w test, unit) io" where
  "subscribe_relay_node E i cts pts =
     (case cts of
        Some (c # cs) \<Rightarrow> ignore (on_node i (node_set_relay_auto_subscriptions (cfg E) (PList (map PStr (c # cs)))))
      | _ \<Rightarrow>
          (case pts of
             Some (p # ps) \<Rightarrow> ignore (on_node i (node_set_relay_subscriptions (cfg E) (PList (map PStr (p # ps)))))
           | _ \<Rightarrow> io_raise (Exn AttributeError ''content_topics or pubsub_topics need to be passed'')))"

definition sharding_subscribe_main_relay_nodes ::
    "'w step_env \<Rightarrow> string list option \<Rightarrow> string list option \<Rightarrow> ('w test, unit) io" where
  "sharding_subscribe_main_relay_nodes E cts pts =
     io_bind (get_nodes ''main_nodes'') (\<lambda>is. io_each (\<lambda>i. subscribe_relay_node E i cts pts) is)"

definition relay_message :: "'w step_env \<Rightarrow> nat \<Rightarrow> pyval \<Rightarrow> string option \<Rightarrow> ('w test, unit) io" where
  "relay_message E i message topic =
     (case topic of
        Some (c # cs) \<Rightarrow> ignore (on_node i (node_send_relay_message (cfg E) message (c # cs)))
      | _ \<Rightarrow> ignore (on_node i (node_send_relay_auto_message (cfg E) message)))"

definition retrieve_relay_message ::
    "'w step_env \<Rightarrow> nat \<Rightarrow> string option \<Rightarrow> string option \<Rightarrow> ('w test, pyval) io" where
  "retrieve_relay_message E i ct topic =
     (case ct of
        Some (c # cs) \<Rightarrow> on_node i (node_get_relay_auto_messages (cfg E) (c # cs))
      | _ \<Rightarrow>
          (case topic of
             Some (p # ps) \<Rightarrow> on_node i (node_get_relay_messages (cfg E) (p # ps))
           | _ \<Rightarrow> io_raise (Exn AttributeError ''content_topic or pubsub_topic needs to be passed'')))"

definition sharding_wait_for_messages ::
    "'w step_env \<Rightarrow> nat \<Rightarrow> nat \<Rightarrow> string option \<Rightarrow> string option \<Rightarrow> rat \<Rightarrow> rat \<Rightarrow> ('w test, pyval list) io" where
  "sharding_wait_for_messages E i count topic ct timeout_duration time_between_retries =
     (let topic' = (if ct = None \<and> topic = None then Some (test_pubsub_topic E) else topic) in
      collect_by_polling E (retrieve_relay_message E i ct topic') count ''relay'' timeout_duration time_between_retries)"

definition sharding_check_published_message ::
    "'w step_env \<Rightarrow> string option \<Rightarrow> string option \<Rightarrow> nat option \<Rightarrow> nat list option \<Rightarrow> ('w test, unit) io" where
  "sharding_check_published_message E ct topic sender peer_list =
     io_bind (create_message E (case ct of Some (c # cs) \<Rightarrow> [(''contentTopic'', PStr (c # cs))] | _ \<Rightarrow> [])) (\<lambda>msg.
     io_bind (sender_or ''node1'' sender) (\<lambda>s.
     io_bind (peers_or ''main_nodes'' ''optional_nodes'' (\<lambda>p. p \<noteq> s) peer_list) (\<lambda>peers.
     io_bind (relay_message E s msg topic) (\<lambda>_.
       io_each (\<lambda>p.
         io_bind (sharding_wait_for_messages E p 1 topic ct 20 (1/2)) (\<lambda>ms.
         io_lift (res_bind (py_assert (length ms = 1) ''Expected 1 message but got more'') (\<lambda>_.
           assert_received_message (load_schema E) (str_of_value E) ms msg 0)))) peers))))"

section \<open>Filter\<close>

definition filter_class :: "'w step_env \<Rightarrow> 'w step_env" where
  "filter_class E = E\<lparr>test_pubsub_topic := VALID_PUBSUB_TOPICS ! 1, test_content_topic := ''/test/1/waku-filter/proto'',
     test_payload := ''Filter works!!''\<rparr>"

definition filter_setup :: "('w test, unit) io" where
  "filter_setup = io_bind (set_nodes ''main_nodes'' []) (\<lambda>_. set_nodes ''optional_nodes'' [])"

definition relay_node_start :: "'w step_env \<Rightarrow> string \<Rightarrow> ('w test, nat) io" where
  "relay_node_start E img =
     io_bind (make_node E ''node1'' img) (\<lambda>i.
     io_bind (start_node E i [(''relay'', PStr ''true''), (''filter'', PStr ''true'')]) (\<lambda>_.
     io_bind (note_addresses i) (\<lambda>_. io_return i)))"

definition setup_main_relay_node :: "'w step_env \<Rightarrow> ('w test, unit) io" where
  "setup_main_relay_node E = ignore (relay_node_start E (NODE_1 (environment (cfg E))))"

definition filter_flags :: "('w test, (string, pyval) dict) io" where
  "filter_flags =
     io_bind (get_value ''enr_uri'') (\<lambda>enr.
     io_bind (get_value ''multiaddr_with_id'') (\<lambda>addr.
       io_return [(''relay'', PStr ''false''), (''discv5_bootstrap_node'', enr), (''filternode'', addr)]))"

definition setup_main_filter_node :: "'w step_env \<Rightarrow> ('w test, unit) io" where
  "setup_main_filter_node E =
     io_bind (make_node E ''node2'' (NODE_2 (environment (cfg E)))) (\<lambda>j.
     io_bind filter_flags (\<lambda>kwargs.
     io_bind (start_node E j kwargs) (\<lambda>_.
     io_bind (get_value ''multiaddr_with_id'') (\<lambda>addr.
     io_bind (add_node_peer E j [addr]) (\<lambda>_. append_node ''main_nodes'' j)))))"

definition setup_optional_filter_nodes :: "'w step_env \<Rightarrow> string \<Rightarrow> ('w test, unit) io" where
  "setup_optional_filter_nodes E node_list =
     (if node_list = [] then io_raise (Exn Skipped ''ADDITIONAL_NODES/node_list is empty, cannot run test'')
      else io_each (add_optional_node E filter_flags)
             (List.enumerate 3 (map strip (filter (\<lambda>s. s \<noteq> []) (split_char (CHR '','') node_list)))))"

definition create_filter_subscription :: "'w step_env \<Rightarrow> pyval \<Rightarrow> nat option \<Rightarrow> ('w test, pyval) io" where
  "create_filter_subscription E subscription node =
     io_bind (sender_or ''node2'' node) (\<lambda>i. on_node i (node_set_filter_subscriptions (cfg E) subscription))"

definition create_filter_subscription_with_retry :: "'w step_env \<Rightarrow> pyval \<Rightarrow> nat option \<Rightarrow> ('w test, pyval) io" where
  "create_filter_subscription_with_retry E subscription node =
     retry_value E 60 1 (create_filter_subscription E subscription node)"

definition subscription :: "string \<Rightarrow> string list \<Rightarrow> string \<Rightarrow> pyval" where
  "subscription request_id cts topic =
     PDict [(''requestId'', PStr request_id), (''contentFilters'', PList (map PStr cts)), (''pubsubTopic'', PStr topic)]"

definition wait_for_subscriptions_on_main_nodes ::
    "'w step_env \<Rightarrow> string list \<Rightarrow> string option \<Rightarrow> ('w test, unit) io" where
  "wait_for_subscriptions_on_main_nodes E cts topic =
     io_bind (get_node ''node1'') (\<lambda>i.
     io_bind (on_node i (node_set_relay_subscriptions (cfg E) (PList [PStr (topic_or E topic)]))) (\<lambda>_.
     io_bind (on_outside (fresh_uuid E)) (\<lambda>request_id.
     io_bind (create_filter_subscription_with_retry E (subscription request_id cts (topic_or E topic)) None) (\<lambda>r.
     io_lift (res_bind (py_key ''requestId'' r) (\<lambda>rid.
       res_bind (py_assert (py_eq rid (PStr request_id)) []) (\<lambda>_.
       res_bind (py_key ''statusDesc'' r) (\<lambda>d. py_assert (py_eq d (PStr ''OK'')) []))))))))"

definition subscribe_main_nodes :: "'w step_env \<Rightarrow> ('w test, unit) io" where
  "subscribe_main_nodes E = wait_for_subscriptions_on_main_nodes E [test_content_topic E] None"

definition subscribe_optional_filter_nodes ::
    "'w step_env \<Rightarrow> string list \<Rightarrow> string option \<Rightarrow> ('w test, unit) io" where
  "subscribe_optional_filter_nodes E cts topic =
     io_bind (get_nodes ''optional_nodes'') (\<lambda>is.
       io_each (\<lambda>i. io_bind (on_outside (fresh_uuid E)) (\<lambda>request_id.
         ignore (create_filter_subscription_with_retry E (subscription request_id cts (topic_or E topic)) (Some i)))) is)"

text \<open>The pubsub topic is an argument that the body does not use.\<close>

definition filter_get_messages :: "'w step_env \<Rightarrow> string \<Rightarrow> string option \<Rightarrow> nat option \<Rightarrow> ('w test, pyval) io" where
  "filter_get_messages E ct topic node =
     io_bind (sender_or ''node2'' node) (\<lambda>i.
     io_bind (of_node i (\<lambda>n. Inr (is_nwaku n))) (\<lambda>nw.
       if nw then on_node i (node_get_filter_messages (cfg E) ct None)
       else io_raise (Exn NotImplementedError ''Not implemented for this node type'')))"

text \<open>\<open>message["contentTopic"]\<close> as the path of a request.\<close>

definition content_topic_of :: "pyval \<Rightarrow> string res" where
  "content_topic_of message =
     res_bind (py_key ''contentTopic'' message) (\<lambda>v.
       case v of PStr s \<Rightarrow> Inr s | _ \<Rightarrow> Inl (Exn TypeError ''quote_from_bytes() expected bytes''))"

definition filter_check_published_message ::
    "'w step_env \<Rightarrow> pyval option \<Rightarrow> string option \<Rightarrow> rat \<Rightarrow> nat option \<Rightarrow> nat list option \<Rightarrow> ('w test, unit) io" where
  "filter_check_published_message E message topic propagation sender peer_list =
     io_bind (message_or E message) (\<lambda>msg.
     io_bind (sender_or ''node1'' sender) (\<lambda>s.
     io_bind (peers_or ''main_nodes'' ''optional_nodes'' (\<lambda>_. True) peer_list) (\<lambda>peers.
     io_bind (on_node s (node_send_relay_message (cfg E) msg (topic_or E topic))) (\<lambda>_.
     io_bind (step_delay E propagation) (\<lambda>_.
       check_peers E (\<lambda>p. io_bind (io_lift (content_topic_of msg)) (\<lambda>ct.
         filter_get_messages E ct (Some (topic_or E topic)) (Some p))) msg peers)))))"

definition wait_for_filter_messages ::
    "'w step_env \<Rightarrow> string \<Rightarrow> nat \<Rightarrow> string option \<Rightarrow> nat option \<Rightarrow> rat \<Rightarrow> rat \<Rightarrow> ('w test, pyval list) io" where
  "wait_for_filter_messages E ct count topic node timeout_duration time_between_retries =
     collect_by_polling E (filter_get_messages E ct topic node) count ''filter'' timeout_duration time_between_retries"

section \<open>Light push\<close>

definition light_push_class :: "'w step_env \<Rightarrow> 'w step_env" where
  "light_push_class E = E\<lparr>test_content_topic := ''/myapp/1/latest/proto'', test_pubsub_topic := VALID_PUBSUB_TOPICS ! 0,
     test_payload := ''Light push works!!''\<rparr>"

definition light_push_setup :: "('w test, unit) io" where
  "light_push_setup =
     io_bind (set_nodes ''main_receiving_nodes'' []) (\<lambda>_.
     io_bind (set_nodes ''optional_nodes'' []) (\<lambda>_. set_value ''multiaddr_list'' (PList [])))"

text \<open>\<open>kwargs[k] == "true"\<close>\<close>

definition flag_on :: "(string, pyval) dict \<Rightarrow> string \<Rightarrow> bool res" where
  "flag_on kwargs k =
     (case map_of kwargs k of None \<Rightarrow> Inl (Exn KeyError (repr_str k)) | Some v \<Rightarrow> Inr (v = PStr ''true''))"

text \<open>\<open>if kwargs[k] == "true": self.a.extend([node])\<close>\<close>

definition note_if :: "(string, pyval) dict \<Rightarrow> string \<Rightarrow> string \<Rightarrow> nat \<Rightarrow> ('w test, unit) io" where
  "note_if kwargs k a i = io_bind (io_lift (flag_on kwargs k)) (\<lambda>b. if b then append_node a i else io_return ())"

text \<open>\<open>self.multiaddr_list\<close>, and its first element.\<close>

definition multiaddr_list :: "('w test, pyval list) io" where
  "multiaddr_list = io_bind (get_value ''multiaddr_list'') (\<lambda>v. io_lift (py_iter v))"

definition first_multiaddr :: "('w test, pyval) io" where
  "first_multiaddr = io_bind multiaddr_list (\<lambda>ms. io_lift (py_nth ms 0))"

text \<open>\<open>self.multiaddr_list.extend([node.get_multiaddr_with_id()])\<close>\<close>

definition note_multiaddr :: "nat \<Rightarrow> ('w test, unit) io" where
  "note_multiaddr i = io_bind (of_node i get_multiaddr_with_id) (\<lambda>addr. append_value ''multiaddr_list'' (PStr addr))"

definition start_receiving_node :: "'w step_env \<Rightarrow> string \<Rightarrow> nat \<Rightarrow> (string, pyval) dict \<Rightarrow> ('w test, nat) io" where
  "start_receiving_node E img k kwargs =
     io_bind (new_waku_node E img (''receiving_node'' @ str_nat k @ ''_'' @ test_id E)) (\<lambda>i.
     io_bind (start_node E i kwargs) (\<lambda>_.
     io_bind (note_if kwargs ''relay'' ''main_receiving_nodes'' i) (\<lambda>_.
     io_bind multiaddr_list (\<lambda>ms.
     io_bind (add_node_peer E i ms) (\<lambda>_.
     io_bind (note_multiaddr i) (\<lambda>_. io_return i))))))"

definition setup_lightpush_node :: "'w step_env \<Rightarrow> string \<Rightarrow> nat \<Rightarrow> (string, pyval) dict \<Rightarrow> ('w test, nat) io" where
  "setup_lightpush_node E img k kwargs =
     io_bind (new_waku_node E img (''lightpush_node'' @ str_nat k @ ''_'' @ test_id E)) (\<lambda>i.
     io_bind (get_value ''enr_uri'') (\<lambda>enr.
     io_bind first_multiaddr (\<lambda>addr.
     io_bind (start_node E i ((''discv5_bootstrap_node'', enr) # (''lightpushnode'', addr) # kwargs)) (\<lambda>_.
     io_bind (note_if kwargs ''relay'' ''main_receiving_nodes'' i) (\<lambda>_.
     io_bind multiaddr_list (\<lambda>ms.
     io_bind (add_node_peer E i ms) (\<lambda>_. io_return i)))))))"

abbreviation push_flags :: "string \<Rightarrow> string \<Rightarrow> (string, pyval) dict \<Rightarrow> (string, pyval) dict" where
  "push_flags lightpush relay kwargs \<equiv> (''lightpush'', PStr lightpush) # (''relay'', PStr relay) # kwargs"

definition setup_first_receiving_node :: "'w step_env \<Rightarrow> string \<Rightarrow> string \<Rightarrow> (string, pyval) dict \<Rightarrow> ('w test, unit) io" where
  "setup_first_receiving_node E lightpush relay kwargs =
     io_bind (start_receiving_node E (NODE_1 (environment (cfg E))) 1 (push_flags lightpush relay kwargs)) (\<lambda>i.
     io_bind (set_node ''receiving_node1'' i) (\<lambda>_.
     io_bind (of_node i get_enr_uri) (\<lambda>enr. set_value ''enr_uri'' enr)))"

definition setup_second_receiving_node :: "'w step_env \<Rightarrow> string \<Rightarrow> string \<Rightarrow> (string, pyval) dict \<Rightarrow> ('w test, unit) io" where
  "setup_second_receiving_node E lightpush relay kwargs =
     io_bind (start_receiving_node E (NODE_1 (environment (cfg E))) 2 (push_flags lightpush relay kwargs))
       (set_node ''receiving_node2'')"

definition setup_first_lightpush_node :: "'w step_env \<Rightarrow> string \<Rightarrow> string \<Rightarrow> (string, pyval) dict \<Rightarrow> ('w test, unit) io" where
  "setup_first_lightpush_node E lightpush relay kwargs =
     io_bind (setup_lightpush_node E (NODE_2 (environment (cfg E))) 1 (push_flags lightpush relay kwargs))
       (set_node ''light_push_node1'')"

definition setup_second_lightpush_node :: "'w step_env \<Rightarrow> string \<Rightarrow> string \<Rightarrow> (string, pyval) dict \<Rightarrow> ('w test, unit) io" where
  "setup_second_lightpush_node E lightpush relay kwargs =
     io_bind (setup_lightpush_node E (NODE_2 (environment (cfg E))) 2 (push_flags lightpush relay kwargs))
       (set_node ''light_push_node2'')"

definition setup_main_lightpush_nodes :: "'w step_env \<Rightarrow> ('w test, unit) io" where
  "setup_main_lightpush_nodes E =
     io_bind (setup_first_receiving_node E ''true'' ''true'' []) (\<lambda>_.
     io_bind (setup_second_receiving_node E ''false'' ''true'' []) (\<lambda>_.
       setup_first_lightpush_node E ''true'' ''true'' []))"

text \<open>The node argument is a node, a list of nodes or nothing.\<close>

definition subscribe_via_relay ::
    "'w step_env \<Rightarrow> string \<Rightarrow> nat list option \<Rightarrow> string list option \<Rightarrow> ('w test, unit) io" where
  "subscribe_via_relay E dflt nodes topics =
     io_bind (case nodes of Some (i # is) \<Rightarrow> io_return (i # is) | _ \<Rightarrow> get_nodes dflt) (\<lambda>is.
       ensure_relay_subscriptions_on_nodes E is (case topics of Some ts \<Rightarrow> ts | None \<Rightarrow> [test_pubsub_topic E]))"

definition light_push_subscribe_via_relay ::
    "'w step_env \<Rightarrow> nat list option \<Rightarrow> string list option \<Rightarrow> ('w test, unit) io" where
  "light_push_subscribe_via_relay E = subscribe_via_relay E ''main_receiving_nodes''"

definition subscribe_main_lightpush_nodes :: "'w step_env \<Rightarrow> ('w test, unit) io" where
  "subscribe_main_lightpush_nodes E = light_push_subscribe_via_relay E None None"

definition subscribe_via_filter ::
    "'w step_env \<Rightarrow> nat \<Rightarrow> string option \<Rightarrow> string list option \<Rightarrow> ('w test, unit) io" where
  "subscribe_via_filter E i topic cts =
     ignore (on_node i (node_set_filter_subscriptions (cfg E)
       (subscription ''1'' (case cts of Some ts \<Rightarrow> ts | None \<Rightarrow> [test_content_topic E]) (topic_or E topic))))"

definition create_payload ::
    "'w step_env \<Rightarrow> string option \<Rightarrow> pyval option \<Rightarrow> (string, pyval) dict \<Rightarrow> ('w test, pyval) io" where
  "create_payload E topic message kwargs =
     io_bind (message_or E message) (\<lambda>msg.
       io_return (PDict (dict_update [(''pubsubTopic'', PStr (topic_or E topic)), (''message'', msg)] kwargs)))"

definition light_push_check_pushed_message ::
    "'w step_env \<Rightarrow> rat \<Rightarrow> string option \<Rightarrow> pyval option \<Rightarrow> rat option \<Rightarrow> nat option \<Rightarrow> nat list option \<Rightarrow> ('w test, unit) io" where
  "light_push_check_pushed_message E default_propagation topic message propagation sender peer_list =
     io_bind (sender_or ''light_push_node1'' sender) (\<lambda>s.
     io_bind (\<lambda>t. (Inr (map_of (node_attr t) ''receiving_node1''), t)) (\<lambda>service.
     io_bind (peers_or ''main_receiving_nodes'' ''optional_nodes'' (\<lambda>p. p \<noteq> s \<and> Some p \<noteq> service) peer_list) (\<lambda>peers.
     io_bind (create_payload E topic message []) (\<lambda>payload.
     io_bind (on_node s (node_send_light_push_message (cfg E) payload)) (\<lambda>_.
     io_bind (step_delay E (case propagation of None \<Rightarrow> default_propagation | Some d \<Rightarrow> d)) (\<lambda>_.
     io_bind (io_lift (py_key ''message'' payload)) (\<lambda>msg.
       check_peers E (\<lambda>p. on_node p (node_get_relay_messages (cfg E) (topic_or E topic))) msg peers)))))))"

definition subscribe_and_light_push_with_retry :: "'w step_env \<Rightarrow> rat \<Rightarrow> nat option \<Rightarrow> ('w test, unit) io" where
  "subscribe_and_light_push_with_retry E default_propagation sender =
     retry_unit E 120 1
       (io_bind (light_push_subscribe_via_relay E None None) (\<lambda>_.
          light_push_check_pushed_message E default_propagation None None None sender None))"

section \<open>What a passed check means\<close>

lemma io_each_all:
  "io_each f xs w = (Inr u, w') \<Longrightarrow> x \<in> set xs \<Longrightarrow> \<exists>v v'. f x v = (Inr (), v')"
proof (induction xs arbitrary: w)
  case (Cons y ys)
  obtain r v where f: "f y w = (r, v)" by fastforce
  with Cons.prems have r: "r = Inr ()" and ys: "io_each f ys v = (Inr u, w')" by (auto split: sum.splits)
  show ?case
  proof (cases "x = y")
    case True
    with f r show ?thesis by blast
  next
    case False
    with Cons.prems(2) have "x \<in> set ys" by simp
    with ys show ?thesis by (rule Cons.IH)
  qed
qed simp

lemma io_bind_InrD:
  assumes "io_bind m f w = (Inr b, w')"
  obtains a v where "m w = (Inr a, v)" "f a v = (Inr b, w')"
  using assms by (auto simp: io_bind_def split: prod.splits sum.splits)

text \<open>The answer holds exactly one message on the topic of \<open>msg\<close>, with its payload.\<close>

definition delivered :: "'w step_env \<Rightarrow> pyval \<Rightarrow> pyval \<Rightarrow> bool" where
  "delivered E msg answer \<longleftrightarrow>
     (\<exists>ms m r. py_iter answer = Inr ms \<and> filter (\<lambda>x. on_topic msg x = Inr True) ms = [m] \<and> load_schema E m = Inr r \<and>
        py_key ''payload'' msg = Inr (PStr (msg_payload r)) \<and> py_key ''contentTopic'' msg = Inr (PStr (msg_contentTopic r)))"

lemma check_answer_delivered:
  assumes "check_answer E msg answer = Inr ()"
  shows "delivered E msg answer"
proof -
  obtain ms tm where ms: "py_iter answer = Inr ms" "filter_res (on_topic msg) ms = Inr tm" "length tm = 1"
    and chk: "assert_received_message (load_schema E) (str_of_value E) tm msg 0 = Inr ()"
    using assms by (auto simp: check_answer_def res_bind_Inr_iff)
  then obtain m where m: "tm = [m]" by (auto simp: length_Suc_conv)
  with chk obtain r where "load_schema E m = Inr r" "check_message (str_of_value E) r msg = Inr ()"
    by (auto simp: assert_received_message_def res_bind_Inr_iff py_nth_def)
  moreover note check_message_fields [OF this(2)]
  moreover have "filter (\<lambda>x. on_topic msg x = Inr True) ms = [m]" using filter_res_filter [OF ms(2)] m by simp
  ultimately show ?thesis
    unfolding delivered_def using ms(1) by (intro exI [of _ ms] exI [of _ m] exI [of _ r]) simp
qed

lemma check_peers_delivered:
  assumes "check_peers E fetch msg peers t = (Inr (), t')" "p \<in> set peers"
  shows "\<exists>u u' answer. fetch p u = (Inr answer, u') \<and> delivered E msg answer"
proof -
  obtain v v' where "io_bind (fetch p) (\<lambda>answer. io_lift (check_answer E msg answer)) v = (Inr (), v')"
    using io_each_all assms unfolding check_peers_def by metis
  then show ?thesis
    by (rule io_bind_InrD) (auto simp: io_lift_def intro: check_answer_delivered)
qed

text \<open>C33: when the relay check with a given sender and given peers passes, the message was sent by the sender, and each
  of the peers gave an answer
  with exactly one message on its content topic, the one with the payload that was sent.\<close>

theorem relay_check_sound:
  assumes "relay_check_published_message E (Some msg) topic d (Some s) (Some peers) t = (Inr (), t')" "peers \<noteq> []"
  shows "(\<exists>u u' resp. on_node s (node_send_relay_message (cfg E) msg (topic_or E topic)) u = (Inr resp, u')) \<and>
    (\<forall>p \<in> set peers. \<exists>u u' answer.
       on_node p (node_get_relay_messages (cfg E) (topic_or E topic)) u = (Inr answer, u') \<and> delivered E msg answer)"
proof -
  have p: "peers_or a b keep (Some peers) = io_return peers" for a b keep
    using assms(2) by (cases peers) (simp_all add: peers_or_def)
  have "io_bind (on_node s (node_send_relay_message (cfg E) msg (topic_or E topic))) (\<lambda>_.
     io_bind (step_delay E d) (\<lambda>_.
       check_peers E (\<lambda>p. on_node p (node_get_relay_messages (cfg E) (topic_or E topic))) msg peers)) t = (Inr (), t')"
    using assms(1) by (simp add: relay_check_published_message_def message_or_def sender_or_def p)
  then obtain resp v where send: "on_node s (node_send_relay_message (cfg E) msg (topic_or E topic)) t = (Inr resp, v)"
    and rest: "io_bind (step_delay E d) (\<lambda>_.
       check_peers E (\<lambda>p. on_node p (node_get_relay_messages (cfg E) (topic_or E topic))) msg peers) v = (Inr (), t')"
    by (rule io_bind_InrD)
  from rest obtain u x where "check_peers E (\<lambda>p. on_node p (node_get_relay_messages (cfg E) (topic_or E topic))) msg peers u = (Inr (), t')"
    by (rule io_bind_InrD)
  with send check_peers_delivered show ?thesis by blast
qed

text \<open>A peer that answers with the message that was sent.\<close>

definition sim_sent :: pyval where
  "sim_sent = PDict [(''payload'', PStr ''aGk=''), (''contentTopic'', PStr ''/a/1/b/proto'')]"

definition sim_received :: MessageRpcResponse where
  "sim_received = \<lparr>msg_payload = ''aGk='', msg_contentTopic = ''/a/1/b/proto'', msg_version = None, msg_timestamp = None,
     msg_ephemeral = None, msg_meta = None, msg_proof = PDict [], msg_rateLimitProof = PDict [], msg_rate_limit_proof = PDict []\<rparr>"

abbreviation sim_relay :: "sim step_env" where
  "sim_relay \<equiv> answering_env (PList [sim_sent]) sim_received"

lemma sim_check: "check_answer sim_relay sim_sent (PList [sim_sent]) = Inr ()"
  by (simp add: check_answer_def on_topic_def py_eq_def sim_sent_def sim_received_def assert_received_message_def
      answering_env_def py_nth_def check_message_def check_timestamp_def check_optional_def assert_field_def py_assert_def)

theorem relay_check_sound_witness:
  "\<exists>u u' answer. on_node 1 (node_get_relay_messages (cfg sim_relay) ''/waku/2/rs/198/0'') u = (Inr answer, u') \<and>
     delivered sim_relay sim_sent answer"
proof -
  have "dumpable sim_sent" by (simp add: sim_sent_def byte_def)
  then obtain resp where "on_node 0 (node_send_relay_message (cfg sim_relay) sim_sent (test_pubsub_topic sim_relay)) sim_test = (Inr resp, sim_test)"
    using answering_post [OF _ sim_nodes_started] unfolding node_send_relay_message_def send_relay_message_def sim_sent_def by blast
  moreover have "on_node 1 (node_get_relay_messages (cfg sim_relay) (test_pubsub_topic sim_relay)) t = (Inr (PList [sim_sent]), t)"
    if "started (nodes_of t 1)" for t
    unfolding node_get_relay_messages_def get_relay_messages_def using that by (rule answering_get)
  ultimately have "\<exists>t'. relay_check_published_message sim_relay (Some sim_sent) None 0 (Some 0) (Some [1]) sim_test = (Inr (), t')"
    by (simp add: relay_check_published_message_def message_or_def sender_or_def peers_or_def check_peers_def io_defs
        step_delay_def on_outside_def sim_check del: One_nat_def)
  moreover have "test_pubsub_topic sim_relay = ''/waku/2/rs/198/0''" by (simp add: answering_env_def sim_env_def)
  ultimately show ?thesis using relay_check_sound [of sim_relay sim_sent None 0 0 "[1]" sim_test] by auto
qed

section \<open>The steps keep track of the nodes\<close>

lemma keeps_make_node [keeps_rules]: "keeps tracked (make_node E a img)"
  unfolding make_node_def by (intro keeps_rules)

lemma keeps_note_addresses [keeps_rules]: "keeps tracked (note_addresses i)"
  unfolding note_addresses_def by (intro keeps_rules)

lemma keeps_flags [keeps_rules]: "keeps tracked optional_relay_flags" "keeps tracked filter_flags"
  unfolding optional_relay_flags_def filter_flags_def by (intro keeps_rules)+

lemma keeps_or [keeps_rules]: "keeps tracked (sender_or a s)" "keeps tracked (peers_or a b f ps)"
  unfolding sender_or_def peers_or_def by (auto split: option.splits list.splits intro!: keeps_rules)

lemma keeps_optional_node:
  assumes "step_env_ok E" "keeps tracked flags"
  shows "keeps tracked (add_optional_node E flags p)"
  unfolding add_optional_node_def
  by (cases p) (auto intro!: keeps_rules keeps_common assms env_config_ok)

lemma keeps_relay_setup:
  assumes "step_env_ok E"
  shows "keeps tracked relay_setup" "keeps tracked (setup_main_nodes E kw)" "keeps tracked (setup_first_relay_node E kw)"
    "keeps tracked (setup_second_relay_node E kw)" "keeps tracked (setup_optional_relay_nodes E)"
  unfolding relay_setup_def setup_main_nodes_def setup_first_relay_node_def setup_second_relay_node_def
    setup_optional_relay_nodes_def Let_def
  by (intro keeps_rules keeps_optional_node keeps_common assms env_config_ok)+

end
