(* ===== verification/Steps_Store.thy ===== *)
theory Steps_Store
  imports Steps_Relay
begin

text \<open>
  \<open>tests-e2e/src/steps/store.py\<close> and \<open>fleet.py\<close>: publishing to nodes that store, asking them for the
  messages, comparing the answers with what was sent, and the same over the public test fleet. The long
  argument lists of the queries are the record \<open>store_query\<close>.
\<close>

section \<open>Store\<close>

definition store_class :: "'w step_env \<Rightarrow> 'w step_env" where
  "store_class E = E\<lparr>test_content_topic := ''/myapp/1/latest/proto'', test_pubsub_topic := VALID_PUBSUB_TOPICS ! 0,
     test_payload := ''Store works!!''\<rparr>"

definition store_setup :: "('w test, unit) io" where
  "store_setup =
     io_bind (set_nodes ''main_publishing_nodes'' []) (\<lambda>_.
     io_bind (set_nodes ''store_nodes'' []) (\<lambda>_.
     io_bind (set_nodes ''optional_nodes'' []) (\<lambda>_. set_value ''multiaddr_list'' (PList []))))"

definition start_publishing_node :: "'w step_env \<Rightarrow> string \<Rightarrow> nat \<Rightarrow> (string, pyval) dict \<Rightarrow> ('w test, nat) io" where
  "start_publishing_node E img k kwargs =
     io_bind (new_waku_node E img (''publishing_node'' @ str_nat k @ ''_'' @ test_id E)) (\<lambda>i.
     io_bind (start_node E i kwargs) (\<lambda>_.
     io_bind (note_if kwargs ''relay'' ''main_publishing_nodes'' i) (\<lambda>_.
     io_bind (note_if kwargs ''store'' ''store_nodes'' i) (\<lambda>_.
     io_bind multiaddr_list (\<lambda>ms.
     io_bind (add_node_peer E i ms) (\<lambda>_.
     io_bind (note_multiaddr i) (\<lambda>_. io_return i)))))))"

definition setup_store_node :: "'w step_env \<Rightarrow> string \<Rightarrow> nat \<Rightarrow> (string, pyval) dict \<Rightarrow> ('w test, nat) io" where
  "setup_store_node E img k kwargs =
     io_bind (new_waku_node E img (''store_node'' @ str_nat k @ ''_'' @ test_id E)) (\<lambda>i.
     io_bind (get_value ''enr_uri'') (\<lambda>enr.
     io_bind first_multiaddr (\<lambda>addr.
     io_bind (start_node E i ((''discv5_bootstrap_node'', enr) # (''storenode'', addr) # kwargs)) (\<lambda>_.
     io_bind (note_if kwargs ''relay'' ''main_publishing_nodes'' i) (\<lambda>_.
     io_bind (append_node ''store_nodes'' i) (\<lambda>_.
     io_bind multiaddr_list (\<lambda>ms.
     io_bind (add_node_peer E i ms) (\<lambda>_. io_return i))))))))"

abbreviation store_flags :: "string \<Rightarrow> string \<Rightarrow> (string, pyval) dict \<Rightarrow> (string, pyval) dict" where
  "store_flags store relay kwargs \<equiv> (''store'', PStr store) # (''relay'', PStr relay) # kwargs"

definition setup_first_publishing_node :: "'w step_env \<Rightarrow> string \<Rightarrow> string \<Rightarrow> (string, pyval) dict \<Rightarrow> ('w test, unit) io" where
  "setup_first_publishing_node E store relay kwargs =
     io_bind (start_publishing_node E (NODE_1 (environment (cfg E))) 1 (store_flags store relay kwargs)) (\<lambda>i.
     io_bind (set_node ''publishing_node1'' i) (\<lambda>_.
     io_bind (of_node i get_enr_uri) (\<lambda>enr. set_value ''enr_uri'' enr)))"

definition setup_second_publishing_node :: "'w step_env \<Rightarrow> string \<Rightarrow> string \<Rightarrow> (string, pyval) dict \<Rightarrow> ('w test, unit) io" where
  "setup_second_publishing_node E store relay kwargs =
     io_bind (start_publishing_node E (NODE_1 (environment (cfg E))) 2 (store_flags store relay kwargs))
       (set_node ''publishing_node2'')"

definition setup_first_store_node :: "'w step_env \<Rightarrow> string \<Rightarrow> string \<Rightarrow> (string, pyval) dict \<Rightarrow> ('w test, unit) io" where
  "setup_first_store_node E store relay kwargs =
     io_bind (setup_store_node E (NODE_2 (environment (cfg E))) 1 (store_flags store relay kwargs))
       (set_node ''store_node1'')"

definition store_subscribe_via_relay ::
    "'w step_env \<Rightarrow> nat list option \<Rightarrow> string list option \<Rightarrow> ('w test, unit) io" where
  "store_subscribe_via_relay E = subscribe_via_relay E ''main_publishing_nodes''"

text \<open>The class repeats two methods of the light push steps.\<close>

definition store_subscribe_via_filter ::
    "'w step_env \<Rightarrow> nat \<Rightarrow> string option \<Rightarrow> string list option \<Rightarrow> ('w test, unit) io" where
  "store_subscribe_via_filter E i topic cts =
     ignore (on_node i (node_set_filter_subscriptions (cfg E)
       (subscription ''1'' (case cts of Some ts \<Rightarrow> ts | None \<Rightarrow> [test_content_topic E]) (topic_or E topic))))"

definition store_create_payload ::
    "'w step_env \<Rightarrow> string option \<Rightarrow> pyval option \<Rightarrow> (string, pyval) dict \<Rightarrow> ('w test, pyval) io" where
  "store_create_payload E topic message kwargs =
     io_bind (message_or E message) (\<lambda>msg.
       io_return (PDict (dict_update [(''pubsubTopic'', PStr (topic_or E topic)), (''message'', msg)] kwargs)))"

definition node_setup :: "'w step_env \<Rightarrow> ('w test, unit) io" where
  "node_setup E =
     io_bind (setup_first_publishing_node E ''true'' ''true'' []) (\<lambda>_.
     io_bind (setup_first_store_node E ''true'' ''true'' []) (\<lambda>_.
     io_bind (get_nodes ''main_publishing_nodes'') (\<lambda>is. store_subscribe_via_relay E (Some is) None)))"

text \<open>\<open>via\<close> is \<open>relay\<close> or \<open>lightpush\<close>; another value publishes nothing.\<close>

definition publish_message ::
    "'w step_env \<Rightarrow> string \<Rightarrow> string option \<Rightarrow> pyval option \<Rightarrow> rat \<Rightarrow> nat option \<Rightarrow> ('w test, pyval) io" where
  "publish_message E via topic message propagation sender =
     io_bind (message_or E message) (\<lambda>msg.
     io_bind (set_value ''message'' msg) (\<lambda>_.
     io_bind (sender_or ''publishing_node1'' sender) (\<lambda>s.
     io_bind (if via = ''relay'' then ignore (on_node s (node_send_relay_message (cfg E) msg (topic_or E topic)))
              else if via = ''lightpush'' then
                io_bind (store_create_payload E (Some (topic_or E topic)) (Some msg) []) (\<lambda>payload.
                  ignore (on_node s (node_send_light_push_message (cfg E) payload)))
              else io_return ()) (\<lambda>_.
     io_bind (step_delay E propagation) (\<lambda>_. io_return msg)))))"

definition on_default_topic :: "'w step_env \<Rightarrow> store_query \<Rightarrow> store_query" where
  "on_default_topic E q = q\<lparr>pubsub_topic := Some (topic_or E (pubsub_topic q))\<rparr>"

definition get_messages_from_store :: "'w step_env \<Rightarrow> nat \<Rightarrow> store_query \<Rightarrow> ('w test, StoreResponse) io" where
  "get_messages_from_store E i q =
     io_bind (on_node i (node_get_store_messages (cfg E) (on_default_topic E q))) (\<lambda>v.
     io_bind (of_node i (\<lambda>n. Inr (is_nwaku n))) (\<lambda>nw.
       let r = \<lparr>sr_response = v, sr_nwaku = nw\<rparr> in
       io_lift (res_bind (py_assert (sr_request_id r \<noteq> PNone) ''Request id is missing'') (\<lambda>_.
         res_bind (py_assert (truthy (sr_status_code r)) ''Status code is missing'') (\<lambda>_.
         res_bind (py_assert (truthy (sr_status_desc r)) ''Status desc is missing'') (\<lambda>_. Inr r))))))"

text \<open>The log line before the assertions already takes the length of the messages.\<close>

definition enough_messages :: "StoreResponse \<Rightarrow> nat \<Rightarrow> unit res" where
  "enough_messages r n =
     res_bind (py_len (sr_messages r)) (\<lambda>k.
     res_bind (py_assert (truthy (sr_messages r)) ''Peer could not find any messages'') (\<lambda>_.
       py_assert (n \<le> k) (''Expected at least '' @ str_nat n @ '' messages'')))"

definition store_indices :: "nat \<Rightarrow> int list" where
  "store_indices n = (if n = 1 then [-1] else map int [0..<n])"

definition check_stored :: "'w step_env \<Rightarrow> string \<Rightarrow> string \<Rightarrow> StoreResponse \<Rightarrow> int \<times> pyval \<Rightarrow> unit res" where
  "check_stored E version topic r = (\<lambda>(idx, message).
     if version = ''v1'' then
       res_bind (py_index (sr_messages r) idx) (\<lambda>m.
         assert_received_message (load_schema E) (str_of_value E) [m] message 0)
     else
       res_bind (compute_message_hash E topic message (if sr_nwaku r then ''hex'' else ''base64'')) (\<lambda>expected_hash.
       res_bind (sr_message_hash r idx) (\<lambda>actual_hash.
         py_assert (PStr expected_hash = actual_hash) ''Message hash returned by store does not match'')))"

definition check_response :: "'w step_env \<Rightarrow> string \<Rightarrow> string \<Rightarrow> pyval list \<Rightarrow> StoreResponse \<Rightarrow> unit res" where
  "check_response E version topic messages r =
     res_bind (enough_messages r (length messages)) (\<lambda>_.
       res_each (check_stored E version topic r) (zip (store_indices (length messages)) messages))"

text \<open>\<open>store_node\<close> is a node, a list of nodes or nothing, for which the store nodes of the test stand.\<close>

definition store_nodes_or :: "nat list option \<Rightarrow> ('w test, nat list) io" where
  "store_nodes_or nodes = (case nodes of Some is \<Rightarrow> io_return is | None \<Rightarrow> get_nodes ''store_nodes'')"

definition check_published_message_is_stored ::
    "'w step_env \<Rightarrow> nat list option \<Rightarrow> store_query \<Rightarrow> pyval list option \<Rightarrow> ('w test, unit) io" where
  "check_published_message_is_stored E nodes q messages_to_check =
     io_bind (case messages_to_check of Some ms \<Rightarrow> io_return ms
              | None \<Rightarrow> io_bind (get_value ''message'') (\<lambda>m. io_return [m])) (\<lambda>ms.
     io_bind (store_nodes_or nodes) (\<lambda>is.
       io_each (\<lambda>i.
         io_bind (get_messages_from_store E i q) (\<lambda>r.
         io_bind (set_value ''store_response'' (sr_response r)) (\<lambda>_.
           io_lift (check_response E (store_v q) (topic_or E (pubsub_topic q)) ms r)))) is))"

definition wait_for_published_message_is_stored ::
    "'w step_env \<Rightarrow> rat \<Rightarrow> rat \<Rightarrow> nat list option \<Rightarrow> store_query \<Rightarrow> pyval list option \<Rightarrow> ('w test, unit) io" where
  "wait_for_published_message_is_stored E timeout_duration time_between_retries nodes q messages_to_check =
     retry_unit E timeout_duration time_between_retries (check_published_message_is_stored E nodes q messages_to_check)"

definition check_hashes :: "string list \<Rightarrow> StoreResponse \<Rightarrow> unit res" where
  "check_hashes expected_hashes r =
     res_bind (enough_messages r (length expected_hashes)) (\<lambda>_.
     res_bind (py_len (sr_messages r)) (\<lambda>n.
     res_bind (res_map (\<lambda>i. sr_message_hash r (int i)) [0..<n]) (\<lambda>actual_hashes.
       res_each (\<lambda>h. py_assert (PStr h \<in> set actual_hashes) (''Expected hash '' @ h @ '' not found in store.'')) expected_hashes)))"

definition check_sent_message_is_stored ::
    "'w step_env \<Rightarrow> string list \<Rightarrow> nat list option \<Rightarrow> store_query \<Rightarrow> ('w test, unit) io" where
  "check_sent_message_is_stored E expected_hashes nodes q =
     io_bind (store_nodes_or nodes) (\<lambda>is.
       io_each (\<lambda>i.
         io_bind (get_messages_from_store E i q) (\<lambda>r.
         io_bind (set_value ''store_response'' (sr_response r)) (\<lambda>_.
           io_lift (check_hashes expected_hashes r)))) is)"

section \<open>Fleet\<close>

text \<open>\<open>fleet_setup\<close> gives the test a content topic of its own.\<close>

definition fleet_class :: "string \<Rightarrow> 'w step_env \<Rightarrow> 'w step_env" where
  "fleet_class uuid E = E\<lparr>test_payload := ''Fleet round trip'', test_content_topic := ''/fleet-test/1/'' @ uuid @ ''/proto''\<rparr>"

definition start_fleet_node :: "'w step_env \<Rightarrow> string \<Rightarrow> string \<Rightarrow> ('w test, nat) io" where
  "start_fleet_node E node_name relay =
     io_bind (new_waku_node E (NODE_1 (environment (cfg E))) (node_name @ ''_'' @ test_id E)) (\<lambda>i.
     io_bind (on_node i (start (cfg E) 120
        [(''preset'', PStr FLEET_PRESET), (''enable_kad_discovery'', PStr ''false''),
         (''shard'', PList (map PStr FLEET_SHARDS)), (''relay'', PStr relay), (''filter'', PStr ''false''),
         (''lightpush'', PStr ''false'')])) (\<lambda>_. io_return i))"

definition start_fleet_relay_node :: "'w step_env \<Rightarrow> string \<Rightarrow> ('w test, nat) io" where
  "start_fleet_relay_node E node_name =
     io_bind (start_fleet_node E node_name ''true'') (\<lambda>i.
     io_bind (on_node i (node_set_relay_auto_subscriptions (cfg E) (PList [PStr (test_content_topic E)]))) (\<lambda>_. io_return i))"

definition start_fleet_light_client :: "'w step_env \<Rightarrow> string \<Rightarrow> ('w test, nat) io" where
  "start_fleet_light_client E node_name = start_fleet_node E node_name ''false''"

definition subscribe_through_fleet :: "'w step_env \<Rightarrow> nat \<Rightarrow> rat \<Rightarrow> ('w test, unit) io" where
  "subscribe_through_fleet E i timeout_duration =
     ignore (wait_until (retry_value E timeout_duration 1) truthy [] None
       (on_node i (node_set_filter_subscriptions (cfg E)
          (PDict [(''requestId'', PStr ''1''), (''contentFilters'', PList [PStr (test_content_topic E)])]))))"

text \<open>A response that did not raise is true. A resend of a message that an earlier attempt published is
  refused, and that counts as success.\<close>

definition push_once :: "'w step_env \<Rightarrow> nat \<Rightarrow> pyval \<Rightarrow> ('w test, bool) io" where
  "push_once E i message =
     io_try (io_bind (on_node i (node_send_light_push_message (cfg E) (PDict [(''message'', message)]))) (\<lambda>_. io_return True))
       (\<lambda>ex. if isa ex Exception \<and> str_in ''already-seen'' (text_of ex) then io_return True else io_raise ex)"

definition light_push_through_fleet :: "'w step_env \<Rightarrow> nat \<Rightarrow> pyval \<Rightarrow> rat \<Rightarrow> ('w test, unit) io" where
  "light_push_through_fleet E i message timeout_duration =
     ignore (wait_until (retry_bool E timeout_duration 1) id [] None (push_once E i message))"

definition relay_publish_through_fleet :: "'w step_env \<Rightarrow> nat \<Rightarrow> pyval \<Rightarrow> rat \<Rightarrow> ('w test, unit) io" where
  "relay_publish_through_fleet E i message timeout_duration =
     io_bind (wait_until (retry_value E timeout_duration 1) truthy [] None
       (io_bind (on_node i (node_get_relay_peers_on_shard (cfg E) (PStr (FLEET_SHARDS ! 0)))) (\<lambda>v. io_lift (py_key ''peers'' v)))) (\<lambda>_.
     ignore (wait_until (retry_bool E timeout_duration 1) id [] None
       (io_bind (on_node i (node_send_relay_auto_message (cfg E) message)) (\<lambda>_. io_return True))))"

definition fleet_query :: "string \<Rightarrow> store_query" where
  "fleet_query ct = \<lparr>peer_addr = None, include_data = Some (PStr ''true''), pubsub_topic = None, content_topics = Some ct,
     start_time = None, end_time = None, hashes = None, cursor = None, page_size = None, ascending = None,
     store_v = ''v3'', encode_pubsubtopic = True, extra = []\<rparr>"

definition stored_messages :: "'w step_env \<Rightarrow> nat \<Rightarrow> nat \<Rightarrow> ('w test, pyval) io" where
  "stored_messages E i count =
     io_bind (on_node i (node_get_store_messages (cfg E) (fleet_query (test_content_topic E)))) (\<lambda>v.
       io_lift (res_bind (py_key ''messages'' v) (\<lambda>ms.
         res_bind (py_len ms) (\<lambda>n. Inr (if count \<le> n then ms else PNone)))))"

definition wait_for_fleet_store_messages :: "'w step_env \<Rightarrow> nat \<Rightarrow> nat \<Rightarrow> rat \<Rightarrow> rat \<Rightarrow> ('w test, pyval) io" where
  "wait_for_fleet_store_messages E i count timeout_duration time_between_retries =
     wait_until (retry_value E timeout_duration time_between_retries) truthy []
       (Some (''Expected '' @ str_nat count @ '' stored messages'')) (stored_messages E i count)"

section \<open>What a passed check means\<close>

text \<open>C34: when the store check passes (version 3), every store node that was asked answered with at least as
  many messages as were expected, and the hash that it reports at the place of each expected message, the
  last place for a single message and the place in order otherwise, is the hash of that message.\<close>

theorem stored_check_sound:
  assumes "check_published_message_is_stored E (Some is) q (Some ms) t = (Inr (), t')" "store_v q = ''v3''"
  shows "\<forall>i \<in> set is. \<exists>u u' r k. get_messages_from_store E i q u = (Inr r, u') \<and>
    py_len (sr_messages r) = Inr k \<and> length ms \<le> k \<and>
    (\<forall>(idx, m) \<in> set (zip (store_indices (length ms)) ms). \<exists>h.
       compute_message_hash E (topic_or E (pubsub_topic q)) m (if sr_nwaku r then ''hex'' else ''base64'') = Inr h \<and>
       sr_message_hash r idx = Inr (PStr h))"
proof
  fix i
  assume i: "i \<in> set is"
  let ?body = "\<lambda>i. io_bind (get_messages_from_store E i q) (\<lambda>r.
         io_bind (set_value ''store_response'' (sr_response r)) (\<lambda>_.
           io_lift (check_response E (store_v q) (topic_or E (pubsub_topic q)) ms r)))"
  have "io_each ?body is t = (Inr (), t')"
    using assms(1) by (simp add: check_published_message_is_stored_def store_nodes_or_def)
  from io_each_all [OF this i] obtain v v' where "?body i v = (Inr (), v')" by blast
  then obtain r w where r: "get_messages_from_store E i q v = (Inr r, w)"
    and rest: "io_bind (set_value ''store_response'' (sr_response r)) (\<lambda>_.
           io_lift (check_response E (store_v q) (topic_or E (pubsub_topic q)) ms r)) w = (Inr (), v')"
    by (rule io_bind_InrD)
  from rest have "check_response E ''v3'' (topic_or E (pubsub_topic q)) ms r = Inr ()"
    by (rule io_bind_InrD) (simp add: io_lift_def assms(2))
  then have en: "enough_messages r (length ms) = Inr ()"
    and all: "\<forall>x \<in> set (zip (store_indices (length ms)) ms). check_stored E ''v3'' (topic_or E (pubsub_topic q)) r x = Inr ()"
    by (auto simp: check_response_def res_bind_Inr_iff res_each_Inr)
  from en obtain k where k: "py_len (sr_messages r) = Inr k" "length ms \<le> k"
    by (auto simp: enough_messages_def res_bind_Inr_iff)
  have "\<exists>h. compute_message_hash E (topic_or E (pubsub_topic q)) m (if sr_nwaku r then ''hex'' else ''base64'') = Inr h \<and>
       sr_message_hash r idx = Inr (PStr h)" if "(idx, m) \<in> set (zip (store_indices (length ms)) ms)" for idx m
    using all that by (fastforce simp: check_stored_def res_bind_Inr_iff)
  with r k show "\<exists>u u' r k. get_messages_from_store E i q u = (Inr r, u') \<and>
    py_len (sr_messages r) = Inr k \<and> length ms \<le> k \<and>
    (\<forall>(idx, m) \<in> set (zip (store_indices (length ms)) ms). \<exists>h.
       compute_message_hash E (topic_or E (pubsub_topic q)) m (if sr_nwaku r then ''hex'' else ''base64'') = Inr h \<and>
       sr_message_hash r idx = Inr (PStr h))" by blast
qed

text \<open>A store that answers with the hash of the message.\<close>

definition sim_hash :: string where
  "sim_hash = ''0x'' @ hex (''/t'' @ ''hi'' @ ''/c'' @ be_bytes 8 1)"

definition sim_answer :: pyval where
  "sim_answer = PDict [(''requestId'', PStr ''1''), (''statusCode'', PInt 200), (''statusDesc'', PStr ''OK''),
     (''messages'', PList [PDict [(''messageHash'', PStr sim_hash)]])]"

abbreviation sim_store :: "sim step_env" where
  "sim_store \<equiv> answering_env sim_answer sim_received"

definition sim_query :: store_query where
  "sim_query = (fleet_query ''/c'')\<lparr>pubsub_topic := Some ''/t''\<rparr>"

lemma sim_query_fields: "store_v sim_query = ''v3''" "pubsub_topic sim_query = Some ''/t''"
  by (simp_all add: sim_query_def fleet_query_def)

lemma sim_store_hash: "compute_message_hash sim_store ''/t'' (plain_message ''hi'' ''/c'' 1) ''hex'' = Inr sim_hash"
  by (simp add: compute_hash_plain sim_hash_def answering_env_def sim_env_def)

lemma sim_nwaku: "is_nwaku (nodes_of sim_test i)"
proof -
  have "str_in ''nwaku'' ''quay.io/wakuorg/nwaku''" by code_simp
  then show ?thesis by (simp add: is_nwaku_def sim_test_def new_node_def)
qed

lemma sim_store_answer:
  "get_messages_from_store sim_store 1 sim_query sim_test = (Inr \<lparr>sr_response = sim_answer, sr_nwaku = True\<rparr>, sim_test)"
proof -
  have "on_node 1 (node_get_store_messages (cfg sim_store) (on_default_topic sim_store sim_query)) sim_test = (Inr sim_answer, sim_test)"
    unfolding node_get_store_messages_def get_store_messages_def by (simp add: on_node_def node_call_def io_defs get_self_def
        on_outer_def call_json_def answering_request [OF log_no_payload])
  then show ?thesis
    by (simp add: get_messages_from_store_def io_defs of_node_def sim_nwaku sr_request_id_def sr_status_code_def
        sr_status_desc_def sr_get_def sim_answer_def py_assert_def)
qed

lemma sim_response_fields:
  "sr_messages \<lparr>sr_response = sim_answer, sr_nwaku = True\<rparr> = PList [PDict [(''messageHash'', PStr sim_hash)]]"
  "sr_message_hash \<lparr>sr_response = sim_answer, sr_nwaku = True\<rparr> (-1) = Inr (PStr sim_hash)"
  by (simp_all add: sr_messages_def sr_get_def sr_message_hash_def sim_answer_def py_nth_def)

lemma sim_response_ok:
  "check_response sim_store ''v3'' ''/t'' [plain_message ''hi'' ''/c'' 1] \<lparr>sr_response = sim_answer, sr_nwaku = True\<rparr> = Inr ()"
  by (simp add: check_response_def enough_messages_def store_indices_def check_stored_def sim_store_hash sim_response_fields
      py_assert_def)

theorem stored_check_sound_witness:
  "\<exists>r h. compute_message_hash sim_store ''/t'' (plain_message ''hi'' ''/c'' 1) (if sr_nwaku r then ''hex'' else ''base64'') = Inr h \<and>
     sr_message_hash r (-1) = Inr (PStr h)"
proof -
  have "\<exists>t'. check_published_message_is_stored sim_store (Some [1]) sim_query (Some [plain_message ''hi'' ''/c'' 1]) sim_test = (Inr (), t')"
    by (simp add: check_published_message_is_stored_def store_nodes_or_def io_defs sim_store_answer sim_response_ok
        set_value_def sim_query_fields del: One_nat_def)
  then show ?thesis
    using stored_check_sound [of sim_store "[1]" sim_query "[plain_message ''hi'' ''/c'' 1]" sim_test]
    by (fastforce simp: sim_query_fields store_indices_def)
qed

section \<open>The steps keep track of the nodes\<close>

lemma keeps_note [keeps_rules]:
  "keeps tracked (note_if kw k a i)" "keeps tracked multiaddr_list" "keeps tracked first_multiaddr" "keeps tracked (note_multiaddr i)"
  unfolding note_if_def multiaddr_list_def first_multiaddr_def note_multiaddr_def by (intro keeps_rules)+

lemma keeps_push_nodes:
  assumes "step_env_ok E"
  shows "keeps tracked (start_receiving_node E img k kw)" "keeps tracked (setup_lightpush_node E img k kw)"
    "keeps tracked (start_publishing_node E img k kw)" "keeps tracked (setup_store_node E img k kw)"
  unfolding start_receiving_node_def setup_lightpush_node_def start_publishing_node_def setup_store_node_def
  by (intro keeps_rules keeps_common assms env_config_ok)+

lemma keeps_subscribe [keeps_rules]: "keeps tracked (ensure_relay_subscriptions_on_nodes E is ts)" "keeps tracked (subscribe_via_relay E a ns tps)"
proof -
  show *: "keeps tracked (ensure_relay_subscriptions_on_nodes E is ts)" for "is" ts
    unfolding ensure_relay_subscriptions_on_nodes_def rest_wrappers by (intro keeps_rules)
  show "keeps tracked (subscribe_via_relay E a ns tps)"
    unfolding subscribe_via_relay_def by (intro keeps_bind *) (auto intro!: keeps_rules split: option.splits list.splits)
qed

lemma keeps_fleet_node:
  assumes "step_env_ok E"
  shows "keeps tracked (start_fleet_node E nm relay)"
  unfolding start_fleet_node_def
  by (intro keeps_rules keeps_on_node trk.inv_start env_config_ok assms)

end
