(* ===== verification/Thread_Pool.thy ===== *)
theory Thread_Pool
  imports Py_Retry
begin

text \<open>
  Functions that run in a \<open>concurrent.futures.ThreadPoolExecutor\<close> with one worker for each of them. A thread is
  finished or makes a step on the shared world and goes on; between two steps any other thread may run. A
  schedule is the list of the threads that make the next steps. Leaving the \<open>with\<close> block waits for all threads, so
  those that the schedule has not finished run to their end, and asking the futures for their results in the
  order of submission gives the list of the results or raises the first exception in that order.
\<close>

section \<open>Threads\<close>

datatype ('w, 'a) thread =
    Finished "'a res"
  | Running "'w \<Rightarrow> ('w, 'a) thread \<times> 'w"

definition atomic :: "('w, 'a) io \<Rightarrow> ('w, 'a) thread" where
  "atomic m = Running (\<lambda>w. case m w of (r, w') \<Rightarrow> (Finished r, w'))"

primrec and_then :: "('w, 'a) thread \<Rightarrow> ('a \<Rightarrow> ('w, 'b) thread) \<Rightarrow> ('w, 'b) thread" where
  "and_then (Finished r) k = (case r of Inl e \<Rightarrow> Finished (Inl e) | Inr a \<Rightarrow> k a)"
| "and_then (Running f) k = Running (\<lambda>w. map_prod (\<lambda>t. and_then t k) id (f w))"

primrec run_alone :: "('w, 'a) thread \<Rightarrow> ('w, 'a) io" where
  "run_alone (Finished r) = (\<lambda>w. (r, w))"
| "run_alone (Running f) = (\<lambda>w. case map_prod run_alone id (f w) of (g, w') \<Rightarrow> g w')"

lemma run_alone_atomic [simp]: "run_alone (atomic m) = m"
  by (auto simp: atomic_def fun_eq_iff split: prod.splits)

lemma run_alone_and_then: "run_alone (and_then t k) = io_bind (run_alone t) (\<lambda>a. run_alone (k a))"
proof (induction t)
  case (Finished r)
  show ?case by (cases r) (simp_all add: io_bind_def fun_eq_iff)
next
  case (Running f)
  have "run_alone (and_then (Running f) k) w = io_bind (run_alone (Running f)) (\<lambda>a. run_alone (k a)) w" for w
  proof -
    obtain t w' where f: "f w = (t, w')" by fastforce
    then have "run_alone (and_then t k) = io_bind (run_alone t) (\<lambda>a. run_alone (k a))"
      by (intro Running [of "(t, w')" t]) (auto intro: rangeI [of f w, unfolded f])
    then show ?thesis by (simp add: f io_bind_def)
  qed
  then show ?case by blast
qed

section \<open>The pool\<close>

type_synonym ('w, 'a) pool = "('w, 'a) thread list \<times> 'w"

fun turn :: "nat \<Rightarrow> ('w, 'a) pool \<Rightarrow> ('w, 'a) pool" where
  "turn i (ts, w) =
     (if i < length ts then
        (case ts ! i of
           Finished r \<Rightarrow> (ts, w)
         | Running f \<Rightarrow> (case f w of (t, w') \<Rightarrow> (ts[i := t], w')))
      else (ts, w))"

definition run_schedule :: "nat list \<Rightarrow> ('w, 'a) pool \<Rightarrow> ('w, 'a) pool" where
  "run_schedule sched p = foldl (\<lambda>p i. turn i p) p sched"

fun finish_all :: "('w, 'a) thread list \<Rightarrow> 'w \<Rightarrow> 'a res list \<times> 'w" where
  "finish_all [] w = ([], w)"
| "finish_all (t # ts) w =
     (case run_alone t w of (r, w') \<Rightarrow> (case finish_all ts w' of (rs, w'') \<Rightarrow> (r # rs, w'')))"

fun future_results :: "'a res list \<Rightarrow> 'a list res" where
  "future_results [] = Inr []"
| "future_results (r # rs) = res_bind r (\<lambda>a. res_bind (future_results rs) (\<lambda>as. Inr (a # as)))"

text \<open>A pool without workers is refused.\<close>

definition run_in_pool :: "nat list \<Rightarrow> ('w, 'a) thread list \<Rightarrow> ('w, 'a list) io" where
  "run_in_pool sched threads w =
     (if threads = [] then (Inl (Exn ValueError ''max_workers must be greater than 0''), w)
      else (case run_schedule sched (threads, w) of (ts, w') \<Rightarrow>
        (case finish_all ts w' of (rs, w'') \<Rightarrow> (future_results rs, w''))))"

section \<open>What a pool keeps\<close>

text \<open>A thread that keeps a property of the world in each of its steps, and ends with outcomes that have another one
  in the world in which it ends; the second has to be stable under the steps of the other threads.\<close>

inductive safe_thread :: "('w \<Rightarrow> bool) \<Rightarrow> ('w, 'a) thread \<Rightarrow> bool" for I :: "'w \<Rightarrow> bool" where
  safe_finished: "safe_thread I (Finished r)"
| safe_running: "(\<And>w. I w \<Longrightarrow> I (snd (f w)) \<and> safe_thread I (fst (f w))) \<Longrightarrow> safe_thread I (Running f)"

inductive_simps safe_running_iff: "safe_thread I (Running f)"

lemma safe_atomic: "keeps I m \<Longrightarrow> safe_thread I (atomic m)"
  by (auto simp: atomic_def keeps_def intro!: safe_running safe_finished split: prod.split) (metis snd_conv)

lemma safe_and_then:
  assumes "safe_thread I t" "\<And>a. safe_thread I (k a)"
  shows "safe_thread I (and_then t k)"
  using assms(1)
proof (induction rule: safe_thread.induct)
  case (safe_finished r)
  then show ?case using assms(2) by (cases r) (auto intro: safe_thread.intros)
next
  case (safe_running f)
  then show ?case by (auto intro!: safe_thread.safe_running simp: map_prod_def split_beta)
qed

lemma safe_turn:
  assumes "list_all (safe_thread I) ts" "I w" "turn i (ts, w) = (ts', w')"
  shows "list_all (safe_thread I) ts' \<and> I w' \<and> length ts' = length ts"
proof (cases "i < length ts")
  case True
  then have "safe_thread I (ts ! i)" using assms(1) by (simp add: list_all_length)
  with True assms show ?thesis
    by (cases "ts ! i") (auto simp: safe_running_iff list_all_length nth_list_update split: prod.splits; metis fst_conv snd_conv)+
qed (use assms in auto)

lemma safe_schedule:
  assumes "list_all (safe_thread I) ts" "I w" "run_schedule sched (ts, w) = (ts', w')"
  shows "list_all (safe_thread I) ts' \<and> I w' \<and> length ts' = length ts"
  using assms unfolding run_schedule_def
proof (induction sched arbitrary: ts w)
  case (Cons i sched)
  obtain ts1 w1 where t: "turn i (ts, w) = (ts1, w1)" by fastforce
  have "list_all (safe_thread I) ts1 \<and> I w1 \<and> length ts1 = length ts"
    by (rule safe_turn [OF Cons.prems(1,2) t])
  moreover have "foldl (\<lambda>p i. turn i p) (ts1, w1) sched = (ts', w')"
    using Cons.prems(3) unfolding foldl_Cons t .
  ultimately show ?case using Cons.IH [of ts1 w1] by simp
qed simp

lemma safe_alone: "safe_thread I t \<Longrightarrow> keeps I (run_alone t)"
  unfolding keeps_def
proof (induction rule: safe_thread.induct)
  case (safe_running f)
  then show ?case by (simp add: map_prod_def split_beta)
qed simp

lemma safe_finish_all: "list_all (safe_thread I) ts \<Longrightarrow> I w \<Longrightarrow> I (snd (finish_all ts w))"
proof (induction ts arbitrary: w)
  case (Cons t ts)
  have "I (snd (run_alone t w))" using safe_alone [of I t] Cons.prems by (simp add: keeps_def)
  then show ?case using Cons by (auto split: prod.splits) (metis snd_conv)
qed simp

lemma keeps_run_in_pool [keeps_rules]:
  assumes "list_all (safe_thread I) threads"
  shows "keeps I (run_in_pool sched threads)"
  unfolding keeps_def
proof (intro allI impI)
  fix w assume "I w"
  obtain ts w' where s: "run_schedule sched (threads, w) = (ts, w')" by fastforce
  have "I (snd (finish_all ts w'))"
    by (rule safe_finish_all) (use safe_schedule [OF assms \<open>I w\<close> s] in simp_all)
  then show "I (snd (run_in_pool sched threads w))"
    using \<open>I w\<close> by (simp add: run_in_pool_def s split_beta)
qed

section \<open>A fair scheduler finishes every thread\<close>

definition fair :: "nat \<Rightarrow> (nat \<Rightarrow> nat) \<Rightarrow> bool" where
  "fair k turns \<longleftrightarrow> (\<forall>i < k. \<forall>n. \<exists>m \<ge> n. turns m = i)"

definition after :: "nat \<Rightarrow> (nat \<Rightarrow> nat) \<Rightarrow> ('w, 'a) pool \<Rightarrow> ('w, 'a) pool" where
  "after n turns p = run_schedule (map turns [0..<n]) p"

fun is_finished :: "('w, 'a) thread \<Rightarrow> bool" where
  "is_finished (Finished r) = True"
| "is_finished (Running f) = False"

lemma after_Suc: "after (Suc n) turns p = turn (turns n) (after n turns p)"
  by (simp add: after_def run_schedule_def)

lemma turn_length [simp]: "length (fst (turn i p)) = length (fst p)"
  by (cases p) (auto split: thread.splits prod.splits)

lemma turn_other: "j \<noteq> i \<Longrightarrow> fst (turn j p) ! i = fst p ! i"
  by (cases p) (auto split: thread.splits prod.splits)

lemma after_length [simp]: "length (fst (after n turns p)) = length (fst p)"
  by (induction n) (simp_all add: after_Suc, simp add: after_def run_schedule_def)

lemma turn_finished: "is_finished (fst p ! i) \<Longrightarrow> fst (turn j p) ! i = fst p ! i"
  by (cases "i = j"; cases p) (auto simp: turn_other split: thread.splits prod.splits)

lemma after_finished_stays:
  "is_finished (fst (after n turns p) ! i) \<Longrightarrow> n \<le> m \<Longrightarrow> is_finished (fst (after m turns p) ! i)"
  by (induction m rule: nat_induct) (auto simp: le_Suc_eq after_Suc turn_finished)

lemma thread_waits: 
  assumes "\<And>m. n \<le> m \<Longrightarrow> m < n' \<Longrightarrow> turns m \<noteq> i" "n \<le> n'"
  shows "fst (after n' turns p) ! i = fst (after n turns p) ! i"
  using assms(2,1)
proof (induction n' rule: dec_induct)
  case (step k)
  have "turns k \<noteq> i" using step by simp
  then show ?case using step by (simp add: after_Suc turn_other)
qed simp

lemma fair_thread_finishes:
  assumes "fair (length (fst p)) turns" "i < length (fst p)"
  shows "\<exists>m \<ge> n. is_finished (fst (after m turns p) ! i)"
proof -
  have "fst (after n turns p) ! i = t \<Longrightarrow> \<exists>m \<ge> n. is_finished (fst (after m turns p) ! i)" for t n
  proof (induction t arbitrary: n)
    case (Finished r)
    then show ?case by (intro exI [of _ n]) simp
  next
    case (Running f)
    define m where "m = (LEAST m. n \<le> m \<and> turns m = i)"
    have "\<exists>m. n \<le> m \<and> turns m = i" using assms by (auto simp: fair_def)
    from LeastI_ex [OF this] have m: "n \<le> m" "turns m = i" by (simp_all add: m_def)
    have "turns k \<noteq> i" if "n \<le> k" "k < m" for k using not_less_Least [of k] that by (auto simp: m_def)
    then have "fst (after m turns p) ! i = Running f" using thread_waits [of n m turns i p] m(1) Running.prems by simp
    moreover obtain ts w where a: "after m turns p = (ts, w)" by fastforce
    moreover have "i < length ts" using assms(2) after_length [of m turns p] a by simp
    ultimately have "fst (after (Suc m) turns p) ! i = fst (f w)" by (simp add: after_Suc m(2) split: prod.splits)
    then have "\<exists>m' \<ge> Suc m. is_finished (fst (after m' turns p) ! i)"
      by (intro Running.IH [of "f w" "fst (f w)"]) (auto intro: rangeI simp: prod_set_defs)
    then show ?case using m(1) by (meson Suc_leD le_trans)
  qed
  then show ?thesis by blast
qed

lemma fair_pool_finishes:
  assumes "fair (length (fst p)) turns"
  shows "\<exists>n. list_all is_finished (fst (after n turns p))"
proof -
  have "\<exists>n. \<forall>i < k. is_finished (fst (after n turns p) ! i)" if "k \<le> length (fst p)" for k
    using that
  proof (induction k)
    case (Suc k)
    then obtain n where n: "\<forall>i < k. is_finished (fst (after n turns p) ! i)" by auto
    obtain m where "n \<le> m" "is_finished (fst (after m turns p) ! k)"
      using fair_thread_finishes [OF assms, of k n] Suc.prems by auto
    then have "\<forall>i < Suc k. is_finished (fst (after m turns p) ! i)"
      using n after_finished_stays [of n turns p _ m] unfolding less_Suc_eq by blast
    then show ?case ..
  qed simp
  then show ?thesis by (auto simp: list_all_length)
qed

section \<open>The end of a pool\<close>

text \<open>Waiting for the threads is a schedule too, so what every turn keeps holds of the pool with all its results.\<close>

lemma run_schedule_append: "run_schedule (s @ s') p = run_schedule s' (run_schedule s p)"
  by (simp add: run_schedule_def)

lemma alone_is_schedule:
  assumes "i < length ts" "ts ! i = t" "run_alone t w = (r, w')"
  shows "\<exists>sched. run_schedule sched (ts, w) = (ts[i := Finished r], w')"
  using assms
proof (induction t arbitrary: ts w)
  case (Finished r')
  then have "ts[i := Finished r] = ts" by (auto simp: list_update_same_conv)
  with Finished show ?case by (intro exI [of _ "[]"]) (auto simp: run_schedule_def)
next
  case (Running f)
  obtain t w1 where f: "f w = (t, w1)" by fastforce
  have "\<exists>sched. run_schedule sched (ts[i := t], w1) = ((ts[i := t])[i := Finished r], w')"
    by (rule Running.IH [of "(t, w1)" t]) (use Running.prems f rangeI [of f w] in \<open>auto simp: prod_set_defs\<close>)
  then obtain sched where "run_schedule sched (ts[i := t], w1) = (ts[i := Finished r], w')" by auto
  then have "run_schedule (i # sched) (ts, w) = (ts[i := Finished r], w')"
    using Running.prems(1,2) f by (simp add: run_schedule_def)
  then show ?case ..
qed

lemma finish_all_is_schedule:
  "finish_all ts w = (rs, w') \<Longrightarrow> \<exists>sched. run_schedule sched (map Finished ds @ ts, w) = (map Finished (ds @ rs), w')"
proof (induction ts arbitrary: ds w rs)
  case Nil
  then show ?case by (intro exI [of _ "[]"]) (simp add: run_schedule_def)
next
  case (Cons t ts)
  obtain r w1 where r: "run_alone t w = (r, w1)" by fastforce
  obtain rs' where rs: "finish_all ts w1 = (rs', w')" "rs = r # rs'"
    using Cons.prems r by (auto split: prod.splits)
  obtain s1 where "run_schedule s1 (map Finished ds @ t # ts, w) = ((map Finished ds @ t # ts)[length ds := Finished r], w1)"
    using alone_is_schedule [of "length ds" "map Finished ds @ t # ts" t w r w1] r by (auto simp: nth_append)
  then have "run_schedule s1 (map Finished ds @ t # ts, w) = (map Finished (ds @ [r]) @ ts, w1)"
    by (simp add: list_update_append)
  moreover obtain s2 where "run_schedule s2 (map Finished (ds @ [r]) @ ts, w1) = (map Finished ((ds @ [r]) @ rs'), w')"
    using Cons.IH [OF rs(1), of "ds @ [r]"] by blast
  ultimately show ?case using rs(2) by (intro exI [of _ "s1 @ s2"]) (simp add: run_schedule_append)
qed

lemma run_in_pool_ends:
  assumes "threads \<noteq> []" "run_in_pool sched threads w = (out, w')"
  shows "\<exists>sched' rs. run_schedule sched' (threads, w) = (map Finished rs, w') \<and> out = future_results rs"
proof -
  obtain ts w1 where s: "run_schedule sched (threads, w) = (ts, w1)" by fastforce
  obtain rs w2 where f: "finish_all ts w1 = (rs, w2)" by fastforce
  obtain s2 where "run_schedule s2 (ts, w1) = (map Finished rs, w2)"
    using finish_all_is_schedule [OF f, of "[]"] by auto
  then have "run_schedule (sched @ s2) (threads, w) = (map Finished rs, w2)" by (simp add: run_schedule_append s)
  moreover have "out = future_results rs" "w' = w2" using assms by (simp_all add: run_in_pool_def s f)
  ultimately show ?thesis by blast
qed

lemma schedule_invariant:
  assumes "\<And>i p. J p \<Longrightarrow> J (turn i p)" "J p"
  shows "J (run_schedule sched p)"
  using assms(2) unfolding run_schedule_def by (induction sched arbitrary: p) (simp_all add: assms(1))

lemma future_results_Inr: "future_results rs = Inr xs \<longleftrightarrow> rs = map Inr xs"
proof (induction rs arbitrary: xs)
  case (Cons r rs)
  show ?case
  proof (cases r)
    case (Inr a)
    then show ?thesis using Cons.IH [of "tl xs"] by (cases "future_results rs"; cases xs) auto
  qed (cases xs; simp)
qed auto

lemma finish_finished: "finish_all (map Finished rs) w = (rs, w)"
  by (induction rs) simp_all

lemma all_finished: "list_all is_finished ts \<Longrightarrow> \<exists>rs. ts = map Finished rs"
proof (induction ts)
  case (Cons t ts)
  then obtain rs where "ts = map Finished rs" by auto
  moreover obtain r where "t = Finished r" using Cons.prems by (cases t) auto
  ultimately show ?case by (metis list.simps(9))
qed simp

lemma fair_pool_returns:
  assumes "fair (length threads) turns" "threads \<noteq> []"
  shows "\<exists>n rs w'. after n turns (threads, w) = (map Finished rs, w') \<and>
    run_in_pool (map turns [0..<n]) threads w = (future_results rs, w')"
proof -
  obtain n where "list_all is_finished (fst (after n turns (threads, w)))"
    using fair_pool_finishes [of "(threads, w)" turns] assms(1) by auto
  then obtain rs w' where a: "after n turns (threads, w) = (map Finished rs, w')"
    using all_finished by (metis prod.collapse)
  then have "run_in_pool (map turns [0..<n]) threads w = (future_results rs, w')"
    using assms(2) by (simp add: run_in_pool_def after_def finish_finished)
  with a show ?thesis by blast
qed

end
