(* ===== verification/Steps_Fleet.thy ===== *)
theory Steps_Fleet
  imports Steps_Store Thread_Pool
begin

text \<open>
  \<open>start_fleet_nodes\<close> of \<open>tests-e2e/src/steps/fleet.py\<close>: several start functions run in a thread pool on the same
  test. The start functions are written as threads that may be interrupted between creating the node object,
  starting it and subscribing it; run alone they are \<open>start_fleet_relay_node\<close> and \<open>start_fleet_light_client\<close>. The work
  of one such call is one step here: calls of the Docker client by two threads inside their starts are not
  interleaved.
\<close>

section \<open>The start functions as threads\<close>

definition fleet_node_thread :: "'w step_env \<Rightarrow> string \<Rightarrow> string \<Rightarrow> ('w test, nat) thread" where
  "fleet_node_thread E node_name relay =
     and_then (atomic (new_waku_node E (NODE_1 (environment (cfg E))) (node_name @ ''_'' @ test_id E))) (\<lambda>i.
     and_then (atomic (on_node i (start (cfg E) 120
        [(''preset'', PStr FLEET_PRESET), (''enable_kad_discovery'', PStr ''false''),
         (''shard'', PList (map PStr FLEET_SHARDS)), (''relay'', PStr relay), (''filter'', PStr ''false''),
         (''lightpush'', PStr ''false'')]))) (\<lambda>_. Finished (Inr i)))"

definition fleet_relay_thread :: "'w step_env \<Rightarrow> string \<Rightarrow> ('w test, nat) thread" where
  "fleet_relay_thread E node_name =
     and_then (fleet_node_thread E node_name ''true'') (\<lambda>i.
     and_then (atomic (on_node i (node_set_relay_auto_subscriptions (cfg E) (PList [PStr (test_content_topic E)]))))
       (\<lambda>_. Finished (Inr i)))"

definition fleet_light_thread :: "'w step_env \<Rightarrow> string \<Rightarrow> ('w test, nat) thread" where
  "fleet_light_thread E node_name = fleet_node_thread E node_name ''false''"

definition start_fleet_nodes ::
    "nat list \<Rightarrow> ((string \<Rightarrow> ('w test, nat) thread) \<times> string) list \<Rightarrow> ('w test, nat list) io" where
  "start_fleet_nodes sched starts = run_in_pool sched (map (\<lambda>(start, node_name). start node_name) starts)"

lemma run_finished: "run_alone (Finished (Inr a)) = io_return a"
  by (simp add: io_return_def fun_eq_iff)

lemma fleet_threads_alone:
  "run_alone (fleet_node_thread E nm relay) = start_fleet_node E nm relay"
  "run_alone (fleet_relay_thread E nm) = start_fleet_relay_node E nm"
  "run_alone (fleet_light_thread E nm) = start_fleet_light_client E nm"
  by (simp_all add: fleet_relay_thread_def fleet_light_thread_def fleet_node_thread_def start_fleet_node_def
      start_fleet_relay_node_def start_fleet_light_client_def run_alone_and_then run_finished
      del: run_alone.simps)

section \<open>No node is lost\<close>

lemma safe_fleet_node:
  assumes "step_env_ok E"
  shows "safe_thread tracked (fleet_node_thread E nm relay)"
  unfolding fleet_node_thread_def
  by (intro safe_and_then safe_atomic safe_finished keeps_rules keeps_on_node trk.inv_start env_config_ok assms)

lemma safe_fleet_threads:
  assumes "step_env_ok E"
  shows "safe_thread tracked (fleet_relay_thread E nm)" "safe_thread tracked (fleet_light_thread E nm)"
  unfolding fleet_relay_thread_def fleet_light_thread_def node_set_relay_auto_subscriptions_def
  by (intro safe_and_then safe_atomic safe_finished keeps_rules safe_fleet_node assms)+

section \<open>Every start gets a node of its own\<close>

text \<open>A thread of the node \<open>i\<close> makes no other nodes, leaves the log files of all nodes as they are, and returns \<open>i\<close> if
  it returns; a start function makes a node and goes on as a thread of that node.\<close>

definition same_logs :: "'w test \<Rightarrow> 'w test \<Rightarrow> bool" where
  "same_logs t t' \<longleftrightarrow> next_node t' = next_node t \<and> (\<forall>j. log_path (nodes_of t' j) = log_path (nodes_of t j))"

inductive belongs :: "nat \<Rightarrow> ('w test, nat) thread \<Rightarrow> bool" for i :: nat where
  belongs_raised: "belongs i (Finished (Inl e))"
| belongs_done: "belongs i (Finished (Inr i))"
| belongs_running: "(\<And>t. same_logs t (snd (f t)) \<and> belongs i (fst (f t))) \<Longrightarrow> belongs i (Running f)"

inductive_simps belongs_running_iff: "belongs i (Running f)"
inductive_simps belongs_result_iff: "belongs i (Finished (Inr j))"

definition begins :: "string \<Rightarrow> ('w test, nat) thread \<Rightarrow> bool" where
  "begins path T \<longleftrightarrow> (\<exists>f. T = Running f \<and> (\<forall>t. belongs (next_node t) (fst (f t)) \<and>
     next_node (snd (f t)) = Suc (next_node t) \<and> log_path (nodes_of (snd (f t)) (next_node t)) = path \<and>
     (\<forall>j. j \<noteq> next_node t \<longrightarrow> log_path (nodes_of (snd (f t)) j) = log_path (nodes_of t j))))"

lemma same_logs_on_node:
  assumes "\<And>p. keeps (\<lambda>s. log_path (self s) = p) m"
  shows "same_logs t (snd (on_node i m t))"
proof -
  let ?s = "\<lparr>self = nodes_of t i, ds_nodes = storage t, outer = outside t\<rparr>"
  have "log_path (self (snd (m ?s))) = log_path (nodes_of t i)"
    using assms [of "log_path (nodes_of t i)"] by (simp add: keeps_def)
  then show ?thesis by (simp add: same_logs_def on_node_def split_beta)
qed

lemma belongs_and_then: "belongs i t \<Longrightarrow> belongs i (k i) \<Longrightarrow> belongs i (and_then t k)"
proof (induction rule: belongs.induct)
  case (belongs_running f)
  then show ?case by (auto intro!: belongs.belongs_running simp: map_prod_def split_beta)
qed (auto intro: belongs.intros)

lemma belongs_atomic_then:
  assumes "\<And>t. same_logs t (snd (m t))" "\<And>a. belongs i (k a)"
  shows "belongs i (and_then (atomic m) k)"
proof -
  have "belongs i (fst (map_prod (\<lambda>t. and_then t k) id (case m t of (r, w') \<Rightarrow> (Finished r, w'))))" for t
    using assms(2) by (cases "fst (m t)") (auto simp: split_beta intro: belongs_raised)
  then show ?thesis unfolding atomic_def using assms(1) by (auto intro!: belongs_running simp: split_beta)
qed

definition node_log :: "'w step_env \<Rightarrow> string \<Rightarrow> string" where
  "node_log E nm = log_path (new_node (environment (cfg E)) 0 (NODE_1 (environment (cfg E))) (nm @ ''_'' @ test_id E))"

lemma begins_then:
  assumes "begins path T" "\<And>i. belongs i (k i)"
  shows "begins path (and_then T k)"
  using assms unfolding begins_def by (auto simp: split_beta intro!: belongs_and_then)

lemma begins_new_node:
  assumes "\<And>i. belongs i (k i)"
  shows "begins (node_log E nm) (and_then (atomic (new_waku_node E (NODE_1 (environment (cfg E))) (nm @ ''_'' @ test_id E))) k)"
  using assms by (simp add: begins_def atomic_def new_waku_node_def node_log_def new_node_def Let_def)

lemma begins_fleet_node:
  assumes "step_env_ok E"
  shows "begins (node_log E nm) (fleet_node_thread E nm relay)"
  unfolding fleet_node_thread_def
  by (intro begins_new_node belongs_atomic_then same_logs_on_node belongs_done logp.inv_start env_config_ok assms)

lemma begins_fleet_threads:
  assumes "step_env_ok E"
  shows "begins (node_log E nm) (fleet_relay_thread E nm)" "begins (node_log E nm) (fleet_light_thread E nm)"
  unfolding fleet_relay_thread_def fleet_light_thread_def node_set_relay_auto_subscriptions_def
  by (intro begins_then begins_fleet_node belongs_atomic_then same_logs_on_node belongs_done keeps_node_call
      logp.outer_free assms)+

text \<open>Who owns which node while the pool runs: \<open>own k\<close> is the node of the start \<open>k\<close>, once it has made one.\<close>

definition owned_by :: "('w test, nat) thread list \<Rightarrow> string list \<Rightarrow> (nat \<Rightarrow> nat option) \<Rightarrow> ('w test, nat) pool \<Rightarrow> bool" where
  "owned_by Ts paths own = (\<lambda>(ts, t). length ts = length Ts \<and>
     (\<forall>k < length Ts. case own k of None \<Rightarrow> ts ! k = Ts ! k
        | Some i \<Rightarrow> i < next_node t \<and> belongs i (ts ! k) \<and> log_path (nodes_of t i) = paths ! k) \<and>
     (\<forall>k < length Ts. \<forall>l < length Ts. k \<noteq> l \<longrightarrow> own k \<noteq> None \<longrightarrow> own k \<noteq> own l))"

lemma owned_turn:
  assumes "list_all2 begins paths Ts" "owned_by Ts paths own p"
  shows "\<exists>own. owned_by Ts paths own (turn i p)"
proof (cases "i < length Ts")
  case True
  obtain ts t where p: "p = (ts, t)" by fastforce
  have len: "length ts = length Ts" using assms(2) by (simp add: owned_by_def p)
  show ?thesis
  proof (cases "own i")
    case None
    then have "ts ! i = Ts ! i" using assms(2) True by (auto simp: owned_by_def p)
    moreover have "begins (paths ! i) (Ts ! i)" using assms(1) True by (simp add: list_all2_conv_all_nth)
    ultimately obtain f where "ts ! i = Running f"
      and "belongs (next_node t) (fst (f t)) \<and> next_node (snd (f t)) = Suc (next_node t) \<and>
         log_path (nodes_of (snd (f t)) (next_node t)) = paths ! i \<and>
         (\<forall>j. j \<noteq> next_node t \<longrightarrow> log_path (nodes_of (snd (f t)) j) = log_path (nodes_of t j))"
      unfolding begins_def by metis
    moreover have "Some (next_node t) \<noteq> own l" if "l < length Ts" for l
      using assms(2) that by (cases "own l") (auto simp: owned_by_def p)
    ultimately have "owned_by Ts paths (own(i := Some (next_node t))) (turn i p)"
      using assms(2) True len unfolding owned_by_def p
      by (auto simp: split_beta nth_list_update split: option.splits)
    then show ?thesis by blast
  next
    case (Some j)
    then have b: "belongs j (ts ! i)" using assms(2) True by (auto simp: owned_by_def p)
    have "owned_by Ts paths own (turn i p)"
    proof (cases "ts ! i")
      case (Running f)
      then have "same_logs t (snd (f t))" "belongs j (fst (f t))" using b by (auto simp: belongs_running_iff)
      then show ?thesis using assms(2) True len Running Some unfolding owned_by_def p
        by (auto simp: split_beta nth_list_update same_logs_def split: option.splits)
    qed (use assms(2) True len p in simp)
    then show ?thesis by blast
  qed
next
  case False
  then show ?thesis using assms(2) by (intro exI [of _ own]) (cases p; auto simp: owned_by_def)
qed

lemma owned_results:
  fixes t :: "'w test"
  assumes "list_all2 begins paths Ts" "owned_by Ts paths own (map Finished (map Inr xs), t)"
  shows "length xs = length Ts \<and> distinct xs \<and> (\<forall>k < length Ts. log_path (nodes_of t (xs ! k)) = paths ! k)"
proof -
  have len: "length xs = length Ts" using assms(2) by (simp add: owned_by_def)
  have own: "own k = Some (xs ! k)" if "k < length Ts" for k
  proof (cases "own k")
    case None
    then have "Ts ! k = Finished (Inr (xs ! k))" using assms(2) that len by (auto simp: owned_by_def)
    then show ?thesis using assms(1) that by (auto simp: list_all2_conv_all_nth begins_def)
  next
    case (Some i)
    then have "belongs i (Finished (Inr (xs ! k)) :: ('w test, nat) thread)" using assms(2) that len by (auto simp: owned_by_def)
    then show ?thesis using Some by (simp add: belongs_result_iff)
  qed
  then show ?thesis using assms(2) len unfolding owned_by_def by (auto simp: distinct_conv_nth)
qed

lemma pool_in_order:
  assumes "list_all2 begins paths Ts" "run_in_pool sched Ts t = (Inr xs, t')"
  shows "length xs = length Ts \<and> distinct xs \<and> (\<forall>k < length Ts. log_path (nodes_of t' (xs ! k)) = paths ! k)"
proof -
  have "Ts \<noteq> []" using assms(2) by (auto simp: run_in_pool_def)
  then obtain s rs where s: "run_schedule s (Ts, t) = (map Finished rs, t')" "Inr xs = future_results rs"
    using run_in_pool_ends [OF _ assms(2)] by blast
  have "\<exists>own. owned_by Ts paths own (Ts, t)" by (rule exI [of _ "\<lambda>_. None"]) (simp add: owned_by_def)
  then have "\<exists>own. owned_by Ts paths own (run_schedule s (Ts, t))"
    by (rule schedule_invariant [of "\<lambda>p. \<exists>own. owned_by Ts paths own p", rotated]) (use owned_turn [OF assms(1)] in blast)
  moreover have "rs = map Inr xs" using s(2) future_results_Inr [of rs xs] by simp
  ultimately show ?thesis unfolding s(1) using owned_results [OF assms(1)] by blast
qed

text \<open>The start functions of a test, by their kind.\<close>

definition fleet_start :: "'w step_env \<Rightarrow> bool \<Rightarrow> string \<Rightarrow> ('w test, nat) thread" where
  "fleet_start E relays = (if relays then fleet_relay_thread E else fleet_light_thread E)"

definition fleet_starts :: "'w step_env \<Rightarrow> (bool \<times> string) list \<Rightarrow> ((string \<Rightarrow> ('w test, nat) thread) \<times> string) list" where
  "fleet_starts E kinds = map (\<lambda>(relays, nm). (fleet_start E relays, nm)) kinds"

lemma fleet_starts_begin:
  assumes "step_env_ok E"
  shows "list_all2 begins (map (node_log E \<circ> snd) kinds) (map (\<lambda>(start, nm). start nm) (fleet_starts E kinds))"
  using begins_fleet_threads [OF assms] by (auto simp: fleet_starts_def fleet_start_def list_all2_conv_all_nth split_beta)

lemma keeps_start_fleet_nodes:
  assumes "step_env_ok E"
  shows "keeps tracked (start_fleet_nodes sched (fleet_starts E kinds))"
  unfolding start_fleet_nodes_def
  by (rule keeps_run_in_pool) (auto simp: fleet_starts_def fleet_start_def list_all_iff intro: safe_fleet_threads [OF assms])

text \<open>C35: however the threads of \<open>start_fleet_nodes\<close> are scheduled, a scheduler that never forgets a thread brings
  the call to its end; when it returns, it returns one node for each start function in the order in which they were given,
  no node twice, and the node at each place is the one that was created for the name at that place.\<close>

theorem fleet_nodes_in_order:
  assumes "step_env_ok E" "kinds \<noteq> []" "fair (length kinds) turns"
  shows "(\<exists>n rs t'. after n turns (map (\<lambda>(start, nm). start nm) (fleet_starts E kinds), t) = (map Finished rs, t') \<and>
      start_fleet_nodes (map turns [0..<n]) (fleet_starts E kinds) t = (future_results rs, t')) \<and>
    (\<forall>sched is t'. start_fleet_nodes sched (fleet_starts E kinds) t = (Inr is, t') \<longrightarrow>
      length is = length kinds \<and> distinct is \<and>
      (\<forall>k < length kinds. log_path (nodes_of t' (is ! k)) = node_log E (snd (kinds ! k))))"
proof -
  have "\<exists>n rs t'. after n turns (map (\<lambda>(start, nm). start nm) (fleet_starts E kinds), t) = (map Finished rs, t') \<and>
      start_fleet_nodes (map turns [0..<n]) (fleet_starts E kinds) t = (future_results rs, t')"
    unfolding start_fleet_nodes_def using assms(2,3) by (intro fair_pool_returns) (simp_all add: fleet_starts_def)
  moreover have "length is = length kinds \<and> distinct is \<and>
      (\<forall>k < length kinds. log_path (nodes_of t' (is ! k)) = node_log E (snd (kinds ! k)))"
    if "start_fleet_nodes sched (fleet_starts E kinds) t = (Inr is, t')" for sched "is" t'
    using pool_in_order [OF fleet_starts_begin [OF assms(1)] that [unfolded start_fleet_nodes_def]]
    by (simp add: fleet_starts_def)
  ultimately show ?thesis by blast
qed

text \<open>Two nodes that are ready at once, with threads that take turns.\<close>

definition fleet_env :: "sim step_env" where
  "fleet_env = sim_env\<lparr>cfg := sim_config 0 True ready_answer\<rparr>"

lemma fleet_env_ok: "step_env_ok fleet_env"
  using sim_env_ok unfolding step_env_ok_def fleet_env_def by (simp add: sim_config_ok)

abbreviation sim_kinds :: "(bool \<times> string) list" where
  "sim_kinds \<equiv> [(False, ''a''), (False, ''b'')]"

definition sim_fleet :: "nat list res \<times> sim test" where
  "sim_fleet = start_fleet_nodes [0, 1, 1, 0] (fleet_starts fleet_env sim_kinds) sim_test"

lemma sim_fleet_start:
  assumes "is_nwaku (nodes_of t i)"
  shows "\<exists>n w ds. on_node i (start (cfg fleet_env) 120
      [(''preset'', PStr FLEET_PRESET), (''enable_kad_discovery'', PStr ''false''), (''shard'', PList (map PStr FLEET_SHARDS)),
       (''relay'', PStr ''false''), (''filter'', PStr ''false''), (''lightpush'', PStr ''false'')]) t =
    (Inr (), t\<lparr>nodes_of := (nodes_of t)(i := n), storage := ds, outside := w\<rparr>)" (is "\<exists>n w ds. on_node i (start _ _ ?kw) t = _")
proof -
  let ?s = "\<lparr>self = nodes_of t i, ds_nodes = storage t, outer = outside t\<rparr>"
  have "\<exists>args rm. start_context n k ?kw = Inr (args, rm)" if "is_nwaku n" for n k
    using that by (simp add: start_context_def store_sync_args_def dict_pop_def wants_store_sync_def resolve_sharding_flags_def Let_def) blast
  then have "fst (start (sim_config 0 True ready_answer) 120 ?kw ?s) = Inr ()"
    using assms by (intro sim_start_succeeds) auto
  then obtain s' where "start (cfg fleet_env) 120 ?kw ?s = (Inr (), s')"
    unfolding fleet_env_def by (simp del: list.map) (metis prod.collapse)
  then show ?thesis by (auto simp: on_node_def)
qed

lemma sim_fleet_result: "fst sim_fleet = Inr [2, 3]"
proof -
  let ?new = "\<lambda>i nm. new_node (environment (cfg fleet_env)) i (NODE_1 (environment (cfg fleet_env))) (nm @ ''_'' @ test_id fleet_env)"
  have "environment (cfg fleet_env) = (\<lambda>_. None)" by (simp add: fleet_env_def sim_config_def)
  moreover have "str_in ''nwaku'' (NODE_1 (\<lambda>_. None))" by code_simp
  ultimately have "str_in ''nwaku'' (NODE_1 (environment (cfg fleet_env)))" by simp
  then have nw: "is_nwaku (?new i nm)" for i nm by (simp add: is_nwaku_def new_node_def)
  let ?t = "sim_test\<lparr>nodes_of := (nodes_of sim_test)(2 := ?new 2 ''a'', 3 := ?new 3 ''b''), next_node := 4\<rparr>"
  obtain n3 w3 ds3 where s3: "on_node 3 (start (cfg fleet_env) 120
      [(''preset'', PStr FLEET_PRESET), (''enable_kad_discovery'', PStr ''false''), (''shard'', PList (map PStr FLEET_SHARDS)),
       (''relay'', PStr ''false''), (''filter'', PStr ''false''), (''lightpush'', PStr ''false'')]) ?t =
      (Inr (), ?t\<lparr>nodes_of := (nodes_of ?t)(3 := n3), storage := ds3, outside := w3\<rparr>)"
    using sim_fleet_start [of ?t 3] nw [of 3 "''b''"] by auto
  let ?u = "?t\<lparr>nodes_of := (nodes_of ?t)(3 := n3), storage := ds3, outside := w3\<rparr>"
  obtain n2 w2 ds2 where s2: "on_node 2 (start (cfg fleet_env) 120
      [(''preset'', PStr FLEET_PRESET), (''enable_kad_discovery'', PStr ''false''), (''shard'', PList (map PStr FLEET_SHARDS)),
       (''relay'', PStr ''false''), (''filter'', PStr ''false''), (''lightpush'', PStr ''false'')]) ?u =
      (Inr (), ?u\<lparr>nodes_of := (nodes_of ?u)(2 := n2), storage := ds2, outside := w2\<rparr>)"
    using sim_fleet_start [of ?u 2] nw [of 2 "''a''"] by auto
  have nx: "next_node sim_test = 2" by (simp add: sim_test_def)
  show ?thesis using s2 s3
    by (simp add: sim_fleet_def start_fleet_nodes_def fleet_starts_def fleet_start_def fleet_light_thread_def fleet_node_thread_def
        run_in_pool_def run_schedule_def atomic_def new_waku_node_def Let_def nx)
qed

lemma fair_mod: "0 < k \<Longrightarrow> fair k (\<lambda>n. n mod k)"
  unfolding fair_def
proof (intro allI impI)
  fix i n :: nat assume "i < k"
  then show "\<exists>m \<ge> n. m mod k = i" by (intro exI [of _ "n * k + i"]) (auto intro: trans_le_add1)
qed

theorem fleet_nodes_in_order_witness:
  "log_path (nodes_of (snd sim_fleet) 2) = node_log fleet_env ''a'' \<and>
   log_path (nodes_of (snd sim_fleet) 3) = node_log fleet_env ''b''"
proof -
  have run: "start_fleet_nodes [0, 1, 1, 0] (fleet_starts fleet_env sim_kinds) sim_test = (Inr [2, 3], snd sim_fleet)"
    using sim_fleet_result unfolding sim_fleet_def by (metis prod.collapse)
  have "fair (length sim_kinds) (\<lambda>n. n mod 2)" using fair_mod [of 2] by (simp add: numeral_2_eq_2)
  from fleet_nodes_in_order [OF fleet_env_ok _ this, of sim_test, THEN conjunct2] run
  have "\<forall>k < length sim_kinds. log_path (nodes_of (snd sim_fleet) ([2, 3] ! k)) = node_log fleet_env (snd (sim_kinds ! k))"
    by blast
  from this [rule_format, of 0] this [rule_format, of 1] show ?thesis by simp
qed

end
