(* ===== verification/Test_Fixtures.thy ===== *)
theory Test_Fixtures
  imports Steps_Common
begin

text \<open>
  The fixtures and hooks of \<open>tests-e2e/tests/conftest.py\<close> around every test, except the one that stops the nodes (see
  \<open>Test_Lifecycle\<close>): the name of a test, the removal of old log files, the search of the node logs, the database
  container, and the end of the session. The file system and the clock are operations of the outer world.
\<close>

section \<open>Names of tests\<close>

record date_time =
  dt_year :: nat
  dt_month :: nat
  dt_day :: nat
  dt_hour :: nat
  dt_minute :: nat
  dt_second :: nat

definition two_digits :: "nat \<Rightarrow> string" where
  "two_digits n = (if n < 10 then ''0'' else []) @ str_nat n"

text \<open>\<open>strftime('%Y-%m-%d_%H-%M-%S')\<close>\<close>

definition strftime :: "date_time \<Rightarrow> string" where
  "strftime d =
     str_nat (dt_year d) @ ''-'' @ two_digits (dt_month d) @ ''-'' @ two_digits (dt_day d) @ ''_'' @
     two_digits (dt_hour d) @ ''-'' @ two_digits (dt_minute d) @ ''-'' @ two_digits (dt_second d)"

definition test_id_fixture :: "date_time \<Rightarrow> string \<Rightarrow> 'w step_env \<Rightarrow> 'w step_env" where
  "test_id_fixture now uuid E = E\<lparr>test_id := strftime now @ ''__'' @ uuid\<rparr>"

section \<open>Old log files\<close>

record 'w file_ops =
  list_dir :: "string \<Rightarrow> 'w \<Rightarrow> string list \<times> 'w"
  getmtime :: "string \<Rightarrow> ('w, rat) io"
  read_clock :: "'w \<Rightarrow> rat \<times> 'w"
  remove_file :: "string \<Rightarrow> ('w, unit) io"
  read_text :: "string \<Rightarrow> ('w, string) io"

text \<open>\<open>glob.glob(os.path.join(dir, "*"))\<close>: the entries whose names do not begin with a dot.\<close>

definition glob_all :: "'w file_ops \<Rightarrow> string \<Rightarrow> 'w \<Rightarrow> string list \<times> 'w" where
  "glob_all F dir w =
     (case list_dir F dir w of (names, w') \<Rightarrow>
        (map (path_join dir) (filter (\<lambda>n. \<not> startswith n ''.'') names), w'))"

text \<open>One file; every exception is caught, and the result says whether the error was logged, which is not done for a
  file that another worker has deleted.\<close>

definition delete_if_old :: "'w file_ops \<Rightarrow> string \<Rightarrow> ('w, bool) io" where
  "delete_if_old F file =
     io_try
       (io_bind (getmtime F file) (\<lambda>m.
        io_bind (\<lambda>w. case read_clock F w of (now, w') \<Rightarrow> (Inr now, w')) (\<lambda>now.
          if m < now - 3600 then io_bind (remove_file F file) (\<lambda>_. io_return False) else io_return False)))
       (\<lambda>e. io_return (\<not> isa e FileNotFoundError))"

fun delete_old_files :: "'w file_ops \<Rightarrow> string list \<Rightarrow> ('w, bool list) io" where
  "delete_old_files F [] = io_return []"
| "delete_old_files F (f # fs) =
     io_bind (delete_if_old F f) (\<lambda>b. io_bind (delete_old_files F fs) (\<lambda>bs. io_return (b # bs)))"

definition test_setup_teardown :: "'w file_ops \<Rightarrow> environ \<Rightarrow> ('w, bool list) io" where
  "test_setup_teardown F env w =
     (case glob_all F (DOCKER_LOG_DIR env) w of (files, w') \<Rightarrow> delete_old_files F files w')"

text \<open>The teardown never raises.\<close>

lemma delete_if_old_returns: "\<exists>b w'. delete_if_old F f w = (Inr b, w')"
  by (auto simp: delete_if_old_def io_defs split: prod.splits sum.splits)

lemma delete_old_files_returns: "\<exists>bs w'. delete_old_files F fs w = (Inr bs, w') \<and> length bs = length fs"
proof (induction fs arbitrary: w)
  case (Cons f fs)
  obtain b w1 where "delete_if_old F f w = (Inr b, w1)" using delete_if_old_returns [of F f w] by blast
  moreover obtain bs w2 where "delete_old_files F fs w1 = (Inr bs, w2)" "length bs = length fs" using Cons by blast
  ultimately show ?case by (simp add: io_defs)
qed (simp add: io_defs)

lemma test_setup_teardown_returns: "\<exists>bs w'. test_setup_teardown F env w = (Inr bs, w')"
  using delete_old_files_returns by (fastforce simp: test_setup_teardown_def split: prod.splits)

text \<open>On a disk with one directory and a clock: exactly the visible files older than an hour go.\<close>

record disk =
  mtimes :: "(string, rat) dict"
  clock :: rat

definition disk_ops :: "string \<Rightarrow> disk file_ops" where
  "disk_ops dir =
     \<lparr>list_dir = (\<lambda>d w. (if d = dir then map fst (mtimes w) else [], w)),
      getmtime = (\<lambda>f w. (case map_of (map (map_prod (path_join dir) id) (mtimes w)) f of
         Some m \<Rightarrow> Inr m | None \<Rightarrow> Inl (Exn FileNotFoundError f), w)),
      read_clock = (\<lambda>w. (clock w, w)),
      remove_file = (\<lambda>f w. (Inr (), w\<lparr>mtimes := filter (\<lambda>(n, _). path_join dir n \<noteq> f) (mtimes w)\<rparr>)),
      read_text = (\<lambda>f w. (Inl (Exn FileNotFoundError f), w))\<rparr>"

definition plain_name :: "string \<Rightarrow> bool" where
  "plain_name n \<longleftrightarrow> \<not> startswith n ''/''"

lemma path_join_inj: "plain_name n \<Longrightarrow> plain_name n' \<Longrightarrow> path_join dir n = path_join dir n' \<longleftrightarrow> n = n'"
  by (auto simp: path_join_def plain_name_def)

lemma delete_if_old_disk:
  assumes "distinct (map fst (mtimes w))" "(n, m) \<in> set (mtimes w)" "list_all plain_name (map fst (mtimes w))"
  shows "delete_if_old (disk_ops dir) (path_join dir n) w =
    (Inr False, if m < clock w - 3600 then w\<lparr>mtimes := filter (\<lambda>(n', _). n' \<noteq> n) (mtimes w)\<rparr> else w)"
proof -
  have inj: "path_join dir a = path_join dir n \<longleftrightarrow> a = n" if "a \<in> fst ` set (mtimes w)" for a
    using that assms(2,3) by (intro path_join_inj) (force simp: list_all_iff)+
  have "inj_on (path_join dir) (set (map fst (mtimes w)))"
    using assms(3) by (intro inj_onI) (metis list.pred_set path_join_inj)
  then have "distinct (map fst (map (map_prod (path_join dir) id) (mtimes w)))"
    using assms(1) by (simp add: distinct_map comp_def image_comp inj_on_def)
  then have "map_of (map (map_prod (path_join dir) id) (mtimes w)) (path_join dir n) = Some m"
    using assms(2) by (intro map_of_is_SomeI) force+
  moreover have "filter (\<lambda>(n', _). path_join dir n' \<noteq> path_join dir n) (mtimes w) = filter (\<lambda>(n', _). n' \<noteq> n) (mtimes w)"
    using inj by (intro filter_cong) force+
  ultimately show ?thesis by (simp add: delete_if_old_def disk_ops_def io_defs)
qed

lemma delete_old_files_disk:
  assumes "distinct (map fst (mtimes w))" "list_all plain_name (map fst (mtimes w))" "set ns \<subseteq> set (map fst (mtimes w))" "distinct ns"
  shows "snd (delete_old_files (disk_ops dir) (map (path_join dir) ns) w) =
    w\<lparr>mtimes := filter (\<lambda>(n, m). n \<notin> set ns \<or> clock w - 3600 \<le> m) (mtimes w)\<rparr>"
  using assms
proof (induction ns arbitrary: w)
  case Nil
  then show ?case by (simp add: io_defs case_prod_beta)
next
  case (Cons n ns)
  then obtain m where m: "(n, m) \<in> set (mtimes w)" by auto
  let ?w = "if m < clock w - 3600 then w\<lparr>mtimes := filter (\<lambda>(n', _). n' \<noteq> n) (mtimes w)\<rparr> else w"
  have one: "delete_if_old (disk_ops dir) (path_join dir n) w = (Inr False, ?w)"
    using Cons.prems m by (intro delete_if_old_disk) auto
  obtain bs w2 where rest: "delete_old_files (disk_ops dir) (map (path_join dir) ns) ?w = (Inr bs, w2)"
    using delete_old_files_returns [of "disk_ops dir" "map (path_join dir) ns" ?w] by blast
  have "w2 = ?w\<lparr>mtimes := filter (\<lambda>(n, m). n \<notin> set ns \<or> clock ?w - 3600 \<le> m) (mtimes ?w)\<rparr>"
    using Cons.IH [of ?w] Cons.prems rest by (force simp: list_all_iff distinct_map_filter)
  also have "\<dots> = w\<lparr>mtimes := filter (\<lambda>(n', m). n' \<notin> set (n # ns) \<or> clock w - 3600 \<le> m) (mtimes w)\<rparr>"
  proof -
    have "m' = m" if "(n, m') \<in> set (mtimes w)" for m' using that m Cons.prems(1) by (metis eq_key_imp_eq_value)
    then have "filter (\<lambda>(n, m). n \<notin> set ns \<or> clock w - 3600 \<le> m) (mtimes ?w) =
        filter (\<lambda>(n', m). n' \<notin> set (n # ns) \<or> clock w - 3600 \<le> m) (mtimes w)"
      using Cons.prems(4) by (auto intro!: filter_cong)
    then show ?thesis by (cases "m < clock w - 3600") simp_all
  qed
  finally show ?case using one rest by (simp add: io_defs)
qed

text \<open>exactly the visible files that were changed more than an hour ago are removed.\<close>

lemma old_logs_removed:
  assumes "distinct (map fst (mtimes w))" "list_all plain_name (map fst (mtimes w))"
  shows "snd (test_setup_teardown (disk_ops (DOCKER_LOG_DIR env)) env w) =
    w\<lparr>mtimes := filter (\<lambda>(n, m). startswith n ''.'' \<or> clock w - 3600 \<le> m) (mtimes w)\<rparr>"
proof -
  let ?d = "DOCKER_LOG_DIR env" and ?ns = "filter (\<lambda>n. \<not> startswith n ''.'') (map fst (mtimes w))"
  have "test_setup_teardown (disk_ops ?d) env w = delete_old_files (disk_ops ?d) (map (path_join ?d) ?ns) w"
    by (simp add: test_setup_teardown_def glob_all_def disk_ops_def)
  then have "snd (test_setup_teardown (disk_ops ?d) env w) =
      w\<lparr>mtimes := filter (\<lambda>(n, m). n \<notin> set ?ns \<or> clock w - 3600 \<le> m) (mtimes w)\<rparr>"
    using delete_old_files_disk [OF assms, of ?ns ?d] assms(1) by simp
  also have "filter (\<lambda>(n, m). n \<notin> set ?ns \<or> clock w - 3600 \<le> m) (mtimes w) =
      filter (\<lambda>(n, m). startswith n ''.'' \<or> clock w - 3600 \<le> m) (mtimes w)"
    by (intro filter_cong) force+
  finally show ?thesis .
qed

section \<open>Errors in the node logs\<close>

text \<open>\<open>check_waku_log_errors\<close> of the nodes in \<open>DS.waku_nodes\<close>, without a whitelist; the first node with an error ends the
  search.\<close>

definition check_node_log :: "'w file_ops \<Rightarrow> nat \<Rightarrow> ('w test, unit) io" where
  "check_node_log F i =
     io_bind (of_node i (\<lambda>n. Inr (log_path n))) (\<lambda>path.
     io_bind (\<lambda>t. case read_text F path (outside t) of (r, w) \<Rightarrow> (r, t\<lparr>outside := w\<rparr>)) (\<lambda>text.
       io_lift (check_waku_log_errors text [])))"

definition check_log_errors_fixture :: "'w file_ops \<Rightarrow> ('w test, unit) io" where
  "check_log_errors_fixture F t = io_each (check_node_log F) (storage t) t"

lemma check_waku_log_errors_iff:
  assumes "distinct (error_keywords whitelist)"
  shows "check_waku_log_errors text whitelist = Inr () \<longleftrightarrow>
    (\<forall>k \<in> set (error_keywords whitelist). \<forall>line \<in> set (file_lines text). \<not> str_in (lower k) (lower line))"
  using search_log_found [OF assms, of "\<lambda>_. Inr (\<lambda>_. False)" False "text"] search_log_some [of "\<lambda>_. Inr (\<lambda>_. False)" "text"]
  by (auto simp: check_waku_log_errors_def py_assert_def contains_def bad_pattern_def Let_def filter_empty_conv split: if_splits)

section \<open>The database container\<close>

text \<open>The fixture around the body of a test: the outcome of the test, and then that of the removal, which is done
  whatever the test has done.\<close>

definition start_postgres_container ::
    "'w docker \<Rightarrow> environ \<Rightarrow> ('w, bool) retrier \<Rightarrow> (string \<Rightarrow> ('w, 'a) io) \<Rightarrow> ('w, 'a res \<times> unit res) io" where
  "start_postgres_container d env rt body =
     io_bind (start_postgres d env rt) (\<lambda>pg_container w.
       case body pg_container w of (outcome, w') \<Rightarrow>
         (case stop_postgres d pg_container w' of (removal, w'') \<Rightarrow> (Inr (outcome, removal), w'')))"

section \<open>The end of a session\<close>

datatype exit_action = FlushStdout | FlushStderr | LoggingShutdown | HardExit int

definition pytest_sessionfinish :: "int \<Rightarrow> int option" where
  "pytest_sessionfinish exitstatus = Some exitstatus"

fun pytest_unconfigure :: "int option \<Rightarrow> exit_action list" where
  "pytest_unconfigure None = []"
| "pytest_unconfigure (Some status) = [FlushStdout, FlushStderr, LoggingShutdown, HardExit status]"

end
