(* ===== verification/Test_Lifecycle.thy ===== *)
theory Test_Lifecycle
  imports Steps_Messaging Steps_Fleet Test_Fixtures
begin

text \<open>
  The step classes of the end-to-end tests together. A test calls steps of several classes in any order and
  goes on after one that raised (a fixture, a retry, an expected error); the teardown stops the nodes that
  are in the list \<open>DS.waku_nodes\<close>. Here every step that starts or stops nodes is one value of a type, and a
  run of a test is a list of them.
\<close>

section \<open>Runs of a test\<close>

datatype setup_step =
    RelaySetup
  | MainNodes "(string, pyval) dict"
  | FirstRelayNode "(string, pyval) dict"
  | SecondRelayNode "(string, pyval) dict"
  | OptionalRelayNodes
  | FilterRelayNode string
  | MainFilterNode
  | OptionalFilterNodes string
  | LightPushSetup
  | FirstReceivingNode string string "(string, pyval) dict"
  | SecondReceivingNode string string "(string, pyval) dict"
  | FirstLightpushNode string string "(string, pyval) dict"
  | SecondLightpushNode string string "(string, pyval) dict"
  | StoreSetup
  | FirstPublishingNode string string "(string, pyval) dict"
  | SecondPublishingNode string string "(string, pyval) dict"
  | FirstStoreNode string string "(string, pyval) dict"
  | MessagingSetup
  | StoreMessagingNode "(string, pyval) dict"
  | ClientMessagingNode "(string, pyval) dict"
  | FleetNode string string
  | FleetNodes "nat list" "(bool \<times> string) list"
  | StopNode nat

fun run_setup :: "'w step_env \<Rightarrow> setup_step \<Rightarrow> ('w test, unit) io" where
  "run_setup E RelaySetup = relay_setup"
| "run_setup E (MainNodes kw) = setup_main_nodes E kw"
| "run_setup E (FirstRelayNode kw) = setup_first_relay_node E kw"
| "run_setup E (SecondRelayNode kw) = setup_second_relay_node E kw"
| "run_setup E OptionalRelayNodes = setup_optional_relay_nodes E"
| "run_setup E (FilterRelayNode img) = ignore (relay_node_start E img)"
| "run_setup E MainFilterNode = setup_main_filter_node E"
| "run_setup E (OptionalFilterNodes imgs) = setup_optional_filter_nodes E imgs"
| "run_setup E LightPushSetup = light_push_setup"
| "run_setup E (FirstReceivingNode a b kw) = setup_first_receiving_node E a b kw"
| "run_setup E (SecondReceivingNode a b kw) = setup_second_receiving_node E a b kw"
| "run_setup E (FirstLightpushNode a b kw) = setup_first_lightpush_node E a b kw"
| "run_setup E (SecondLightpushNode a b kw) = setup_second_lightpush_node E a b kw"
| "run_setup E StoreSetup = store_setup"
| "run_setup E (FirstPublishingNode a b kw) = setup_first_publishing_node E a b kw"
| "run_setup E (SecondPublishingNode a b kw) = setup_second_publishing_node E a b kw"
| "run_setup E (FirstStoreNode a b kw) = setup_first_store_node E a b kw"
| "run_setup E MessagingSetup = messaging_setup"
| "run_setup E (StoreMessagingNode kw) = setup_store_messaging_node E kw"
| "run_setup E (ClientMessagingNode kw) = setup_client_messaging_node E kw"
| "run_setup E (FleetNode nm relay) = ignore (start_fleet_node E nm relay)"
| "run_setup E (FleetNodes sched kinds) = ignore (start_fleet_nodes sched (fleet_starts E kinds))"
| "run_setup E (StopNode i) = on_node i (stop (cfg E))"

definition run_steps :: "'w step_env \<Rightarrow> setup_step list \<Rightarrow> 'w test \<Rightarrow> 'w test" where
  "run_steps E steps t = foldl (\<lambda>t st. snd (run_setup E st t)) t steps"

section \<open>Every step keeps track of the nodes\<close>

lemma keeps_stop_node: "config_ok c \<Longrightarrow> keeps tracked (on_node i (stop c))"
  by (intro keeps_on_node trk.inv_stop)

lemma keeps_messaging_nodes:
  assumes "step_env_ok E"
  shows "keeps tracked (setup_store_messaging_node E kw)" "keeps tracked (setup_client_messaging_node E kw)"
  unfolding setup_store_messaging_node_def setup_client_messaging_node_def
  by (intro keeps_rules keeps_common [OF assms] env_config_ok [OF assms])+

lemma keeps_filter_nodes:
  assumes "step_env_ok E"
  shows "keeps tracked (relay_node_start E img)" "keeps tracked (setup_main_filter_node E)"
    "keeps tracked (setup_optional_filter_nodes E imgs)"
  unfolding relay_node_start_def setup_main_filter_node_def setup_optional_filter_nodes_def
  by (intro keeps_rules keeps_optional_node keeps_common assms env_config_ok)+

lemma keeps_numbered_nodes:
  assumes "step_env_ok E"
  shows "keeps tracked (setup_first_receiving_node E a b kw)" "keeps tracked (setup_second_receiving_node E a b kw)"
    "keeps tracked (setup_first_lightpush_node E a b kw)" "keeps tracked (setup_second_lightpush_node E a b kw)"
    "keeps tracked (setup_first_publishing_node E a b kw)" "keeps tracked (setup_second_publishing_node E a b kw)"
    "keeps tracked (setup_first_store_node E a b kw)"
  unfolding setup_first_receiving_node_def setup_second_receiving_node_def setup_first_lightpush_node_def
    setup_second_lightpush_node_def setup_first_publishing_node_def setup_second_publishing_node_def setup_first_store_node_def
  by (intro keeps_rules keeps_push_nodes [OF assms])+

lemma keeps_resets: "keeps tracked light_push_setup" "keeps tracked store_setup"
  unfolding light_push_setup_def store_setup_def by (intro keeps_rules)+

lemma keeps_run_setup:
  assumes "step_env_ok E"
  shows "keeps tracked (run_setup E st)"
  using keeps_relay_setup [OF assms] keeps_filter_nodes [OF assms] keeps_numbered_nodes [OF assms] keeps_resets
    keeps_messaging [OF assms] keeps_messaging_nodes [OF assms] keeps_fleet_node [OF assms] keeps_start_fleet_nodes [OF assms] keeps_stop_node [OF env_config_ok [OF assms]]
  by (cases st) (auto intro: keeps_ignore)

lemma tracked_run_steps:
  assumes "step_env_ok E" "tracked t"
  shows "tracked (run_steps E steps t)"
  unfolding run_steps_def using assms(2)
proof (induction steps arbitrary: t)
  case (Cons st steps)
  then show ?case using keepsD [OF keeps_run_setup [OF assms(1)]] by simp
qed simp

section \<open>The teardown\<close>

text \<open>The fixture \<open>close_open_nodes\<close> before and after a test: the list is emptied; afterwards every node in it is
  stopped, a failure is logged (here with the node it belongs to), and the images of the containers that had
  disappeared make the test fail.\<close>

definition open_list :: "'w test \<Rightarrow> 'w test" where
  "open_list t = t\<lparr>storage := []\<rparr>"

definition stop_open_node :: "'w config \<Rightarrow> nat \<Rightarrow> ('w test, string list \<times> (nat \<times> exn) list) io" where
  "stop_open_node c i =
     io_try (io_bind (on_node i (stop c)) (\<lambda>_. io_return ([], [])))
       (\<lambda>ex. if isa ex Exception then
            io_bind (of_node i (\<lambda>n. Inr (image_name n))) (\<lambda>img.
              io_return (if str_in ''No such container'' (text_of ex) then [img] else [], [(i, ex)]))
          else io_raise ex)"

fun stop_open_nodes :: "'w config \<Rightarrow> nat list \<Rightarrow> ('w test, string list \<times> (nat \<times> exn) list) io" where
  "stop_open_nodes c [] = io_return ([], [])"
| "stop_open_nodes c (i # is) =
     io_bind (stop_open_node c i) (\<lambda>(crashed, logged).
     io_bind (stop_open_nodes c is) (\<lambda>(crashed', logged'). io_return (crashed @ crashed', logged @ logged')))"

definition close_open_nodes :: "'w config \<Rightarrow> ('w test, unit res \<times> (nat \<times> exn) list) io" where
  "close_open_nodes c t =
     io_bind (stop_open_nodes c (storage t)) (\<lambda>(crashed, logged).
       io_return (py_assert (crashed = []) ''Containers crashed during the test!!!'', logged)) t"

lemma stop_open_node_frame:
  assumes "config_ok c" "stop_open_node c i t = (Inr (crashed, logged), t')"
  shows "next_node t' = next_node t \<and> (\<forall>j. j \<noteq> i \<longrightarrow> nodes_of t' j = nodes_of t j) \<and>
    (container (nodes_of t' i) = None \<or> i \<in> fst ` set logged)"
proof -
  let ?s = "\<lparr>self = nodes_of t i, ds_nodes = storage t, outer = outside t\<rparr>"
  obtain r s where run: "stop c ?s = (r, s)" by fastforce
  show ?thesis
  proof (cases r)
    case (Inr u)
    have "container (self s) = None" by (rule stop_clears_container [OF assms(1)]) (use run Inr in simp)
    then show ?thesis using assms(2) Inr by (auto simp: stop_open_node_def on_node_def run io_defs)
  next
    case (Inl ex)
    then show ?thesis using assms(2)
      by (auto simp: stop_open_node_def on_node_def of_node_def run io_defs split: if_splits)
  qed
qed

lemma stop_open_nodes_frame:
  assumes "config_ok c" "stop_open_nodes c is t = (Inr (crashed, logged), t')"
  shows "next_node t' = next_node t \<and> (\<forall>j. j \<notin> set is \<longrightarrow> nodes_of t' j = nodes_of t j) \<and>
    (\<forall>j \<in> set is. container (nodes_of t' j) = None \<or> j \<in> fst ` set logged)"
  using assms(2)
proof (induction "is" arbitrary: t crashed logged)
  case Nil
  then show ?case by (simp add: io_return_def)
next
  case (Cons i "is")
  obtain r t1 where one: "stop_open_node c i t = (r, t1)" by fastforce
  obtain r2 t2 where rest: "stop_open_nodes c is t1 = (r2, t2)" by fastforce
  obtain cr1 lg1 cr2 lg2 where r: "r = Inr (cr1, lg1)" "r2 = Inr (cr2, lg2)" "logged = lg1 @ lg2" "t' = t2"
    using Cons.prems one rest by (cases r; cases r2) (auto simp: io_bind_def io_return_def)
  note f1 = stop_open_node_frame [OF assms(1) one [unfolded r(1)]]
  note f2 = Cons.IH [OF rest [unfolded r(2) r(4) [symmetric]]]
  have "container (nodes_of t' i) = None \<or> i \<in> fst ` set logged"
    using f1 f2 r(3) by (cases "i \<in> set is") auto
  moreover have "\<forall>j \<in> set is. container (nodes_of t' j) = None \<or> j \<in> fst ` set logged"
    using f2 r(3) by auto
  ultimately show ?case using f1 f2 by simp
qed

text \<open>C36: whatever steps that start or stop nodes a test runs, of whatever classes, and whichever of them raise, a node that still holds a
  container after the teardown is one whose failed stop the teardown has logged.\<close>

theorem teardown_forgets_no_container:
  assumes "step_env_ok E" "next_node t = 0" "close_open_nodes (cfg E) (run_steps E steps (open_list t)) = (Inr (verdict, logged), t')"
  shows "{i. i < next_node t' \<and> container (nodes_of t' i) \<noteq> None} \<subseteq> fst ` set logged"
proof -
  let ?t = "run_steps E steps (open_list t)"
  have "tracked (open_list t)" using assms(2) by (simp add: tracked_def open_list_def)
  from tracked_run_steps [OF assms(1) this] have tr: "tracked ?t" .
  obtain crashed where "stop_open_nodes (cfg E) (storage ?t) ?t = (Inr (crashed, logged), t')"
    using assms(3) by (auto simp: close_open_nodes_def io_bind_def io_return_def split: prod.splits sum.splits)
  from stop_open_nodes_frame [OF env_config_ok [OF assms(1)] this] tr show ?thesis
    unfolding tracked_def by (auto, metis option.distinct(1))
qed

text \<open>A run in which a node never reports to be ready and cannot be stopped: the step raises, and the container
  that it leaves behind is found by the teardown.\<close>

definition stuck_env :: "sim step_env" where
  "stuck_env = sim_env\<lparr>cfg := (cfg sim_env)\<lparr>docker_client := (sim_docker True)\<lparr>
     container_stop := (\<lambda>_ w. (Inl (Exn APIError ''busy''), w))\<rparr>\<rparr>\<rparr>"

lemma stuck_env_ok: "step_env_ok stuck_env"
  using sim_env_ok unfolding step_env_ok_def stuck_env_def by (simp add: config_ok_def)

definition sim_run :: "(unit res \<times> (nat \<times> exn) list) res \<times> sim test" where
  "sim_run = close_open_nodes (cfg stuck_env)
     (run_steps stuck_env [FleetNode ''a'' ''true''] (open_list (sim_test\<lparr>next_node := 0\<rparr>)))"

lemma sim_run_result: "fst sim_run = Inr (Inr (), [(0, Exn APIError ''busy'')])"
  by code_simp

theorem teardown_forgets_no_container_witness:
  "{i. i < next_node (snd sim_run) \<and> container (nodes_of (snd sim_run) i) \<noteq> None} \<subseteq> {0}"
proof -
  have "close_open_nodes (cfg stuck_env) (run_steps stuck_env [FleetNode ''a'' ''true''] (open_list (sim_test\<lparr>next_node := 0\<rparr>))) =
      (Inr (Inr (), [(0, Exn APIError ''busy'')]), snd sim_run)"
    using sim_run_result unfolding sim_run_def by (metis prod.collapse)
  from teardown_forgets_no_container [OF stuck_env_ok _ this] show ?thesis by simp
qed

end
