(* ===== verification/Custom_Logger.thy ===== *)
theory Custom_Logger
  imports Py_Json
begin

text \<open>
  The loggers of the end-to-end tests (\<open>tests-e2e/src/libs/custom_logger.py\<close>): every module asks for one by its
  name; a filter replaces a line that is too long by a short notice, which goes through the same filter.
\<close>

section \<open>The loggers\<close>

definition max_log_line_length :: nat where
  "max_log_line_length = 5000"

text \<open>A logger with the limits of its filters and the number of its handlers; the levels set by name.\<close>

record logger =
  filters :: "nat list"
  handlers :: nat

record logging =
  loggers :: "string \<Rightarrow> logger"
  levels :: "string \<Rightarrow> nat option"

definition WARNING :: nat where "WARNING = 30"

definition fresh_logging :: logging where
  "fresh_logging = \<lparr>loggers = (\<lambda>_. \<lparr>filters = [], handlers = 0\<rparr>), levels = (\<lambda>_. None)\<rparr>"

definition log_length_filter :: "nat \<Rightarrow> string \<Rightarrow> string \<Rightarrow> string option" where
  "log_length_filter max_length notice msg = (if length (utf8_pieces msg) > max_length then Some notice else None)"

definition discarded_notice :: string where
  "discarded_notice = ''Log line was discarded because it'' @ apostrophe #
     ''s longer than max_log_line_length='' @ str_nat max_log_line_length"

definition get_custom_logger :: "string \<Rightarrow> logging \<Rightarrow> logging" where
  "get_custom_logger name w =
     (let l = loggers w name in
      w\<lparr>levels := (levels w)(''urllib3'' \<mapsto> WARNING, ''docker'' \<mapsto> WARNING),
        loggers := (loggers w)(name := l\<lparr>filters := filters l @ [max_log_line_length], handlers := Suc (handlers l)\<rparr>)\<rparr>)"

text \<open>\<open>logger.log(level, msg)\<close> for an enabled level: the first filter that refuses the line ends the call, after it
  has logged the notice. The nesting of such calls is bounded by the interpreter. The result is what the
  handlers of the logger print.\<close>

fun log_line :: "nat \<Rightarrow> logger \<Rightarrow> string \<Rightarrow> string list res" where
  "log_line 0 l msg = Inl (Exn RuntimeError ''maximum recursion depth exceeded'')"
| "log_line (Suc depth) l msg =
     (case first_match (\<lambda>m. log_length_filter m discarded_notice msg \<noteq> None) (filters l) of
        None \<Rightarrow> Inr (replicate (handlers l) msg)
      | Some _ \<Rightarrow> log_line depth l discarded_notice)"

section \<open>What is printed\<close>

lemma first_match_replicate:
  "first_match P (replicate n a) = (if n > 0 \<and> P a then Some a else None)"
  by (induction n) (auto simp: first_match_def)

lemma notice_length: "length (utf8_pieces discarded_notice) = 72"
proof -
  have d: "str_nat 5000 = ''5000''" by code_simp
  have "ascii discarded_notice"
    by (simp add: discarded_notice_def max_log_line_length_def d byte_def apostrophe_def)
  then have "length (utf8_pieces discarded_notice) = length discarded_notice" by (simp add: utf8_pieces_ascii)
  then show ?thesis by (simp add: discarded_notice_def max_log_line_length_def d)
qed

lemma custom_logger_filters:
  "loggers ((get_custom_logger name ^^ k) fresh_logging) name = \<lparr>filters = replicate k max_log_line_length, handlers = k\<rparr>"
  by (induction k) (simp_all add: fresh_logging_def get_custom_logger_def Let_def replicate_append_same)

text \<open>A module that asked \<open>k\<close> times for its logger prints every line \<open>k\<close> times; no line is longer than the limit,
  and a longer one is replaced by the notice, with two nested calls.\<close>

theorem custom_logger_lines:
  assumes "k > 0"
  shows "log_line (Suc (Suc depth)) (loggers ((get_custom_logger name ^^ k) fresh_logging) name) msg =
    Inr (replicate k (if length (utf8_pieces msg) \<le> max_log_line_length then msg else discarded_notice))"
  using assms notice_length
  by (simp add: custom_logger_filters first_match_replicate log_length_filter_def max_log_line_length_def)

end
