(* ===== verification/Example_Node.thy ===== *)
theory Example_Node
  imports Py_Json "HOL-Library.Word"
begin

text \<open>
  The example that drives the native library from Python (\<open>examples/python/waku.py\<close>): the library's file name,
  the options, the text of the configuration, the foreign calls with their declared argument types, and the
  callbacks. The main thread runs the script from top to bottom; the library answers each call later, on a
  thread of its own, so that a callback may run between any two statements.
\<close>

section \<open>The library file and the options\<close>

definition lib_ext :: "string \<Rightarrow> string" where
  "lib_ext platform =
     (if platform = ''darwin'' then ''dylib'' else if platform = ''win32'' then ''dll'' else ''so'')"

definition lib_path :: "string \<Rightarrow> string" where
  "lib_path platform = ''build/liblogosdelivery.'' @ lib_ext platform"

definition build_hint :: "string \<Rightarrow> string" where
  "build_hint path =
     join [char_of (10 :: nat)]
       [[], ''The '' @ apostrophe # path @ apostrophe # '' library can be created with the next command from'',
        ''the repo'' @ apostrophe # ''s root folder: `make liblogosdelivery`.'', [],
        ''And it should build the library in '' @ apostrophe # path @ apostrophe # ''.'', [],
        ''Therefore, make sure the library path env var points at the location that'',
        ''contains the '' @ apostrophe # path @ apostrophe # '' library.'', []]"

text \<open>Loading the library; without one the script prints why and leaves with status 1.\<close>

definition load_library :: "string \<Rightarrow> (string \<Rightarrow> exn option) \<Rightarrow> string list \<times> string res" where
  "load_library platform cdll =
     (case cdll (lib_path platform) of
        None \<Rightarrow> ([], Inr (lib_path platform))
      | Some e \<Rightarrow>
          if isa e OSError
          then ([''Exception: '' @ text_of e, build_hint (lib_path platform)], Inl (Exn SystemExit ''1''))
          else ([], Inl e))"

record example_args =
  arg_host :: string
  arg_port :: string
  arg_key :: string
  arg_relay :: string
  arg_peer :: string

text \<open>The namespace that \<open>parse_args\<close> returns, for a command line that gives each option with its value: the
  last value of an option counts, and the port and the key must be given.\<close>

definition parse_args :: "(string, string) dict \<Rightarrow> example_args res" where
  "parse_args given =
     (let got = (\<lambda>dest dflt. case map_of (rev given) dest of Some v \<Rightarrow> v | None \<Rightarrow> dflt) in
      if ''port'' \<notin> fst ` set given \<or> ''key'' \<notin> fst ` set given then Inl (Exn SystemExit ''2'')
      else Inr \<lparr>arg_host = got ''host'' ''0.0.0.0'', arg_port = got ''port'' ''60000'', arg_key = got ''key'' [],
                arg_relay = got ''relay'' ''true'', arg_peer = got ''peer'' []\<rparr>)"

section \<open>The configuration text\<close>

definition quoted :: "string \<Rightarrow> string" where
  "quoted s = quote_mark # s @ [quote_mark]"

definition spaces :: "nat \<Rightarrow> string" where
  "spaces n = replicate n (CHR '' '')"

text \<open>The backslash at the end of a line of the literal joins the lines and keeps the indentation.\<close>

definition config_text :: "string \<Rightarrow> int \<Rightarrow> string \<Rightarrow> string" where
  "config_text hst prt ky =
     ''{'' @ spaces 17 @ quoted ''mode'' @ '': '' @ quoted ''Core'' @ '','' @ spaces 17 @
     quoted ''messagingOverrides'' @ '': {'' @ spaces 21 @
     quoted ''listen-address'' @ '': '' @ quoted hst @ '','' @ spaces 21 @
     quoted ''tcp-port'' @ '': '' @ str_int prt @ '','' @ spaces 31 @
     quoted ''nodekey'' @ '': '' @ quoted ky @ '','' @ spaces 28 @
     quoted ''log-level'' @ '': '' @ quoted ''DEBUG'' @ spaces 20 @ ''}'' @ spaces 13 @ ''}''"

definition json_config :: "example_args \<Rightarrow> string res" where
  "json_config args =
     (case parse_int (arg_port args) of
        None \<Rightarrow> Inl (Exn ValueError ''invalid literal for int() with base 10'')
      | Some p \<Rightarrow> Inr (config_text (arg_host args) p (arg_key args)))"

section \<open>Foreign calls\<close>

datatype request = CreateNodeCtorReq string | RelaySubscribeReq string | ConnectReq string "32 word"

datatype handler =
  on_create_cb | on_version_cb | on_default_topic_cb | event_cb | on_start_cb | on_subscribe_cb | on_connect_cb

datatype ctype = c_void_p | c_char_p | callback_type | reply_callback_type | POINTER string

datatype arg = Pointer "nat option" | Bytes string | Callback handler | Byref request

primrec struct_name :: "request \<Rightarrow> string" where
  "struct_name (CreateNodeCtorReq _) = ''CreateNodeCtorReq''"
| "struct_name (RelaySubscribeReq _) = ''RelaySubscribeReq''"
| "struct_name (ConnectReq _ _) = ''ConnectReq''"

text \<open>The function type each handler is wrapped in.\<close>

definition create_cb_type :: ctype where "create_cb_type = reply_callback_type"
definition version_cb_type :: ctype where "version_cb_type = callback_type"
definition default_topic_cb_type :: ctype where "default_topic_cb_type = callback_type"
definition event_cb_type :: ctype where "event_cb_type = callback_type"
definition start_cb_type :: ctype where "start_cb_type = callback_type"
definition subscribe_cb_type :: ctype where "subscribe_cb_type = reply_callback_type"
definition connect_cb_type :: ctype where "connect_cb_type = reply_callback_type"

lemmas cb_types = create_cb_type_def version_cb_type_def default_topic_cb_type_def event_cb_type_def start_cb_type_def
  subscribe_cb_type_def connect_cb_type_def

primrec wrapped_as :: "handler \<Rightarrow> ctype" where
  "wrapped_as on_create_cb = create_cb_type"
| "wrapped_as on_version_cb = version_cb_type"
| "wrapped_as on_default_topic_cb = default_topic_cb_type"
| "wrapped_as event_cb = event_cb_type"
| "wrapped_as on_start_cb = start_cb_type"
| "wrapped_as on_subscribe_cb = subscribe_cb_type"
| "wrapped_as on_connect_cb = connect_cb_type"

text \<open>What \<open>ctypes\<close> accepts for a declared type.\<close>

fun fits :: "ctype \<Rightarrow> arg \<Rightarrow> bool" where
  "fits c_void_p (Pointer _) = True"
| "fits c_char_p (Bytes _) = True"
| "fits (POINTER s) (Byref r) = (struct_name r = s)"
| "fits ty (Callback h) = (wrapped_as h = ty)"
| "fits _ _ = False"

text \<open>The declared argument types of each function, and the table of them.\<close>

definition create_node_argtypes :: "ctype list" where
  "create_node_argtypes = [POINTER ''CreateNodeCtorReq'', reply_callback_type, c_void_p]"
definition version_argtypes :: "ctype list" where
  "version_argtypes = [c_void_p, callback_type, c_void_p]"
definition default_topic_argtypes :: "ctype list" where
  "default_topic_argtypes = [c_void_p, callback_type, c_void_p]"
definition add_event_listener_argtypes :: "ctype list" where
  "add_event_listener_argtypes = [c_void_p, c_char_p, callback_type, c_void_p]"
definition start_node_argtypes :: "ctype list" where
  "start_node_argtypes = [c_void_p, callback_type, c_void_p]"
definition relay_subscribe_argtypes :: "ctype list" where
  "relay_subscribe_argtypes = [c_void_p, reply_callback_type, c_void_p, POINTER ''RelaySubscribeReq'']"
definition connect_argtypes :: "ctype list" where
  "connect_argtypes = [c_void_p, reply_callback_type, c_void_p, POINTER ''ConnectReq'']"

definition argtypes :: "(string, ctype list) dict" where
  "argtypes =
     [(''logosdelivery_create_node'', create_node_argtypes), (''waku_version'', version_argtypes),
      (''waku_default_pubsub_topic'', default_topic_argtypes),
      (''logosdelivery_add_event_listener'', add_event_listener_argtypes),
      (''logosdelivery_start_node'', start_node_argtypes), (''waku_relay_subscribe'', relay_subscribe_argtypes),
      (''waku_connect'', connect_argtypes)]"

lemmas argtypes_defs = argtypes_def create_node_argtypes_def version_argtypes_def default_topic_argtypes_def
  add_event_listener_argtypes_def start_node_argtypes_def relay_subscribe_argtypes_def connect_argtypes_def cb_types

type_synonym ffi_call = "string \<times> arg list"

text \<open>\<open>ctypes\<close> refuses a call with too few arguments or with one that does not fit.\<close>

definition marshal :: "ffi_call \<Rightarrow> unit res" where
  "marshal call =
     (case map_of argtypes (fst call) of
        None \<Rightarrow> Inr ()
      | Some tys \<Rightarrow>
          if length (snd call) < length tys
          then Inl (Exn TypeError ''this function takes more arguments'')
          else if list_all2 fits tys (take (length tys) (snd call)) then Inr ()
          else Inl (Exn ArgumentError ''wrong type''))"

section \<open>The script\<close>

definition event_names :: "string list" where
  "event_names =
     [''onMessageSent'', ''onMessageError'', ''onMessagePropagated'', ''onMessageReceived'',
      ''onConnectionStatusChange'', ''onTopicHealthChange'', ''onConnectionChange'', ''onReceivedMessage'',
      ''onChannelMessageReceived'', ''onChannelMessageSent'', ''onChannelMessageError'']"

datatype stmt =
    CreateNode string
  | GetVersion
  | GetDefaultTopic
  | PrintSettings
  | AddListener string
  | StartNode
  | Subscribe
  | ConnectPeer

definition script :: "string \<Rightarrow> stmt list" where
  "script cfg = [CreateNode cfg, GetVersion, GetDefaultTopic, PrintSettings] @ map AddListener event_names @
     [StartNode, Subscribe, ConnectPeer]"

text \<open>The script's variables, the statements left, the calls made, the callbacks the library still owes, and
  what was printed. With no statement left the main thread waits in \<open>input()\<close>.\<close>

record example_state =
  todo :: "stmt list"
  ctx :: "nat option"
  default_pubsub_topic :: string
  made :: "ffi_call list"
  owed :: "handler list"
  listening :: bool
  out :: "string list"

definition call_lib :: "string \<Rightarrow> arg list \<Rightarrow> example_state \<Rightarrow> example_state res" where
  "call_lib f as st = res_bind (marshal (f, as)) (\<lambda>_. Inr (st\<lparr>made := made st @ [(f, as)]\<rparr>))"

definition ask :: "string \<Rightarrow> handler \<Rightarrow> arg list \<Rightarrow> example_state \<Rightarrow> example_state res" where
  "ask f h as st = res_bind (call_lib f as st) (\<lambda>st. Inr (st\<lparr>owed := owed st @ [h]\<rparr>))"

fun exec :: "example_args \<Rightarrow> nat option \<Rightarrow> stmt \<Rightarrow> example_state \<Rightarrow> example_state res" where
  "exec args handle (CreateNode cfg) st =
     res_bind (ask ''logosdelivery_create_node'' on_create_cb
         [Byref (CreateNodeCtorReq cfg), Callback on_create_cb, Pointer None] st)
       (\<lambda>st. Inr (st\<lparr>ctx := handle\<rparr>))"
| "exec args handle GetVersion st =
     ask ''waku_version'' on_version_cb [Pointer (ctx st), Callback on_version_cb, Pointer None] st"
| "exec args handle GetDefaultTopic st =
     ask ''waku_default_pubsub_topic'' on_default_topic_cb
       [Pointer (ctx st), Callback on_default_topic_cb, Pointer None] (st\<lparr>default_pubsub_topic := []\<rparr>)"
| "exec args handle PrintSettings st =
     Inr (st\<lparr>out := out st @ [''Bind addr: '' @ arg_host args @ '':'' @ arg_port args,
                              ''Waku Relay enabled: '' @ arg_relay args]\<rparr>)"
| "exec args handle (AddListener ev) st =
     call_lib ''logosdelivery_add_event_listener'' [Pointer (ctx st), Bytes ev, Callback event_cb, Pointer None]
       (st\<lparr>listening := True\<rparr>)"
| "exec args handle StartNode st =
     ask ''logosdelivery_start_node'' on_start_cb [Pointer (ctx st), Callback on_start_cb, Pointer None] st"
| "exec args handle Subscribe st =
     ask ''waku_relay_subscribe'' on_subscribe_cb
       [Pointer (ctx st), Callback on_subscribe_cb, Pointer None,
        Byref (RelaySubscribeReq (default_pubsub_topic st))] st"
| "exec args handle ConnectPeer st =
     ask ''waku_connect'' on_connect_cb
       [Pointer (ctx st), Callback on_connect_cb, Pointer None, Byref (ConnectReq (arg_peer args) 10000)] st"

text \<open>\<open>call_waku\<close>, which no statement of the script uses: what it prints and whether it leaves.\<close>

definition call_waku :: "int \<Rightarrow> string list \<times> unit res" where
  "call_waku ret =
     (if ret \<noteq> 0
      then ([''Error in dict_keys(['' @ repr_str ''func'' @ '', '' @ repr_str ''ret'' @ '']). Error code: '' @ str_int ret],
            Inl (Exn SystemExit ''1''))
      else ([], Inr ()))"

section \<open>Callbacks\<close>

text \<open>What the library passes: a return code and the memory from the message pointer on with the length of the
  message, or a return code with a reply and an error text. A \<open>c_char_p\<close> argument reads up to the first NUL.\<close>

datatype result = Raw int "string option" nat | Reply int "string option" "string option"

definition c_string :: "string \<Rightarrow> string" where
  "c_string mem = takeWhile (\<lambda>c. byte c \<noteq> 0) mem"

definition repr_byte :: "char \<Rightarrow> char \<Rightarrow> string" where
  "repr_byte delim c =
     (if byte c < 128 then repr_char delim c
      else [backslash, CHR ''x'', hex_char (byte c div 16), hex_char (byte c mod 16)])"

text \<open>\<open>"%s" % msg\<close> for a byte string or \<open>None\<close>.\<close>

definition show_bytes :: "string option \<Rightarrow> string" where
  "show_bytes m =
     (case m of
        None \<Rightarrow> ''None''
      | Some s \<Rightarrow>
          (let d = (if apostrophe \<in> set s \<and> quote_mark \<notin> set s then quote_mark else apostrophe)
           in CHR ''b'' # d # concat (map (repr_byte d) s) @ [d]))"

text \<open>\<open>msg.decode('utf-8')\<close>, and \<open>(err or b"").decode('utf-8')\<close>.\<close>

definition decoded :: "string option \<Rightarrow> string res" where
  "decoded m =
     (case m of None \<Rightarrow> Inl (Exn AttributeError ''decode'') | Some s \<Rightarrow> utf8_decode s)"

definition decoded_or_empty :: "string option \<Rightarrow> string res" where
  "decoded_or_empty m = utf8_decode (case m of None \<Rightarrow> [] | Some s \<Rightarrow> s)"

definition say :: "string \<Rightarrow> example_state \<Rightarrow> example_state" where
  "say t st = st\<lparr>out := out st @ [t]\<rparr>"

text \<open>The body of a callback. An exception in it is reported on stderr and goes no further, and no body has an
  effect before it raises.\<close>

fun handle_result :: "handler \<Rightarrow> result \<Rightarrow> example_state \<Rightarrow> example_state res" where
  "handle_result on_version_cb (Raw ret msg n) st =
     res_bind (decoded (map_option c_string msg)) (\<lambda>t. Inr (say (''Git Version: '' @ t) st))"
| "handle_result on_default_topic_cb (Raw ret msg n) st =
     res_bind (decoded (map_option c_string msg)) (\<lambda>t.
       Inr (say (''Default pubsub topic: '' @ t) (st\<lparr>default_pubsub_topic := t\<rparr>)))"
| "handle_result event_cb (Raw ret msg n) st =
     Inr (say (''Event received: '' @ show_bytes (map_option c_string msg)) st)"
| "handle_result on_start_cb (Raw ret msg n) st =
     res_bind (decoded (map_option c_string msg)) (\<lambda>t. Inr (say (''Error in logosdelivery_start_node: '' @ t) st))"
| "handle_result on_create_cb (Reply ret reply err) st =
     res_bind (decoded_or_empty (map_option c_string err)) (\<lambda>t.
       Inr (say (''Error calling logosdelivery_create_node: %s '' @ t) st))"
| "handle_result on_subscribe_cb (Reply ret reply err) st =
     res_bind (decoded_or_empty (map_option c_string err)) (\<lambda>t. Inr (say (''Error calling waku_relay_subscribe: '' @ t) st))"
| "handle_result on_connect_cb (Reply ret reply err) st =
     res_bind (decoded_or_empty (map_option c_string err)) (\<lambda>t. Inr (say (''Error calling waku_connect: '' @ t) st))"
| "handle_result _ _ st = Inr st"

definition run_callback :: "handler \<Rightarrow> result \<Rightarrow> example_state \<Rightarrow> example_state" where
  "run_callback h r st = (case handle_result h r st of Inr st' \<Rightarrow> st' | Inl _ \<Rightarrow> st)"

section \<open>Runs\<close>

inductive example_step :: "example_args \<Rightarrow> nat option \<Rightarrow> example_state \<Rightarrow> example_state \<Rightarrow> bool"
  for args handle where
  main_thread: "todo st = s # rest \<Longrightarrow> exec args handle s (st\<lparr>todo := rest\<rparr>) = Inr st' \<Longrightarrow> example_step args handle st st'"
| answer: "h \<in> set (owed st) \<Longrightarrow> example_step args handle st (run_callback h r (st\<lparr>owed := remove1 h (owed st)\<rparr>))"
| event: "listening st \<Longrightarrow> example_step args handle st (run_callback event_cb r st)"

definition example_init :: "string \<Rightarrow> example_state" where
  "example_init cfg =
     \<lparr>todo = script cfg, ctx = None, default_pubsub_topic = [], made = [], owed = [], listening = False, out = []\<rparr>"

section \<open>The calls of a run\<close>

text \<open>The calls that a statement makes when it runs with this handle of the node and this topic.\<close>

definition planned :: "example_args \<Rightarrow> nat option \<Rightarrow> string \<Rightarrow> stmt \<Rightarrow> ffi_call list" where
  "planned args handle topic s =
     (case exec args handle s
        \<lparr>todo = [], ctx = handle, default_pubsub_topic = topic, made = [], owed = [], listening = False, out = []\<rparr> of
        Inr st \<Rightarrow> made st
      | Inl _ \<Rightarrow> [])"

definition plan :: "example_args \<Rightarrow> nat option \<Rightarrow> string \<Rightarrow> stmt list \<Rightarrow> ffi_call list" where
  "plan args handle topic ss = concat (map (planned args handle topic) ss)"

lemma plan_simps [simp]:
  "plan args handle topic [] = []" "plan args handle topic (s # ss) = planned args handle topic s @ plan args handle topic ss"
  "plan args handle topic (ss @ ts) = plan args handle topic ss @ plan args handle topic ts"
  by (simp_all add: plan_def)

lemmas call_unfold = ask_def call_lib_def marshal_def argtypes_defs

lemma planned_marshal: "call \<in> set (planned args handle topic s) \<Longrightarrow> marshal call = Inr ()"
  by (cases s) (auto simp: planned_def call_unfold)

lemma plan_marshal: "call \<in> set (plan args handle topic ss) \<Longrightarrow> marshal call = Inr ()"
  by (auto simp: plan_def planned_marshal)

text \<open>A statement always runs to its end, and makes the calls planned for it.\<close>

lemma exec_runs:
  assumes "(\<exists>cfg. s = CreateNode cfg) \<or> ctx st = handle"
  shows "\<exists>st'. exec args handle s st = Inr st' \<and> todo st' = todo st \<and> ctx st' = handle \<and>
    made st' = made st @ planned args handle (default_pubsub_topic st) s"
  using assms by (cases s) (auto simp: planned_def call_unfold)

lemma handle_result_frame:
  "handle_result h r st = Inr st' \<Longrightarrow>
     todo st' = todo st \<and> made st' = made st \<and> ctx st' = ctx st \<and> owed st' = owed st \<and> listening st' = listening st"
proof (induction h r st rule: handle_result.induct)
qed (auto simp: say_def elim!: res_bind.elims)

lemma run_callback_frame [simp]:
  "todo (run_callback h r st) = todo st" "made (run_callback h r st) = made st" "ctx (run_callback h r st) = ctx st"
  by (cases "handle_result h r st"; simp add: run_callback_def handle_result_frame)+

text \<open>What holds after a part of the script: the topic of the plan is free until the subscription.\<close>

definition progress :: "example_args \<Rightarrow> nat option \<Rightarrow> string \<Rightarrow> example_state \<Rightarrow> bool" where
  "progress args handle cfg st \<longleftrightarrow>
     (\<exists>past. script cfg = past @ todo st \<and> (past \<noteq> [] \<longrightarrow> ctx st = handle) \<and>
        (\<exists>topic. made st = plan args handle topic past))"

lemma plan_before_subscribe: "Subscribe \<notin> set ss \<Longrightarrow> plan args handle t ss = plan args handle t' ss"
proof -
  have "s \<noteq> Subscribe \<Longrightarrow> planned args handle t s = planned args handle t' s" for s by (cases s) (auto simp: planned_def call_unfold)
  then show "Subscribe \<notin> set ss \<Longrightarrow> ?thesis" by (induction ss) auto
qed

lemma script_order:
  assumes "script cfg = past @ s # rest"
  shows "(past = [] \<longrightarrow> s = CreateNode cfg) \<and> (s = Subscribe \<longrightarrow> Subscribe \<notin> set past)"
proof -
  have "distinct (script cfg)" "hd (script cfg) = CreateNode cfg"
    by (auto simp: script_def event_names_def)
  with assms show ?thesis by auto
qed

lemma progress_main:
  assumes "progress args handle cfg st" "todo st = s # rest"
  shows "\<exists>st'. exec args handle s (st\<lparr>todo := rest\<rparr>) = Inr st' \<and> progress args handle cfg st'"
proof -
  from assms obtain past topic where past: "script cfg = past @ s # rest" "past \<noteq> [] \<longrightarrow> ctx st = handle"
      "made st = plan args handle topic past"
    by (auto simp: progress_def)
  let ?t = "if s = Subscribe then default_pubsub_topic st else topic"
  have "(\<exists>cfg. s = CreateNode cfg) \<or> ctx (st\<lparr>todo := rest\<rparr>) = handle" using script_order [OF past(1)] past(2) by auto
  from exec_runs [OF this] obtain st' where st': "exec args handle s (st\<lparr>todo := rest\<rparr>) = Inr st'" "todo st' = rest"
      "ctx st' = handle" "made st' = made st @ planned args handle (default_pubsub_topic st) s"
    by fastforce
  have "planned args handle (default_pubsub_topic st) s = planned args handle ?t s" by (cases s) (auto simp: planned_def call_unfold)
  moreover have "plan args handle topic past = plan args handle ?t past"
    using script_order [OF past(1)] plan_before_subscribe [of past] by auto
  ultimately have "made st' = plan args handle ?t (past @ [s])" using st'(4) past(3) by simp
  then have "progress args handle cfg st'" unfolding progress_def
    using past(1) st'(2,3) by (intro exI [of _ "past @ [s]"]) auto
  with st'(1) show ?thesis by blast
qed

lemma progress_reachable:
  assumes "(example_step args handle)\<^sup>*\<^sup>* (example_init cfg) st"
  shows "progress args handle cfg st"
  using assms
proof (induction rule: rtranclp_induct)
  case base
  show ?case by (auto simp: progress_def example_init_def)
next
  case (step st st')
  from step.hyps(2) show ?case
  proof cases
    case (main_thread s rest)
    then show ?thesis using progress_main [OF step.IH main_thread(1)] by auto
  qed (use step.IH in \<open>auto simp: progress_def\<close>)
qed

text \<open>The order in which the library is to be used: the node first, its version and topic, a listener for each kind of
  event before the node starts, then the start, the subscription and the connection.\<close>

definition call_order :: "string list" where
  "call_order =
     [''logosdelivery_create_node'', ''waku_version'', ''waku_default_pubsub_topic'',
      ''logosdelivery_add_event_listener'', ''logosdelivery_add_event_listener'', ''logosdelivery_add_event_listener'',
      ''logosdelivery_add_event_listener'', ''logosdelivery_add_event_listener'', ''logosdelivery_add_event_listener'',
      ''logosdelivery_add_event_listener'', ''logosdelivery_add_event_listener'', ''logosdelivery_add_event_listener'',
      ''logosdelivery_add_event_listener'', ''logosdelivery_add_event_listener'',
      ''logosdelivery_start_node'', ''waku_relay_subscribe'', ''waku_connect'']"

text \<open>The events that a call registers a listener for.\<close>

fun listens_to :: "ffi_call \<Rightarrow> string list" where
  "listens_to (f, _ # Bytes ev # _) = (if f = ''logosdelivery_add_event_listener'' then [ev] else [])"
| "listens_to _ = []"

lemma planned_script:
  "map fst (plan args handle topic (script cfg)) = call_order"
  "\<forall>call \<in> set (tl (plan args handle topic (script cfg))). hd (snd call) = Pointer handle"
  "hd (snd (hd (plan args handle topic (script cfg)))) = Byref (CreateNodeCtorReq cfg)"
  "concat (map listens_to (plan args handle topic (script cfg))) = event_names"
  by (simp_all add: script_def event_names_def call_order_def planned_def call_unfold)

text \<open>C38: whatever the library answers and whenever its callbacks run, the calls the example has made are the first ones
  of \<open>call_order\<close>, and all of them once the main thread waits for input; the first creates the node with the
  configuration and every later one carries the handle of that node; and no kind of event gets a second listener.\<close>

theorem example_calls_in_order:
  assumes "(example_step args handle)\<^sup>*\<^sup>* (example_init cfg) st"
  shows "prefix (map fst (made st)) call_order \<and> (todo st = [] \<longrightarrow> map fst (made st) = call_order) \<and>
    (made st \<noteq> [] \<longrightarrow> hd (snd (hd (made st))) = Byref (CreateNodeCtorReq cfg)) \<and>
    (\<forall>call \<in> set (tl (made st)). hd (snd call) = Pointer handle) \<and>
    distinct (concat (map listens_to (made st)))"
proof -
  obtain past topic where past: "script cfg = past @ todo st" "made st = plan args handle topic past"
    using progress_reachable [OF assms] by (auto simp: progress_def)
  let ?all = "plan args handle topic (script cfg)" and ?rest = "plan args handle topic (todo st)"
  have all: "?all = made st @ ?rest" using past by simp
  have "call_order = map fst (made st) @ map fst ?rest"
    using planned_script(1) [of args handle topic cfg] unfolding all by simp
  then have "prefix (map fst (made st)) call_order" "todo st = [] \<longrightarrow> map fst (made st) = call_order"
    by (auto intro: prefixI)
  moreover have "hd (snd (hd (made st))) = Byref (CreateNodeCtorReq cfg)" if "made st \<noteq> []"
    using planned_script(3) [of args handle topic cfg] that unfolding all by simp
  moreover have "\<forall>call \<in> set (tl (made st)). hd (snd call) = Pointer handle"
    using planned_script(2) [of args handle topic cfg] unfolding all by (cases "made st") auto
  moreover have "distinct event_names" by code_simp
  then have "distinct (concat (map listens_to (made st)))"
    using planned_script(4) [of args handle topic cfg] unfolding all by (metis concat_append distinct_append map_append)
  ultimately show ?thesis by blast
qed

text \<open>C39: every call of the example fits the argument types declared for it, so that the main thread never stops in
  an error of \<open>ctypes\<close>: it can go on from every state until it waits for input.\<close>

theorem example_calls_well_typed:
  assumes "(example_step args handle)\<^sup>*\<^sup>* (example_init cfg) st"
  shows "list_all (\<lambda>call. marshal call = Inr ()) (made st) \<and>
    (todo st \<noteq> [] \<longrightarrow> (\<exists>st'. exec args handle (hd (todo st)) (st\<lparr>todo := tl (todo st)\<rparr>) = Inr st'))"
proof -
  have p: "progress args handle cfg st" by (rule progress_reachable [OF assms])
  then have "list_all (\<lambda>call. marshal call = Inr ()) (made st)" by (auto simp: progress_def list_all_iff dest: plan_marshal)
  moreover have "todo st \<noteq> [] \<longrightarrow> (\<exists>st'. exec args handle (hd (todo st)) (st\<lparr>todo := tl (todo st)\<rparr>) = Inr st')"
    using progress_main [OF p] by (cases "todo st") auto
  ultimately show ?thesis by blast
qed

text \<open>Runs of the main thread alone.\<close>

fun run_main :: "example_args \<Rightarrow> nat option \<Rightarrow> nat \<Rightarrow> example_state \<Rightarrow> example_state" where
  "run_main args handle 0 st = st"
| "run_main args handle (Suc n) st =
     (case todo st of
        [] \<Rightarrow> st
      | s # rest \<Rightarrow> (case exec args handle s (st\<lparr>todo := rest\<rparr>) of Inr st' \<Rightarrow> run_main args handle n st' | Inl _ \<Rightarrow> st))"

lemma run_main_steps: "(example_step args handle)\<^sup>*\<^sup>* st (run_main args handle n st)"
proof (induction n arbitrary: st)
  case (Suc n)
  show ?case
  proof (cases "todo st")
    case (Cons s rest)
    show ?thesis
    proof (cases "exec args handle s (st\<lparr>todo := rest\<rparr>)")
      case (Inr st')
      then have "example_step args handle st st'" by (rule example_step.main_thread [OF Cons])
      with Suc [of st'] show ?thesis using Cons Inr by (simp add: converse_rtranclp_into_rtranclp)
    qed (simp add: Cons)
  qed simp
qed simp

definition nul :: char where "nul = char_of (0 :: nat)"

lemma c_string_nul: "\<forall>c \<in> set t. byte c \<noteq> 0 \<Longrightarrow> c_string (t @ nul # r) = t"
  by (simp add: c_string_def takeWhile_append2 byte_def nul_def)

text \<open>A message whose memory goes on with other bytes is read past its length.\<close>

lemma message_read_past_its_end:
  assumes "\<forall>c \<in> set t. byte c \<noteq> 0" "ascii (t @ r)"
  shows "default_pubsub_topic (run_callback on_default_topic_cb (Raw 0 (Some (t @ r)) (length t)) st) = t @ c_string r"
proof -
  have "c_string (t @ r) = t @ c_string r" using assms(1) by (simp add: c_string_def)
  moreover have "ascii (t @ c_string r)" using assms(2) by (auto simp: ascii_def list_all_iff c_string_def dest: set_takeWhileD)
  ultimately show ?thesis by (simp add: run_callback_def decoded_def utf8_decode_ascii say_def)
qed

lemma topic_answered:
  assumes "\<forall>c \<in> set t. byte c \<noteq> 0" "ascii t"
  shows "run_callback on_default_topic_cb (Raw 0 (Some (t @ [nul])) (length t)) st =
    say (''Default pubsub topic: '' @ t) (st\<lparr>default_pubsub_topic := t\<rparr>)"
  using assms by (simp add: run_callback_def decoded_def utf8_decode_ascii c_string_nul)

lemmas run_unfold = numeral_eq_Suc example_init_def script_def event_names_def ask_def call_lib_def marshal_def argtypes_defs planned_def

lemma whole_script:
  "run_main args handle 18 (example_init cfg) =
     (example_init cfg)\<lparr>todo := [], ctx := handle, made := plan args handle [] (script cfg),
       owed := [on_create_cb, on_version_cb, on_default_topic_cb, on_start_cb, on_subscribe_cb, on_connect_cb],
       listening := True, out := [''Bind addr: '' @ arg_host args @ '':'' @ arg_port args, ''Waku Relay enabled: '' @ arg_relay args]\<rparr>"
  by (simp add: run_unfold)

lemma script_to_topic:
  "run_main args handle 3 (example_init cfg) =
     (example_init cfg)\<lparr>todo := drop 3 (script cfg), ctx := handle, made := plan args handle [] (take 3 (script cfg)),
       owed := [on_create_cb, on_version_cb, on_default_topic_cb]\<rparr>"
  by (simp add: run_unfold)

lemma rest_of_script:
  assumes "todo st = drop 3 (script cfg)" "ctx st = handle" "made st = plan args handle [] (take 3 (script cfg))"
  shows "todo (run_main args handle 15 st) = [] \<and>
    default_pubsub_topic (run_main args handle 15 st) = default_pubsub_topic st \<and>
    made (run_main args handle 15 st) = plan args handle (default_pubsub_topic st) (script cfg)"
  using assms by (simp add: run_unfold)

text \<open>The request that subscribes to a topic.\<close>

abbreviation subscription :: "nat option \<Rightarrow> string \<Rightarrow> ffi_call" where
  "subscription handle topic \<equiv> (''waku_relay_subscribe'',
     [Pointer handle, Callback on_subscribe_cb, Pointer None, Byref (RelaySubscribeReq topic)])"

lemma subscribed: "subscription handle topic \<in> set (plan args handle topic (script cfg))"
  by (simp add: script_def planned_def call_unfold)

text \<open>C40: the script does not wait for the answer with the default topic. The library may answer with the same
  topic in two runs, of which one has subscribed to it and the other to the empty topic.\<close>

theorem example_topic_race:
  assumes "\<forall>c \<in> set t. byte c \<noteq> 0" "ascii t"
  shows "(\<exists>st. (example_step args handle)\<^sup>*\<^sup>* (example_init cfg) st \<and> todo st = [] \<and> default_pubsub_topic st = t \<and>
           made st = plan args handle [] (script cfg) \<and> subscription handle [] \<in> set (made st)) \<and>
         (\<exists>st. (example_step args handle)\<^sup>*\<^sup>* (example_init cfg) st \<and> todo st = [] \<and> default_pubsub_topic st = t \<and>
           made st = plan args handle t (script cfg) \<and> subscription handle t \<in> set (made st))"
proof
  let ?answer = "Raw 0 (Some (t @ [nul])) (length t)"
  let ?late = "run_main args handle 18 (example_init cfg)"
  have "on_default_topic_cb \<in> set (owed ?late)" by (simp add: whole_script)
  from rtranclp.rtrancl_into_rtrancl [OF run_main_steps example_step.answer [OF this, of args handle ?answer]]
  show "\<exists>st. (example_step args handle)\<^sup>*\<^sup>* (example_init cfg) st \<and> todo st = [] \<and> default_pubsub_topic st = t \<and>
           made st = plan args handle [] (script cfg) \<and> subscription handle [] \<in> set (made st)"
    by (intro exI conjI) (assumption, simp_all add: topic_answered [OF assms] whole_script say_def subscribed)
  let ?early = "run_main args handle 3 (example_init cfg)"
  let ?st = "run_callback on_default_topic_cb ?answer (?early\<lparr>owed := remove1 on_default_topic_cb (owed ?early)\<rparr>)"
  have "on_default_topic_cb \<in> set (owed ?early)" by (simp add: script_to_topic)
  from rtranclp.rtrancl_into_rtrancl [OF run_main_steps example_step.answer [OF this, of args handle ?answer]]
  have "(example_step args handle)\<^sup>*\<^sup>* (example_init cfg) (run_main args handle 15 ?st)"
    by (rule rtranclp_trans) (rule run_main_steps)
  moreover have "default_pubsub_topic ?st = t" by (simp add: topic_answered [OF assms] say_def)
  moreover have "todo ?st = drop 3 (script cfg)" "ctx ?st = handle" "made ?st = plan args handle [] (take 3 (script cfg))"
    by (simp_all add: script_to_topic)
  note rest_of_script [OF this]
  ultimately show "\<exists>st. (example_step args handle)\<^sup>*\<^sup>* (example_init cfg) st \<and> todo st = [] \<and> default_pubsub_topic st = t \<and>
           made st = plan args handle t (script cfg) \<and> subscription handle t \<in> set (made st)"
    by (intro exI [of _ "run_main args handle 15 ?st"]) (simp add: subscribed)
qed

section \<open>The configuration read back\<close>

text \<open>Texts that stand for themselves between the quotes of a JSON string.\<close>

definition plain :: "string \<Rightarrow> bool" where
  "plain s = list_all (\<lambda>c. 32 \<le> byte c \<and> c \<noteq> quote_mark \<and> c \<noteq> backslash) s"

lemma json_str_plain: "plain s \<Longrightarrow> length s < n \<Longrightarrow> json_str n (s @ quote_mark # r) = Some (s, r)"
proof (induction s arbitrary: n)
  case (Cons c s)
  then obtain m where n: "n = Suc m" by (cases n) auto
  with Cons show ?case by (simp add: plain_def)
qed (auto simp: gr0_conv_Suc)

lemma skip_ws_spaces [simp]: "skip_ws (spaces n @ r) = skip_ws r"
  by (induction n) (simp_all add: spaces_def)

lemma skip_ws_quoted [simp]: "skip_ws (quoted s @ r) = quoted s @ r"
  by (simp add: quoted_def skip_ws_other byte_marks)

lemma json_value_quoted: "plain s \<Longrightarrow> json_value (Suc n) (quoted s @ r) = Some (PStr s, r)"
  by (simp add: quoted_def json_str_plain)

lemma json_members_quoted:
  assumes "plain k" "json_value n (skip_ws t) = Some (v, r)"
  shows "json_members (Suc n) (quoted k @ CHR '':'' # t) =
    (case skip_ws r of
       d # r3 \<Rightarrow> if d = CHR ''}'' then Some ([(k, v)], r3)
                else if d = CHR '','' then map_option (\<lambda>(ms, z). ((k, v) # ms, z)) (json_members n (skip_ws r3))
                else None
     | [] \<Rightarrow> None)"
  using assms by (simp add: quoted_def json_str_plain)

lemma json_value_object:
  assumes "json_members n (quoted k @ t) = Some (ms, r)" "distinct (map fst ms)"
  shows "json_value (Suc n) (CHR ''{'' # spaces i @ quoted k @ t) = Some (PDict ms, r)"
proof -
  have "quoted k @ t = quote_mark # k @ quote_mark # t" by (simp add: quoted_def)
  moreover have "skip_ws (spaces i @ quoted k @ t) = quoted k @ t" by simp
  ultimately show ?thesis using assms dict_update_fresh [of "[]" ms] by (simp add: mark_chars)
qed

lemma plain_keys:
  "plain ''mode''" "plain ''Core''" "plain ''messagingOverrides''" "plain ''listen-address''" "plain ''tcp-port''"
  "plain ''nodekey''" "plain ''log-level''" "plain ''DEBUG''"
  by (simp_all add: plain_def byte_def mark_chars)

definition overrides :: "string \<Rightarrow> int \<Rightarrow> string \<Rightarrow> (string \<times> pyval) list" where
  "overrides hst prt ky =
     [(''listen-address'', PStr hst), (''tcp-port'', PInt prt), (''nodekey'', PStr ky), (''log-level'', PStr ''DEBUG'')]"

lemma skip_ws_str_int: "skip_ws (str_int i @ r) = str_int i @ r"
proof -
  obtain c cs where "str_int i = c # cs" "number_start c" using str_int_start by blast
  with number_start_other [of c] show ?thesis by (simp add: skip_ws_other)
qed

lemma overrides_members:
  assumes "plain hst" "plain ky"
  shows "json_members (Suc (Suc (Suc (Suc (Suc n)))))
     (quoted ''listen-address'' @ '': '' @ quoted hst @ '','' @ spaces a @
      quoted ''tcp-port'' @ '': '' @ str_int prt @ '','' @ spaces b @
      quoted ''nodekey'' @ '': '' @ quoted ky @ '','' @ spaces c @
      quoted ''log-level'' @ '': '' @ quoted ''DEBUG'' @ spaces d @ CHR ''}'' # r) = Some (overrides hst prt ky, r)"
  using assms
  by (simp add: json_members_quoted plain_keys json_value_quoted json_value_int skip_ws_str_int overrides_def
      del: json_members.simps json_value.simps)

lemma config_value:
  assumes "plain hst" "plain ky"
  shows "json_value (Suc (Suc (Suc (Suc (Suc (Suc (Suc (Suc (Suc n))))))))) (config_text hst prt ky) =
    Some (PDict [(''mode'', PStr ''Core''), (''messagingOverrides'', PDict (overrides hst prt ky))], [])"
proof -
  have d: "distinct (map fst (overrides hst prt ky))" by (simp add: overrides_def)
  note inner = json_value_object [OF overrides_members [OF assms] d]
  show ?thesis unfolding config_text_def append.simps
    by (rule json_value_object, simp_all add: json_members_quoted plain_keys json_value_quoted skip_ws_other byte_def
        inner [unfolded append.simps] del: json_members.simps json_value.simps)
qed

text \<open>C37: a JSON reader gets back from the configuration text the address, the port as a number and the key,
  when address and key have no quote, backslash or control character; a port that is not a number raises before
  the library is called.\<close>

theorem example_config_roundtrip:
  assumes "plain (arg_host args)" "plain (arg_key args)"
  shows "res_bind (json_config args) json_loads =
    (case parse_int (arg_port args) of
       None \<Rightarrow> Inl (Exn ValueError ''invalid literal for int() with base 10'')
     | Some p \<Rightarrow> Inr (PDict [(''mode'', PStr ''Core''),
         (''messagingOverrides'', PDict (overrides (arg_host args) p (arg_key args)))]))"
proof (cases "parse_int (arg_port args)")
  case (Some p)
  let ?t = "config_text (arg_host args) p (arg_key args)"
  have "8 \<le> length ?t" by (simp add: config_text_def)
  then obtain n where n: "length ?t = 8 + n" using le_Suc_ex by blast
  have "skip_ws ?t = ?t" by (simp add: config_text_def skip_ws_other byte_def)
  with config_value [OF assms, of n p] Some n show ?thesis
    by (simp add: json_config_def json_loads_def numeral_eq_Suc del: json_value.simps)
qed (simp add: json_config_def)

section \<open>A concrete run\<close>

definition sample_args :: example_args where
  "sample_args = \<lparr>arg_host = ''127.0.0.1'', arg_port = ''60001'', arg_key = ''364d'', arg_relay = ''true'', arg_peer = ''/ip4/10.0.0.1''\<rparr>"

theorem example_config_roundtrip_witness:
  "res_bind (json_config sample_args) json_loads =
     Inr (PDict [(''mode'', PStr ''Core''),
       (''messagingOverrides'', PDict [(''listen-address'', PStr ''127.0.0.1''), (''tcp-port'', PInt 60001),
          (''nodekey'', PStr ''364d''), (''log-level'', PStr ''DEBUG'')])])"
proof -
  have "plain (arg_host sample_args)" "plain (arg_key sample_args)"
    by (simp_all add: sample_args_def plain_def byte_def mark_chars)
  moreover have "parse_int (arg_port sample_args) = Some 60001"
    by (simp add: sample_args_def parse_int_def decimal_ascii_def int_strip_def
        int_space_def parse_groups_def parse_nat_def is_digit_def Let_def)
  ultimately show ?thesis using example_config_roundtrip [of sample_args] by (simp add: overrides_def) (simp add: sample_args_def)
qed

theorem example_calls_in_order_witness:
  "prefix (map fst (made (run_main sample_args (Some 7) 5 (example_init ''{}'')))) call_order \<and>
   distinct (concat (map listens_to (made (run_main sample_args (Some 7) 5 (example_init ''{}'')))))"
  using example_calls_in_order [OF run_main_steps [of sample_args "Some 7" "example_init ''{}''" 5]] by blast

theorem example_calls_well_typed_witness:
  "list_all (\<lambda>call. marshal call = Inr ()) (made (run_main sample_args (Some 7) 3 (example_init ''{}''))) \<and>
   (\<exists>st'. exec sample_args (Some 7) PrintSettings
      ((run_main sample_args (Some 7) 3 (example_init ''{}''))\<lparr>todo := drop 4 (script ''{}'')\<rparr>) = Inr st')"
proof -
  have "todo (run_main sample_args (Some 7) 3 (example_init ''{}'')) = PrintSettings # drop 4 (script ''{}'')"
    by (simp add: script_to_topic) (simp add: script_def)
  then show ?thesis
    using example_calls_well_typed [OF run_main_steps [of sample_args "Some 7" "example_init ''{}''" 3]] by simp
qed

theorem example_topic_race_witness:
  "\<exists>st. (example_step sample_args (Some 7))\<^sup>*\<^sup>* (example_init ''{}'') st \<and>
     default_pubsub_topic st = ''/waku/2/rs/0/0'' \<and> made st = plan sample_args (Some 7) [] (script ''{}'')"
  using example_topic_race [of "''/waku/2/rs/0/0''" sample_args "Some 7" "''{}''"] by (auto simp: byte_def)

end
