(* ===== verification/Spec2Isabelle.thy ===== *)
theory Spec2Isabelle
  imports Sonda Label_Sources Wrapper_Helpers Lpt_Supervisor Channel_Process Traffic_Control Test_Lifecycle
    Custom_Logger Example_Node
begin

text \<open>
  A verification library for the Python code of logos-delivery.

  \<^bold>\<open>The program.\<close> The repository holds a message delivery node written in Nim and, in Python, the programs that
  watch, check and exercise it:

  \<^item> \<open>apps/sonda/sonda.py\<close>, a prober that publishes a message per round and asks the store nodes for it;
  \<^item> \<open>apps/liteprotocoltester/lpt_supervisor.py\<close>, which runs the protocol tester at fixed intervals;
  \<^item> \<open>scripts/check_metric_labels.py\<close>, a linter for the label values of Prometheus metrics;
  \<^item> \<open>tests-e2e/src\<close>, the library under the end-to-end tests: nodes in Docker containers and their REST client,
    nodes in the test process through the C interface, a channel peer in a process of its own, network
    conditions, and classes of steps that the tests are made of;
  \<^item> \<open>examples/python/waku.py\<close>, an example for the C interface.

  \<^bold>\<open>How it is modelled.\<close> Every function is a function of HOL. A Python value is a \<open>pyval\<close>, a record of a class a
  \<open>record\<close>, an exception an \<open>exn\<close> in the left part of a sum; code with effects is a function \<open>('w, 'a) io\<close> from a
  state to a result and a state, where the type \<open>'w\<close> of the outer world is a parameter. The packages that the
  sources call are parameters: \<open>requests\<close> (\<open>Http_Model\<close>), the Docker client (a record of its operations in
  \<open>Docker_Manager\<close>), \<open>tenacity\<close> (\<open>Py_Retry\<close>, with the documented behaviour as the hypothesis \<open>retries\<close>), the language
  bindings and the native library, \<open>marshmallow\<close>, SHA-256, clocks, random numbers and identifiers. The parts of
  Python's standard library that the sources rely on are defined: strings, dictionaries, \<open>re\<close>, \<open>json\<close>, \<open>base64\<close>,
  \<open>urllib.parse.quote\<close>, \<open>multiprocessing\<close> queues, \<open>ctypes\<close> argument checks and log filters.

  \<^bold>\<open>The theories.\<close>

  \<^descr> \<open>Py_Prelude\<close> strings as UTF-8 bytes, \<open>int\<close> of a text, the lines of a text file, exceptions and their classes, dictionaries
    and effects.
  \<^descr> \<open>Py_Codec\<close> base64, hexadecimal and percent encoding, as interpretations of one locale \<open>codec\<close> (and \<open>path_codec\<close>).
  \<^descr> \<open>Py_Regex\<close>, \<open>Py_Json\<close> a backtracking matcher; reading and writing JSON, with the round trip \<open>json_loads_dumps\<close>.
  \<^descr> \<open>Py_Poll\<close>, \<open>Py_Retry\<close> polling loops with their clock (and the locale \<open>growing_log\<close> for logs that only grow),
    and what a retrier guarantees; the rules \<open>keeps_rules\<close> for what a program with effects keeps, on which the
    invariants of the components rest.
  \<^descr> \<open>Sonda\<close> the prober. It emits only labels from a fixed set; its health gauges say whether the last answers of a node, as
    many as the threshold asks for, all held the message that had been published;
    a store query moves the metrics that its answer asks for; a peer is blamed only when it has answered. A body
    that is not an object ends the prober.
  \<^descr> \<open>Metric_Labels\<close> the linter. It accepts exactly the sources without a violation outside the allowlist; a tainted
    label is never accepted through the allowlist; after \<open>--update\<close> only what cannot be listed is left; splitting at
    commas loses nothing. A closing bracket in a literal hides the labels of its call. \<open>Label_Sources\<close> adds the choice and the reading of the
    files: the answer does not depend on the order in which directories are listed.
  \<^descr> \<open>Wrapper_Helpers\<close>, \<open>Wrapper_Manager\<close> the collector of library events with its waiting loops, the address and port
    readers, the manager of a native node.
  \<^descr> \<open>Rest_Client\<close>, \<open>Http_Model\<close> the REST client: what it sends is what the node decodes.
  \<^descr> \<open>E2e_Common\<close>, \<open>Custom_Logger\<close> settings, helpers and loggers.
  \<^descr> \<open>Lpt_Supervisor\<close> the supervisor: its environment file is read back whatever its line ends, the variables it sets, and
    its interval.
  \<^descr> \<open>Docker_Manager\<close>, \<open>Waku_Node\<close> containers, the database, log search (equal to a reference definition, with the error
    of a keyword that is no pattern) and the node
    object with its life cycle: what flags it is started with, that \<open>ensure_ready\<close> returns only when the node has
    said so. The locale \<open>node_invariant\<close> says which properties all operations of a node keep; it is interpreted for
    one node alone, for the log file of a node, and for a node of a test. With any Docker that refuses to attach a
    container every attempt to start leaves one behind; the log thread may read a log twice.
  \<^descr> \<open>Channel_Process\<close> parent, worker, queues and stop event as a transition system over all interleavings, on the
    interface \<open>fifo\<close>: events in order, one acknowledgement per command, waiting that returns. A late
    acknowledgement is taken for the next one.
  \<^descr> \<open>Traffic_Control\<close> network conditions; the operations refine a table of one rule per interface, under a hypothesis on
    the \<open>tc\<close> command that leaves open which rules it accepts; a refused rule raises and leaves none.
  \<^descr> \<open>Message_Checks\<close>, \<open>Steps_Common\<close>, \<open>Steps_Messaging\<close>, \<open>Steps_Relay\<close>, \<open>Steps_Store\<close> the comparison of messages and the
    step classes: what a passed check says about the messages received or stored, when the collecting loops
    end and how, what a message hash determines up to a collision of SHA-256.
  \<^descr> \<open>Thread_Pool\<close>, \<open>Steps_Fleet\<close> threads that make steps on a shared state under any schedule, and the nodes of a fleet test
    started in such a pool: the call ends under a fair scheduler and returns the nodes in the order asked for.
  \<^descr> \<open>Test_Fixtures\<close>, \<open>Test_Lifecycle\<close> the fixtures around a test: exactly the old log files are removed; and all step
    classes and the teardown together: no container is forgotten.
  \<^descr> \<open>Example_Node\<close> the example as a transition system in which the library answers at any time: its calls are in the
    order \<open>call_order\<close> and well typed, its configuration is read back. Its subscription does not wait for the topic.

  \<^bold>\<open>How the parts meet.\<close> The steps act on nodes through \<open>on_node\<close>, the node on Docker and HTTP through its
  configuration; the invariant \<open>registered\<close> of a node (one with a container is in the list \<open>DS.waku_nodes\<close>) gives
  the invariant \<open>tracked\<close> of a test, and that gives the theorem on the teardown. The REST client rests on the
  encoders and on JSON, the step classes on the REST client and the retriers.

  \<^bold>\<open>Bounds.\<close> The regular expression matcher, the JSON reader and the UTF-8 decoder take the length of the text as
  fuel: every recursive call consumes a character, and \<open>json_loads_dumps\<close> shows that it is enough for what is
  written. Endless loops are functions of the number of rounds (\<open>Sonda\<close>, \<open>Lpt_Supervisor\<close>) or partial functions
  into \<open>option\<close> (\<open>Channel_Process\<close>, \<open>Steps_Messaging\<close>, \<open>Py_Poll\<close>) with theorems that they return when the clock
  advances. The nesting of log calls is bounded by a depth, and two are enough.

  \<^bold>\<open>Not modelled.\<close> The node and its C library (Nim), tests and their cases, shell, Nix and CI files. Of the Python
  code: log lines (except where building one can raise), the interpolated parts of assertion messages, the
  interleaving of Docker calls inside two starts of \<open>start_fleet_nodes\<close> (a start is one step of its thread), the
  order in which pytest runs fixtures, and the test cases themselves. Characters outside ASCII belong to no
  character class of a regular expression, and bytes given to \<open>json.loads\<close> are read as UTF-8 only.
\<close>

end
